theory Spec2Isabelle
  imports Complex_Main "HOL-Library.Sublist"
begin

section \<open>Python strings\<close>

text \<open>
  The scraper works on Python \<^verbatim>\<open>str\<close> values. They are modelled as \<^typ>\<open>string\<close>, one
  \<^typ>\<open>char\<close> per code point, which covers the code points below 256 (Latin-1); in that
  range the only decimal digits are \<^verbatim>\<open>0\<close> to \<^verbatim>\<open>9\<close>, so the digit class
  of Python's regular expressions is \<open>is_digit\<close>. \<^verbatim>\<open>len(s)\<close> is \<^term>\<open>length s\<close> and \<^verbatim>\<open>a in b\<close> is
  \<open>str_in a b\<close>.
\<close>

definition py_isspace :: "char \<Rightarrow> bool" where
  \<comment> \<open>\<^verbatim>\<open>str.isspace\<close> on one code point below 256.\<close>
  "py_isspace c = (let n = (of_char c :: nat) in
     (9 \<le> n \<and> n \<le> 13) \<or> (28 \<le> n \<and> n \<le> 32) \<or> n = 133 \<or> n = 160)"

definition py_strip :: "string \<Rightarrow> string" where
  \<comment> \<open>\<^verbatim>\<open>s.strip()\<close>: leading and trailing whitespace removed.\<close>
  "py_strip s = rev (dropWhile py_isspace (rev (dropWhile py_isspace s)))"

definition py_lower_char :: "char \<Rightarrow> char" where
  \<comment> \<open>\<^verbatim>\<open>c.lower()\<close> below 256: A to Z and the accented capitals 192 to 222 (not the
      multiplication sign 215) move up by 32, which sets bit 5.\<close>
  "py_lower_char c = (let n = (of_char c :: nat) in
     if (65 \<le> n \<and> n \<le> 90) \<or> (192 \<le> n \<and> n \<le> 222 \<and> n \<noteq> 215)
     then (case c of Char b0 b1 b2 b3 b4 b5 b6 b7 \<Rightarrow> Char b0 b1 b2 b3 b4 True b6 b7)
     else c)"

definition py_lower :: "string \<Rightarrow> string" where
  "py_lower s = map py_lower_char s"

definition is_digit :: "char \<Rightarrow> bool" where
  "is_digit c = (let n = (of_char c :: nat) in 48 \<le> n \<and> n \<le> 57)"

definition str_in :: "string \<Rightarrow> string \<Rightarrow> bool" where
  \<comment> \<open>\<^verbatim>\<open>s in t\<close> for strings: \<open>s\<close> occurs in \<open>t\<close> as a contiguous run.\<close>
  "str_in s t = sublist s t"

section \<open>Canonical listing links (export.py)\<close>

definition CANONICAL_LISTING_URL :: string where
  "CANONICAL_LISTING_URL = ''https://www.idealista.com/inmueble/''"

definition inmueble_match_at :: "string \<Rightarrow> string option" where
  \<comment> \<open>The pattern \<^verbatim>\<open>/inmueble/([0-9]+)/?\<close> anchored at the start of \<open>l\<close>: group 1 when it
      matches. The digit run is greedy and the final slash is optional, so group 1 is the
      longest run of digits after the literal, and it must not be empty.\<close>
  "inmueble_match_at l =
     (if prefix ''/inmueble/'' l \<and> takeWhile is_digit (drop 10 l) \<noteq> []
      then Some (takeWhile is_digit (drop 10 l)) else None)"

fun re_search_inmueble :: "string \<Rightarrow> string option" where
  \<comment> \<open>\<^verbatim>\<open>re.search(r"/inmueble/([0-9]+)/?", url)\<close>: group 1 of the leftmost match.\<close>
  "re_search_inmueble [] = None"
| "re_search_inmueble (c # cs) =
     (case inmueble_match_at (c # cs) of
        Some ident \<Rightarrow> Some ident
      | None \<Rightarrow> re_search_inmueble cs)"

definition normalize_listing_link :: "string \<Rightarrow> string" where
  "normalize_listing_link url =
     (if url = [] \<or> \<not> str_in ''idealista'' (py_lower url) \<or> \<not> str_in ''/inmueble/'' url
      then py_strip url
      else (case re_search_inmueble url of
              Some ident \<Rightarrow> CANONICAL_LISTING_URL @ ident @ ''/''
            | None \<Rightarrow> py_strip url))"

section \<open>Parsed data (parsers.py)\<close>

record ListingCard =
  listing_type :: string
  title :: string
  link :: string
  price :: "int option"
  currency :: string
  rooms :: "int option"
  sq_meters :: "int option"
  location :: string
  description :: string
  tags :: "string list"
  seller :: "string option"
  seller_url :: "string option"

text \<open>
  \<^verbatim>\<open>DetailListing\<close> has fields of the same names as the card; they carry the prefix
  \<open>detail_\<close> here. \<^verbatim>\<open>features\<close> is a dictionary from a label to a list of strings; it
  is kept as the list of its items in insertion order and read with \<^const>\<open>map_of\<close>.
\<close>

record DetailListing =
  detail_url :: string
  detail_title :: string
  detail_location :: string
  detail_price :: "int option"
  detail_currency :: string
  detail_description :: string
  detail_updated :: string
  detail_features :: "(string \<times> string list) list"
  detail_images :: "string list"

text \<open>
  \<^verbatim>\<open>parse_search_page\<close> and \<^verbatim>\<open>parse_detail_page\<close> run the markup through the
  third-party HTML library \<^verbatim>\<open>parsel\<close>, which is not part of the repository. The model
  takes both parsers as parameters: a search parser maps markup and base URL to the total
  count and the cards, a detail parser maps markup and URL to a detail record. Both are
  total functions, as the interface of the extraction collaborator promises.
\<close>

type_synonym search_parser = "string \<Rightarrow> string \<Rightarrow> int \<times> ListingCard list"
type_synonym detail_parser = "string \<Rightarrow> string \<Rightarrow> DetailListing"

definition IDEALISTA_DOMAIN :: string where
  "IDEALISTA_DOMAIN = ''https://www.idealista.com''"

definition looks_like_listing_page :: "search_parser \<Rightarrow> string \<Rightarrow> string \<Rightarrow> bool" where
  "looks_like_listing_page parse html base_url =
     (case parse html base_url of (total_count, cards) \<Rightarrow>
        if total_count > 0 \<or> length cards > 0 then True
        else if str_in ''/inmueble/'' html \<and> str_in ''idealista.com'' html then True
        else if length html > 5000 \<and> str_in ''idealista'' (py_lower html)
                \<and> (str_in ''items-list'' html \<or> str_in ''item-info-container'' html) then True
        else False)"

section \<open>Block detector (fetcher.py)\<close>

definition block_indicators :: "string list" where
  "block_indicators =
     [''Please enable JS'', ''enable JavaScript'', ''disable any ad blocker'', ''datadome'',
      ''bloqueado'', ''blocked'', ''captcha'', ''captcha challenge'', ''security challenge'',
      ''please complete the challenge'', ''se ha detectado un uso indebido'',
      ''el acceso se ha bloqueado'', ''uso indebido'']"

definition is_blocked_page :: "string \<Rightarrow> bool" where
  "is_blocked_page html =
     (if html = [] \<or> length html < 500 then True
      else list_ex (\<lambda>ind. str_in (py_lower ind) (py_lower html)) block_indicators)"

definition detector_with_override :: "search_parser \<Rightarrow> string \<Rightarrow> bool" where
  \<comment> \<open>The detector as its callers combine it with the listing-page heuristic
      (orchestrator.py line 57, cli.py): blocked and not demonstrably a listing page.\<close>
  "detector_with_override parse html =
     (is_blocked_page html \<and> \<not> looks_like_listing_page parse html IDEALISTA_DOMAIN)"

definition listing_page_with_challenge :: string where
  \<comment> \<open>A page in the style of the repository's test for a listing that is not blocked:
      padding, a total-count header, a listing container, and the word challenge in prose.\<close>
  "listing_page_with_challenge =
     replicate 1000 CHR ''x'' @
     ''<h1 id=h1-container>Venta de viviendas: 500</h1><section class=items-list>'' @
     ''<p>A challenge for every buyer</p>''"

section \<open>Page arithmetic (orchestrator.py, config.py)\<close>

definition IDEALISTA_MAX_PAGE :: int where
  "IDEALISTA_MAX_PAGE = 60"

definition compute_total_pages :: "int \<Rightarrow> int \<Rightarrow> int" where
  \<comment> \<open>Lines 70 to 73. \<^verbatim>\<open>math.ceil(total_count / 30)\<close> is the ceiling of the real quotient.\<close>
  "compute_total_pages total_count max_pages =
     (if total_count > 30
      then min IDEALISTA_MAX_PAGE (min (max 1 \<lceil>real_of_int total_count / 30\<rceil>) max_pages)
      else min IDEALISTA_MAX_PAGE max_pages)"

definition resume_start_page :: "string set \<Rightarrow> int \<Rightarrow> int" where
  \<comment> \<open>Lines 78 to 80. \<^verbatim>\<open>if already_seen\<close> tests that the set is not empty and
      \<^verbatim>\<open>len(already_seen)\<close> is its cardinality.\<close>
  "resume_start_page already_seen total_pages =
     (if already_seen \<noteq> {} \<and> total_pages > 1
      then min total_pages (int (card already_seen) div 30 + 1)
      else 1)"

section \<open>Emitted records and the observable world\<close>

text \<open>
  A finalized record is the dictionary of a card, its link replaced by the canonical one,
  with the parsed detail record under the key \<^verbatim>\<open>detail\<close> when a detail page was fetched.
\<close>

record listing_record =
  rec_card :: ListingCard
  rec_detail :: "DetailListing option"

text \<open>
  What a run does to the outside is a trace of events: each call of \<^verbatim>\<open>fetch_html\<close> with
  its URL, each \<^verbatim>\<open>asyncio.sleep\<close> of the retry policy and of the orchestrator with its
  seconds, each browser restart the orchestrator asks for, and each record handed to the
  \<^verbatim>\<open>on_record\<close> callback. \<open>EvRequest\<close> marks the place in the orchestrator that is about
  to fetch (page 1, a later search page by its number, or a detail page); it has no
  effect and lets a statement say which page a fetch belongs to. All delays of the source
  that reach the trace are whole seconds.
\<close>

datatype target = FirstPage | SearchPage int | DetailPage string

datatype event =
    EvFetch string
  | EvSleep int
  | EvRequest target
  | EvRestart
  | EvRecord listing_record

record world =
  calls :: nat
  trace :: "event list"

definition log_event :: "event \<Rightarrow> world \<Rightarrow> world" where
  "log_event e w = w\<lparr>trace := trace w @ [e]\<rparr>"

section \<open>Fetch client and retry policy (fetcher.py)\<close>

text \<open>
  One call of \<^verbatim>\<open>fetch_html\<close> either raises or returns markup and a status. What the
  browser and the network answer is the environment of the run: a function from the
  number of the call and its URL to the outcome. Any behaviour of the site during one run
  is such a function.
\<close>

datatype fetch_outcome = FetchRaised | FetchReturned string int

type_synonym fetch_env = "nat \<Rightarrow> string \<Rightarrow> fetch_outcome"

datatype py_error = IndexError | WebDriverError | RuntimeError int

definition fetch_html :: "fetch_env \<Rightarrow> string \<Rightarrow> world \<Rightarrow> fetch_outcome \<times> world" where
  "fetch_html env url w =
     (env (calls w) url, w\<lparr>calls := Suc (calls w), trace := trace w @ [EvFetch url]\<rparr>)"

definition backoff_wait :: "int list \<Rightarrow> nat \<Rightarrow> py_error + int" where
  \<comment> \<open>\<^verbatim>\<open>backoff_sec[attempt] if attempt < len(backoff_sec) else backoff_sec[-1]\<close>; the
      index \<^verbatim>\<open>-1\<close> of an empty tuple raises.\<close>
  "backoff_wait backoff_sec attempt =
     (if attempt < length backoff_sec then Inr (backoff_sec ! attempt)
      else if backoff_sec = [] then Inl IndexError
      else Inr (last backoff_sec))"

fun retry_attempts ::
  "fetch_env \<Rightarrow> string \<Rightarrow> int \<Rightarrow> int list \<Rightarrow> nat \<Rightarrow> nat \<Rightarrow> string \<times> int \<Rightarrow> world
     \<Rightarrow> (py_error \<times> world) + ((string \<times> int) \<times> world)" where
  \<comment> \<open>The loop \<^verbatim>\<open>for attempt in range(max_retries)\<close> with \<open>remaining\<close> iterations to go.\<close>
  "retry_attempts env url max_retries backoff_sec 0 attempt last_result w = Inr (last_result, w)"
| "retry_attempts env url max_retries backoff_sec (Suc remaining) attempt last_result w =
     (case fetch_html env url w of (out, w1) \<Rightarrow>
        (case out of
           FetchReturned html status \<Rightarrow>
             if status = 200 then Inr ((html, status), w1)
             else if int attempt < max_retries - 1
             then (case backoff_wait backoff_sec attempt of
                     Inl e \<Rightarrow> Inl (e, w1)
                   | Inr wait \<Rightarrow> retry_attempts env url max_retries backoff_sec remaining
                                  (Suc attempt) (html, status) (log_event (EvSleep wait) w1))
             else retry_attempts env url max_retries backoff_sec remaining
                    (Suc attempt) (html, status) w1
         | FetchRaised \<Rightarrow>
             if int attempt < max_retries - 1
             then (case backoff_wait backoff_sec attempt of
                     Inl e \<Rightarrow> Inl (e, w1)
                   | Inr wait \<Rightarrow> retry_attempts env url max_retries backoff_sec remaining
                                  (Suc attempt) ('''', 0) (log_event (EvSleep wait) w1))
             else retry_attempts env url max_retries backoff_sec remaining
                    (Suc attempt) ('''', 0) w1))"

definition fetch_html_with_retry ::
  "fetch_env \<Rightarrow> string \<Rightarrow> int \<Rightarrow> int list \<Rightarrow> world
     \<Rightarrow> (py_error \<times> world) + ((string \<times> int) \<times> world)" where
  "fetch_html_with_retry env url max_retries backoff_sec w =
     retry_attempts env url max_retries backoff_sec (nat max_retries) 0 ('''', 0) w"

definition default_backoff :: "int list" where
  "default_backoff = [10, 30, 60]"

text \<open>Notions for stating what the retry policy does.\<close>

definition outcome_pair :: "fetch_outcome \<Rightarrow> string \<times> int" where
  \<comment> \<open>What one attempt leaves in \<^verbatim>\<open>last_result\<close>.\<close>
  "outcome_pair out = (case out of FetchReturned html status \<Rightarrow> (html, status) | FetchRaised \<Rightarrow> ('''', 0))"

definition outcome_ok :: "fetch_outcome \<Rightarrow> bool" where
  "outcome_ok out = (case out of FetchReturned html status \<Rightarrow> status = 200 | FetchRaised \<Rightarrow> False)"

definition clamped :: "int list \<Rightarrow> nat \<Rightarrow> int" where
  "clamped backoff_sec attempt =
     (if attempt < length backoff_sec then backoff_sec ! attempt else last backoff_sec)"

fun attempts_trace :: "string \<Rightarrow> int list \<Rightarrow> nat \<Rightarrow> nat \<Rightarrow> event list" where
  \<comment> \<open>\<open>n\<close> failed attempts from attempt number \<open>a\<close> on, each followed by its backoff sleep,
      and then one more attempt.\<close>
  "attempts_trace url backoff_sec a 0 = [EvFetch url]"
| "attempts_trace url backoff_sec a (Suc n) =
     EvFetch url # EvSleep (clamped backoff_sec a) # attempts_trace url backoff_sec (Suc a) n"

definition sleeps_of :: "event list \<Rightarrow> int list" where
  "sleeps_of evs = concat (map (\<lambda>e. case e of EvSleep d \<Rightarrow> [d] | _ \<Rightarrow> []) evs)"

definition always_raises :: fetch_env where
  "always_raises = (\<lambda>n url. FetchRaised)"

definition denied_then_raises :: fetch_env where
  \<comment> \<open>The first call is answered with status 403, every later call raises.\<close>
  "denied_then_raises = (\<lambda>n url. if n = 0 then FetchReturned ''denied'' 403 else FetchRaised)"

definition raises_then_ok :: fetch_env where
  \<comment> \<open>The first call raises, every later call is answered with a page and status 200.\<close>
  "raises_then_ok = (\<lambda>n url. if n = 0 then FetchRaised else FetchReturned ''<html>listing</html>'' 200)"

definition ok_or_raised :: "fetch_env \<Rightarrow> string \<Rightarrow> bool" where
  \<comment> \<open>Every call for \<open>url\<close> raises or returns status 200.\<close>
  "ok_or_raised env url =
     (\<forall>n. env n url = FetchRaised \<or> (\<exists>html. env n url = FetchReturned html 200))"

definition world0 :: world where
  "world0 = \<lparr>calls = 0, trace = []\<rparr>"

subsection \<open>The Selenium backend\<close>

text \<open>
  \<^verbatim>\<open>_fetch_html_selenium_sync\<close> drives a browser. Each step that can raise is a flag of
  the browser's behaviour during the call: creating a driver (only when none is passed
  in), \<^verbatim>\<open>driver.get\<close>, the cookie banner (its clicks are guarded, reading
  \<^verbatim>\<open>current_url\<close> is not), scrolling (the fallback in its handler is not guarded) and
  reading \<^verbatim>\<open>page_source\<close>, which may also be \<^verbatim>\<open>None\<close>. Waiting for a listing link is
  inside \<^verbatim>\<open>try\<close> and the sleeps do not raise.
\<close>

record selenium_run =
  driver_created :: bool
  get_ok :: bool
  banner_ok :: bool
  scroll_ok :: bool
  source_ok :: bool
  page_source :: "string option"

definition fetch_html_selenium_sync ::
  "selenium_run \<Rightarrow> bool \<Rightarrow> string \<Rightarrow> bool \<Rightarrow> py_error + (string \<times> int)" where
  "fetch_html_selenium_sync b driver_given url scroll =
     (if \<not> driver_given \<and> \<not> driver_created b then Inl WebDriverError
      else if \<not> get_ok b then Inl WebDriverError
      else if str_in ''idealista'' url \<and> \<not> banner_ok b then Inl WebDriverError
      else if scroll \<and> \<not> scroll_ok b then Inl WebDriverError
      else if \<not> source_ok b then Inl WebDriverError
      else Inr (case page_source b of None \<Rightarrow> '''' | Some html \<Rightarrow> html, 200))"

datatype approach = undetected | selenium | playwright | playwright_cdp

definition is_selenium_like :: "approach \<Rightarrow> bool" where
  "is_selenium_like a = (a = selenium \<or> a = undetected)"

record fetch_kwargs =
  kw_driver :: bool
  kw_page :: bool
  kw_approach :: approach
  kw_scroll :: bool

record backend =
  selenium_runs :: "nat \<Rightarrow> string \<Rightarrow> selenium_run"
  playwright_outcomes :: "nat \<Rightarrow> string \<Rightarrow> fetch_outcome"

definition uses_selenium :: "fetch_kwargs \<Rightarrow> bool" where
  \<comment> \<open>The first two branches of \<^verbatim>\<open>fetch_html\<close>.\<close>
  "uses_selenium kw = (kw_driver kw \<or> (is_selenium_like (kw_approach kw) \<and> \<not> kw_page kw))"

definition backend_env :: "fetch_kwargs \<Rightarrow> backend \<Rightarrow> fetch_env" where
  \<comment> \<open>\<^verbatim>\<open>fetch_html\<close> by backend: a driver, or a Selenium-like approach without a page, goes
      to the Selenium client; everything else is answered by Playwright.\<close>
  "backend_env kw b = (\<lambda>n url.
     if kw_driver kw then
       (case fetch_html_selenium_sync (selenium_runs b n url) True url (kw_scroll kw) of
          Inl e \<Rightarrow> FetchRaised | Inr (html, status) \<Rightarrow> FetchReturned html status)
     else if is_selenium_like (kw_approach kw) \<and> \<not> kw_page kw then
       (case fetch_html_selenium_sync (selenium_runs b n url) False url (kw_scroll kw) of
          Inl e \<Rightarrow> FetchRaised | Inr (html, status) \<Rightarrow> FetchReturned html status)
     else playwright_outcomes b n url)"

definition forbidden_page_run :: selenium_run where
  \<comment> \<open>The browser loads a page that the server sent with status 403: every step succeeds.\<close>
  "forbidden_page_run =
     \<lparr>driver_created = True, get_ok = True, banner_ok = True, scroll_ok = True,
      source_ok = True, page_source = Some ''<html>403 Forbidden</html>''\<rparr>"

definition crashing_run :: selenium_run where
  \<comment> \<open>\<^verbatim>\<open>driver.get\<close> raises.\<close>
  "crashing_run =
     \<lparr>driver_created = True, get_ok = False, banner_ok = True, scroll_ok = True,
      source_ok = True, page_source = None\<rparr>"

definition driver_kwargs :: fetch_kwargs where
  \<comment> \<open>The keyword arguments \<^verbatim>\<open>run\<close> builds for a Selenium-like approach.\<close>
  "driver_kwargs = \<lparr>kw_driver = True, kw_page = False, kw_approach = undetected, kw_scroll = True\<rparr>"

definition crashing_backend :: backend where
  "crashing_backend =
     \<lparr>selenium_runs = (\<lambda>n url. crashing_run),
      playwright_outcomes = (\<lambda>n url. FetchReturned ''<html>403 Forbidden</html>'' 403)\<rparr>"

section \<open>Orchestrator (orchestrator.py)\<close>

subsection \<open>Helpers\<close>

fun str_of_nat :: "nat \<Rightarrow> string" where
  "str_of_nat n =
     (if n < 10 then [''0123456789'' ! n]
      else str_of_nat (n div 10) @ [''0123456789'' ! (n mod 10)])"

definition str_of_int :: "int \<Rightarrow> string" where
  \<comment> \<open>\<^verbatim>\<open>str(i)\<close> of an integer, as the f-string of the page URL formats it.\<close>
  "str_of_int i = (if i < 0 then CHR ''-'' # str_of_nat (nat (- i)) else str_of_nat (nat i))"

definition page_url :: "string \<Rightarrow> int \<Rightarrow> string" where
  "page_url base page_num = base @ ''/pagina-'' @ str_of_int page_num @ ''.htm''"

fun int_literal_ok :: "string \<Rightarrow> bool" where
  \<comment> \<open>Decimal digits, with single underscores allowed between digits.\<close>
  "int_literal_ok [] = False"
| "int_literal_ok [c] = is_digit c"
| "int_literal_ok (c # d # cs) =
     (is_digit c \<and> (if d = CHR ''_'' then int_literal_ok cs else int_literal_ok (d # cs)))"

fun digits_value :: "string \<Rightarrow> int \<Rightarrow> int" where
  "digits_value [] acc = acc"
| "digits_value (c # cs) acc =
     digits_value cs (if c = CHR ''_'' then acc else acc * 10 + (int (of_char c) - 48))"

definition py_int :: "string \<Rightarrow> int option" where
  \<comment> \<open>\<^verbatim>\<open>int(s)\<close> of a string; \<open>None\<close> where it raises \<^verbatim>\<open>ValueError\<close> (also for more than
      4300 digits, which current CPython refuses).\<close>
  "py_int s =
     (let t = py_strip s;
          neg = (t \<noteq> [] \<and> hd t = CHR ''-'');
          body = (if t \<noteq> [] \<and> (hd t = CHR ''-'' \<or> hd t = CHR ''+'') then tl t else t)
      in if int_literal_ok body \<and> length (filter is_digit body) \<le> 4300
         then Some ((if neg then - 1 else 1) * digits_value body 0)
         else None)"

definition override_int :: "(string \<times> string list) list \<Rightarrow> string \<Rightarrow> int option \<Rightarrow> int option" where
  \<comment> \<open>Lines 123 to 132: the first entry of a feature, read as an integer, replaces the
      card's value; a missing or empty feature and a failed conversion leave it.\<close>
  "override_int feats key current =
     (case map_of feats key of
        None \<Rightarrow> current
      | Some [] \<Rightarrow> current
      | Some (x # xs) \<Rightarrow> (case py_int x of Some n \<Rightarrow> Some n | None \<Rightarrow> current))"

definition card_record :: "ListingCard \<Rightarrow> string \<Rightarrow> listing_record" where
  \<comment> \<open>\<^verbatim>\<open>{**card.to_dict(), "link": canonical_link}\<close>\<close>
  "card_record crd canonical_link = \<lparr>rec_card = crd\<lparr>link := canonical_link\<rparr>, rec_detail = None\<rparr>"

definition merge_detail :: "ListingCard \<Rightarrow> string \<Rightarrow> DetailListing \<Rightarrow> listing_record" where
  "merge_detail crd canonical_link detail =
     \<lparr>rec_card = crd\<lparr>link := canonical_link,
                       rooms := override_int (detail_features detail) ''rooms'' (rooms crd),
                       sq_meters := override_int (detail_features detail) ''sq_meters'' (sq_meters crd),
                       location := (if detail_location detail \<noteq> [] then detail_location detail
                                    else location crd)\<rparr>,
      rec_detail = Some detail\<rparr>"

fun dedupe_loop :: "string set \<Rightarrow> string set \<Rightarrow> ListingCard list \<Rightarrow> ListingCard list" where
  "dedupe_loop seen seen_links [] = []"
| "dedupe_loop seen seen_links (c # cards) =
     (let canonical = (if link c \<noteq> [] then normalize_listing_link (link c) else [])
      in if canonical = [] \<or> canonical \<in> seen \<or> canonical \<in> seen_links
         then dedupe_loop seen seen_links cards
         else c # dedupe_loop seen (insert canonical seen_links) cards)"

definition dedupe_unique :: "string set \<Rightarrow> ListingCard list \<Rightarrow> ListingCard list" where
  \<comment> \<open>\<^verbatim>\<open>_dedupe_unique\<close>; \<open>seen\<close> is the enclosing \<^verbatim>\<open>already_seen\<close>.\<close>
  "dedupe_unique seen cards = dedupe_loop seen {} cards"

subsection \<open>Run parameters and run state\<close>

text \<open>
  The parameters of \<^verbatim>\<open>_run_with_fetcher\<close> and the module settings it reads. The two
  callbacks are modelled by whether they were supplied: \<^verbatim>\<open>on_record\<close> appends the record
  to the trace, \<^verbatim>\<open>on_restart_browser\<close> appends a restart (an exception of the restart is
  caught by the source). The fetch keyword arguments and the browser session are part of
  the environment.
\<close>

record run_config =
  base_url :: string
  max_pages :: int
  fetch_details :: bool
  already_seen :: "string set"
  on_record :: bool
  on_restart_browser :: bool
  page_delay_sec :: int
  environment :: fetch_env
  parse_search_page :: search_parser
  parse_detail_page :: detail_parser

record run_state =
  world :: world
  results :: "listing_record list"
  processed_links :: "string set"
  all_cards :: "ListingCard list"
  consecutive_blocked :: nat

definition emit :: "bool \<Rightarrow> listing_record \<Rightarrow> run_state \<Rightarrow> run_state" where
  \<comment> \<open>\<^verbatim>\<open>if on_record: on_record(d)\<close> and \<^verbatim>\<open>results.append(d)\<close>\<close>
  "emit callback r st =
     st\<lparr>world := (if callback then log_event (EvRecord r) (world st) else world st),
        results := results st @ [r]\<rparr>"

subsection \<open>Detail pages\<close>

fun process_cards ::
  "run_config \<Rightarrow> ListingCard list \<Rightarrow> run_state \<Rightarrow> (py_error \<times> world) + run_state" where
  "process_cards cfg [] st = Inr st"
| "process_cards cfg (crd # cards) st =
     (let canonical_link = normalize_listing_link (link crd) in
      if canonical_link \<in> processed_links st then process_cards cfg cards st
      else
        (let fetch_url = (if canonical_link \<noteq> [] then canonical_link else link crd) in
         case fetch_html_with_retry (environment cfg) fetch_url 3 default_backoff
                (log_event (EvRequest (DetailPage fetch_url)) (world st)) of
           Inl e \<Rightarrow> Inl e
         | Inr ((html, status), w1) \<Rightarrow>
             if status \<noteq> 200
             then process_cards cfg cards
                    (emit (on_record cfg) (card_record crd canonical_link)
                       (st\<lparr>world := w1,
                           processed_links := insert canonical_link (processed_links st)\<rparr>))
             else process_cards cfg cards
                    (emit (on_record cfg)
                       (merge_detail crd canonical_link (parse_detail_page cfg html fetch_url))
                       (st\<lparr>world := w1,
                           processed_links := insert canonical_link (processed_links st)\<rparr>))))"

definition process_new :: "run_config \<Rightarrow> run_state \<Rightarrow> (py_error \<times> world) + run_state" where
  \<comment> \<open>Lines 150 to 154 and 211 to 215: the cards of \<^verbatim>\<open>all_cards\<close> that are unique and not
      yet processed get their detail pages.\<close>
  "process_new cfg st =
     (let unique_so_far = dedupe_unique (already_seen cfg) (all_cards st);
          to_process = filter (\<lambda>c. normalize_listing_link (link c) \<notin> processed_links st) unique_so_far
      in process_cards cfg to_process st)"

fun emit_cards :: "bool \<Rightarrow> ListingCard list \<Rightarrow> run_state \<Rightarrow> run_state" where
  \<comment> \<open>Lines 141 to 145: card-only records.\<close>
  "emit_cards callback [] st = st"
| "emit_cards callback (c # cards) st =
     emit_cards callback cards (emit callback (card_record c (normalize_listing_link (link c))) st)"

subsection \<open>Search pages\<close>

datatype page_outcome = Failed | StillBlocked | NoCards | DuplicateOfPage1 | Processed

datatype control = Continue | Break

definition finish_page ::
  "run_config \<Rightarrow> string option \<Rightarrow> ListingCard list \<Rightarrow> run_state
     \<Rightarrow> (py_error \<times> world) + (page_outcome \<times> control \<times> run_state)" where
  \<comment> \<open>Lines 202 to 215, for a page that is not counted as blocked.\<close>
  "finish_page cfg first_page_first_link page_cards st =
     (if page_cards = [] then Inr (NoCards, Continue, st)
      else if (case first_page_first_link of
                 None \<Rightarrow> False
               | Some l \<Rightarrow> l \<noteq> [] \<and> link (hd page_cards) = l)
      then Inr (DuplicateOfPage1, Break, st\<lparr>consecutive_blocked := 0\<rparr>)
      else (case process_new cfg (st\<lparr>consecutive_blocked := 0,
                                     all_cards := all_cards st @ page_cards\<rparr>) of
              Inl e \<Rightarrow> Inl e
            | Inr st' \<Rightarrow> Inr (Processed, Continue, st')))"

definition page_fetch ::
  "run_config \<Rightarrow> int \<Rightarrow> world \<Rightarrow> (py_error \<times> world) + ((string \<times> int) \<times> world)" where
  \<comment> \<open>\<^verbatim>\<open>fetch_html_with_retry(url, **fetch_kwargs)\<close> for the URL of a search page.\<close>
  "page_fetch cfg page_num w =
     fetch_html_with_retry (environment cfg) (page_url (base_url cfg) page_num) 3 default_backoff
       (log_event (EvRequest (SearchPage page_num)) w)"

definition looks_blocked :: "run_config \<Rightarrow> string \<Rightarrow> bool" where
  \<comment> \<open>\<^verbatim>\<open>not page_cards and is_blocked_page(html)\<close>\<close>
  "looks_blocked cfg html =
     (snd (parse_search_page cfg html IDEALISTA_DOMAIN) = [] \<and> is_blocked_page html)"

definition before_retry :: "run_config \<Rightarrow> world \<Rightarrow> world" where
  \<comment> \<open>Lines 174 to 182: the browser restart, when one is available, and the wait of
      60 seconds before the page is fetched again.\<close>
  "before_retry cfg w =
     log_event (EvSleep 60) (if on_restart_browser cfg then log_event EvRestart w else w)"

definition page_delay :: "run_config \<Rightarrow> world \<Rightarrow> world" where
  \<comment> \<open>Lines 163 and 164.\<close>
  "page_delay cfg w =
     (if page_delay_sec cfg > 0 then log_event (EvSleep (page_delay_sec cfg)) w else w)"

definition page_body ::
  "run_config \<Rightarrow> string option \<Rightarrow> int \<Rightarrow> run_state
     \<Rightarrow> (py_error \<times> world) + (page_outcome \<times> control \<times> run_state)" where
  \<comment> \<open>One iteration of the loop over the pages, lines 163 to 215, for a page that is not
      skipped. The outcome names the branch taken; the control says whether the loop goes on.\<close>
  "page_body cfg first_page_first_link page_num st =
     (case page_fetch cfg page_num (page_delay cfg (world st)) of
        Inl e \<Rightarrow> Inl e
      | Inr ((html, status), w1) \<Rightarrow>
          if status \<noteq> 200
          then Inr (Failed, Continue, st\<lparr>world := w1, consecutive_blocked := 0\<rparr>)
          else if looks_blocked cfg html
          then
            (case page_fetch cfg page_num (before_retry cfg w1) of
               Inl e \<Rightarrow> Inl e
             | Inr ((html2, status2), w2) \<Rightarrow>
                 if status2 \<noteq> 200
                 then Inr (Failed, Continue, st\<lparr>world := w2, consecutive_blocked := 0\<rparr>)
                 else if looks_blocked cfg html2
                 then Inr (StillBlocked,
                           if Suc (consecutive_blocked st) \<ge> 2 then Break else Continue,
                           st\<lparr>world := w2, consecutive_blocked := Suc (consecutive_blocked st)\<rparr>)
                 else finish_page cfg first_page_first_link
                        (snd (parse_search_page cfg html2 IDEALISTA_DOMAIN)) (st\<lparr>world := w2\<rparr>))
          else finish_page cfg first_page_first_link
                 (snd (parse_search_page cfg html IDEALISTA_DOMAIN)) (st\<lparr>world := w1\<rparr>))"

fun page_loop ::
  "run_config \<Rightarrow> string option \<Rightarrow> int \<Rightarrow> int list \<Rightarrow> run_state
     \<Rightarrow> (py_error \<times> world) + run_state" where
  \<comment> \<open>\<^verbatim>\<open>for page_num in range(2, total_pages + 1)\<close> over the page numbers still to visit.\<close>
  "page_loop cfg first_page_first_link start_page [] st = Inr st"
| "page_loop cfg first_page_first_link start_page (page_num # rest) st =
     (if page_num < start_page then page_loop cfg first_page_first_link start_page rest st
      else (case page_body cfg first_page_first_link page_num st of
              Inl e \<Rightarrow> Inl e
            | Inr (outcome, Break, st') \<Rightarrow> Inr st'
            | Inr (outcome, Continue, st') \<Rightarrow>
                page_loop cfg first_page_first_link start_page rest st'))"

subsection \<open>The run\<close>

definition first_page_blocked :: "search_parser \<Rightarrow> string \<Rightarrow> int \<Rightarrow> bool" where
  \<comment> \<open>Lines 54 to 58.\<close>
  "first_page_blocked parse html status =
     (let long_ok = (status = 200 \<and> length html \<ge> 12000)
      in status \<noteq> 200
         \<or> (\<not> long_ok \<and> is_blocked_page html \<and> \<not> looks_like_listing_page parse html IDEALISTA_DOMAIN))"

definition initial_state :: "world \<Rightarrow> ListingCard list \<Rightarrow> run_state" where
  \<comment> \<open>The locals after page 1 is parsed: no results, nothing processed, page 1's cards.\<close>
  "initial_state w1 page_cards =
     \<lparr>world = w1, results = [], processed_links = {}, all_cards = page_cards,
      consecutive_blocked = 0\<rparr>"

definition first_page_fetch ::
  "run_config \<Rightarrow> world \<Rightarrow> (py_error \<times> world) + ((string \<times> int) \<times> world)" where
  \<comment> \<open>Line 53.\<close>
  "first_page_fetch cfg w =
     fetch_html_with_retry (environment cfg) (base_url cfg @ ''/'') 3 default_backoff
       (log_event (EvRequest FirstPage) w)"

definition run_with_fetcher :: "run_config \<Rightarrow> world \<Rightarrow> (py_error \<times> world) + run_state" where
  "run_with_fetcher cfg w =
     (case first_page_fetch cfg w of
        Inl e \<Rightarrow> Inl e
      | Inr ((html, status), w1) \<Rightarrow>
          if first_page_blocked (parse_search_page cfg) html status
          then Inl (RuntimeError status, w1)
          else
            (case parse_search_page cfg html IDEALISTA_DOMAIN of (total_count, page_cards) \<Rightarrow>
               (let total_pages = compute_total_pages total_count (max_pages cfg);
                    first_page_first_link = (case page_cards of [] \<Rightarrow> None | c # cs \<Rightarrow> Some (link c));
                    start_page = resume_start_page (already_seen cfg) total_pages;
                    st0 = initial_state w1 page_cards
                in if \<not> fetch_details cfg
                   then Inr (emit_cards (on_record cfg)
                               (dedupe_unique (already_seen cfg) (all_cards st0)) st0)
                   else (case (if start_page \<le> 1 then process_new cfg st0 else Inr st0) of
                           Inl e \<Rightarrow> Inl e
                         | Inr st1 \<Rightarrow>
                             page_loop cfg first_page_first_link start_page [2..total_pages] st1))))"

text \<open>What a trace shows.\<close>

definition records_of :: "event list \<Rightarrow> listing_record list" where
  "records_of evs = concat (map (\<lambda>e. case e of EvRecord r \<Rightarrow> [r] | _ \<Rightarrow> []) evs)"

definition requests_of :: "event list \<Rightarrow> target list" where
  "requests_of evs = concat (map (\<lambda>e. case e of EvRequest t \<Rightarrow> [t] | _ \<Rightarrow> []) evs)"

definition pages_requested :: "event list \<Rightarrow> int list" where
  \<comment> \<open>The search pages past page 1 that the orchestrator set out to fetch, in order.\<close>
  "pages_requested evs =
     concat (map (\<lambda>t. case t of SearchPage p \<Rightarrow> [p] | _ \<Rightarrow> []) (requests_of evs))"

definition run_requests :: "run_config \<Rightarrow> target list" where
  \<comment> \<open>What a run from the empty trace set out to fetch, in order, whether it ended in an
      error or not.\<close>
  "run_requests cfg =
     (case run_with_fetcher cfg world0 of
        Inl (e, w) \<Rightarrow> requests_of (trace w)
      | Inr st \<Rightarrow> requests_of (trace (world st)))"

definition run_links :: "run_config \<Rightarrow> string list" where
  \<comment> \<open>The links of the records a run from the empty trace returns.\<close>
  "run_links cfg =
     (case run_with_fetcher cfg world0 of
        Inl (e, w) \<Rightarrow> []
      | Inr st \<Rightarrow> map (\<lambda>r. link (rec_card r)) (results st))"

section \<open>A small site for concrete runs\<close>

text \<open>
  Concrete parsers, environments and run parameters on which the theorems below are
  instantiated. The search parser knows two result pages by their markup; the first page
  reports 1234 listings, so there are 42 pages of 30 before the caps.
\<close>

definition demo_card :: "string \<Rightarrow> string \<Rightarrow> ListingCard" where
  "demo_card t l =
     \<lparr>listing_type = ''venta'', title = t, link = l, price = None, currency = ''EUR'',
      rooms = None, sq_meters = None, location = '''', description = '''', tags = [],
      seller = None, seller_url = None\<rparr>"

definition demo_parse :: search_parser where
  "demo_parse = (\<lambda>html base.
     if html = ''<html>page 1</html>''
     then (1234, [demo_card ''Piso A'' ''https://www.idealista.com/inmueble/101/'',
                demo_card ''Piso B'' ''https://www.idealista.com/en/inmueble/102/''])
     else if html = ''<html>page 2</html>''
     then (1234, [demo_card ''Piso C'' ''https://www.idealista.com/inmueble/103/'',
                demo_card ''Piso A'' ''https://www.idealista.com/ca/inmueble/101/''])
     else (0, []))"

definition demo_parse_detail :: detail_parser where
  "demo_parse_detail = (\<lambda>html url.
     \<lparr>detail_url = url, detail_title = '''', detail_location = ''Sevilla'', detail_price = None,
      detail_currency = ''EUR'', detail_description = '''', detail_updated = '''',
      detail_features = [(''rooms'', [''3''])], detail_images = []\<rparr>)"

definition demo_site :: fetch_env where
  \<comment> \<open>Two result pages; every other URL is a detail page.\<close>
  "demo_site = (\<lambda>n url.
     if url = ''https://www.idealista.com/venta/'' then FetchReturned ''<html>page 1</html>'' 200
     else if url = ''https://www.idealista.com/venta/pagina-2.htm''
     then FetchReturned ''<html>page 2</html>'' 200
     else if url = ''https://www.idealista.com/venta/pagina-3.htm''
     then FetchReturned ''<html>nothing here</html>'' 200
     else FetchReturned ''<html>detail</html>'' 200)"

definition blocking_site :: fetch_env where
  \<comment> \<open>Page 1 is served; pages 2, 4 and 5 show a captcha; page 3 cannot be reached.\<close>
  "blocking_site = (\<lambda>n url.
     if url = ''https://www.idealista.com/venta/'' then FetchReturned ''<html>page 1</html>'' 200
     else if url = ''https://www.idealista.com/venta/pagina-3.htm'' then FetchRaised
     else FetchReturned ''<html>captcha</html>'' 200)"

definition captcha_site :: fetch_env where
  \<comment> \<open>Page 1 is served; every later page shows a captcha.\<close>
  "captcha_site = (\<lambda>n url.
     if url = ''https://www.idealista.com/venta/'' then FetchReturned ''<html>page 1</html>'' 200
     else FetchReturned ''<html>captcha</html>'' 200)"

definition card_only_cfg :: run_config where
  "card_only_cfg =
     \<lparr>base_url = ''https://www.idealista.com/venta'', max_pages = 2, fetch_details = False,
      already_seen = {}, on_record = True, on_restart_browser = False, page_delay_sec = 0,
      environment = demo_site, parse_search_page = demo_parse,
      parse_detail_page = demo_parse_detail\<rparr>"

definition details_cfg :: run_config where
  "details_cfg = card_only_cfg\<lparr>fetch_details := True\<rparr>"

definition resume_seen :: "string set" where
  \<comment> \<open>Thirty links of an earlier run, the listing 101 among them.\<close>
  "resume_seen = set (map (\<lambda>n. ''https://www.idealista.com/inmueble/'' @ str_of_nat n @ ''/'') [72..<102])"

definition resume_cfg :: run_config where
  "resume_cfg = details_cfg\<lparr>already_seen := resume_seen\<rparr>"

definition blocking_cfg :: run_config where
  "blocking_cfg = details_cfg\<lparr>max_pages := 6, environment := blocking_site\<rparr>"

definition captcha_cfg :: run_config where
  "captcha_cfg = details_cfg\<lparr>max_pages := 6, environment := captcha_site\<rparr>"


definition idle_state :: run_state where
  \<comment> \<open>A run state with nothing fetched and no card yet.\<close>
  "idle_state = initial_state world0 []"



definition seen_238 :: "string set" where
  \<comment> \<open>238 links of an earlier run.\<close>
  "seen_238 = (\<lambda>n. ''https://www.idealista.com/inmueble/'' @ replicate (Suc n) CHR ''7'' @ ''/'') ` {..<238}"

section \<open>Facts about strings and the link pattern\<close>

lemma py_strip_sublist: "sublist (py_strip x) x"
proof -
  have "sublist (dropWhile py_isspace (rev (dropWhile py_isspace x))) (rev (dropWhile py_isspace x))"
    by (rule sublist_dropWhile)
  moreover have "sublist (rev (dropWhile py_isspace x)) (rev x)"
    by (simp add: sublist_dropWhile)
  ultimately have "sublist (dropWhile py_isspace (rev (dropWhile py_isspace x))) (rev x)"
    by (rule sublist_order.order_trans)
  then show ?thesis
    by (simp add: py_strip_def sublist_rev_left)
qed


lemma dropWhile_rstrip:
  "dropWhile P (rev (dropWhile P (rev (dropWhile P x)))) = rev (dropWhile P (rev (dropWhile P x)))"
  by (metis (no_types, lifting) Nil_is_rev_conv dropWhile_eq_Nil_conv
    dropWhile_eq_self_iff dropWhile_last hd_dropWhile hd_rev last_rev)

lemma py_strip_idem: "py_strip (py_strip x) = py_strip x"
  by (simp add: py_strip_def dropWhile_rstrip dropWhile_idem)


lemma str_in_strip: "str_in s (py_strip x) \<Longrightarrow> str_in s x"
  unfolding str_in_def using py_strip_sublist sublist_order.order_trans by blast

lemma py_lower_sublist: "sublist a b \<Longrightarrow> sublist (py_lower a) (py_lower b)"
  unfolding sublist_def py_lower_def by (metis map_append)

lemma inmueble_match_at_digits:
  "inmueble_match_at l = Some d \<Longrightarrow> d \<noteq> [] \<and> (\<forall>c\<in>set d. is_digit c)"
  unfolding inmueble_match_at_def
  by (metis option.distinct(1) option.inject set_takeWhileD)

lemma re_search_digits:
  "re_search_inmueble x = Some d \<Longrightarrow> d \<noteq> [] \<and> (\<forall>c\<in>set d. is_digit c)"
proof (induction x)
  case Nil
  then show ?case by simp
next
  case (Cons a x)
  then show ?case
    by (cases "inmueble_match_at (a # x)") (auto dest: inmueble_match_at_digits)
qed

lemma takeWhile_nonempty_iff: "(takeWhile P l \<noteq> []) = (\<exists>c r. l = c # r \<and> P c)"
  by (cases l) auto

lemma prefix_snoc_iff:
  "prefix (p @ [c]) l = (prefix p l \<and> (\<exists>r. drop (length p) l = c # r))"
proof
  assume "prefix (p @ [c]) l"
  then obtain r where "l = (p @ [c]) @ r" by (auto simp: prefix_def)
  then show "prefix p l \<and> (\<exists>r. drop (length p) l = c # r)" by auto
next
  assume "prefix p l \<and> (\<exists>r. drop (length p) l = c # r)"
  then obtain q r where "l = p @ q" "drop (length p) l = c # r" by (auto simp: prefix_def)
  then have "l = (p @ [c]) @ r" by simp
  then show "prefix (p @ [c]) l" unfolding prefix_def by blast
qed

lemma inmueble_match_at_iff:
  "(inmueble_match_at l \<noteq> None) = (\<exists>c. is_digit c \<and> prefix (''/inmueble/'' @ [c]) l)"
proof -
  have len: "length ''/inmueble/'' = 10" by simp
  note p = prefix_snoc_iff[of "''/inmueble/''" _ l, unfolded len]
  have "(prefix ''/inmueble/'' l \<and> takeWhile is_digit (drop 10 l) \<noteq> [])
   = (\<exists>c. is_digit c \<and> prefix (''/inmueble/'' @ [c]) l)"
    unfolding takeWhile_nonempty_iff p by blast
  then show ?thesis
    unfolding inmueble_match_at_def by (simp only: if_distrib[of "\<lambda>x. x \<noteq> None"] option.distinct not_False_eq_True not_not if_bool_eq_conj) blast
qed

lemma sublist_snoc_shift:
  assumes "\<not> (\<exists>c. P c \<and> prefix (p @ [c]) (a # x))"
  shows "(\<exists>c. P c \<and> sublist (p @ [c]) (a # x)) = (\<exists>c. P c \<and> sublist (p @ [c]) x)"
  using assms by (auto simp: sublist_Cons_right)

lemma sublist_snoc_here:
  assumes "\<exists>c. P c \<and> prefix (p @ [c]) (a # x)"
  shows "\<exists>c. P c \<and> sublist (p @ [c]) (a # x)"
  using assms by (auto simp: sublist_Cons_right)

lemma re_search_Some_iff:
  "(re_search_inmueble x \<noteq> None) = (\<exists>c. is_digit c \<and> sublist (''/inmueble/'' @ [c]) x)"
proof (induction x)
  case Nil
  show ?case by (simp only: re_search_inmueble.simps sublist_Nil_right) blast
next
  case (Cons a x)
  show ?case
  proof (cases "inmueble_match_at (a # x)")
    case (Some d)
    then have "inmueble_match_at (a # x) \<noteq> None" by (simp only: option.distinct not_False_eq_True)
    then have "\<exists>c. is_digit c \<and> prefix (''/inmueble/'' @ [c]) (a # x)"
      unfolding inmueble_match_at_iff .
    then have "\<exists>c. is_digit c \<and> sublist (''/inmueble/'' @ [c]) (a # x)"
      by (rule sublist_snoc_here)
    moreover have "re_search_inmueble (a # x) \<noteq> None"
      by (simp only: re_search_inmueble.simps Some option.case option.distinct not_False_eq_True)
    ultimately show ?thesis by blast
  next
    case None
    then have no: "\<not> (\<exists>c. is_digit c \<and> prefix (''/inmueble/'' @ [c]) (a # x))"
      unfolding inmueble_match_at_iff[symmetric] by blast
    have "re_search_inmueble (a # x) = re_search_inmueble x"
      by (simp only: re_search_inmueble.simps None option.case)
    moreover have "(\<exists>c. is_digit c \<and> sublist (''/inmueble/'' @ [c]) (a # x))
        = (\<exists>c. is_digit c \<and> sublist (''/inmueble/'' @ [c]) x)"
      using no by (rule sublist_snoc_shift)
    ultimately show ?thesis using Cons.IH by (simp only:)
  qed
qed

lemma re_search_sublist_None:
  assumes "sublist y x" "re_search_inmueble x = None"
  shows "re_search_inmueble y = None"
proof (rule ccontr)
  assume "re_search_inmueble y \<noteq> None"
  then obtain c where "is_digit c" "sublist (''/inmueble/'' @ [c]) y"
    using re_search_Some_iff[of y] by blast
  then have "is_digit c \<and> sublist (''/inmueble/'' @ [c]) x"
    using assms(1) sublist_order.order_trans by blast
  then have "re_search_inmueble x \<noteq> None"
    using re_search_Some_iff[of x] by blast
  then show False using assms(2) by simp
qed

lemma match_at_not_slash: "a \<noteq> CHR ''/'' \<Longrightarrow> inmueble_match_at (a # l) = None"
  by (simp add: inmueble_match_at_def)

lemma match_at_second: "b \<noteq> CHR ''i'' \<Longrightarrow> inmueble_match_at (a # b # l) = None"
  by (simp add: inmueble_match_at_def)

lemma re_search_skip: "CHR ''/'' \<notin> set p \<Longrightarrow> re_search_inmueble (p @ s) = re_search_inmueble s"
proof (induction p)
  case Nil
  show ?case by simp
next
  case (Cons a p)
  then have "a \<noteq> CHR ''/''" by auto
  then have "inmueble_match_at (a # p @ s) = None" by (rule match_at_not_slash)
  then show ?case using Cons by simp
qed

lemma takeWhile_digits_stop:
  assumes "\<forall>c\<in>set d. P c" "r = [] \<or> \<not> P (hd r)"
  shows "takeWhile P (d @ r) = d"
  using assms by (cases r) (simp_all add: takeWhile_append2)

lemma match_at_here:
  assumes "d \<noteq> []" "\<forall>c\<in>set d. is_digit c" "r = [] \<or> \<not> is_digit (hd r)"
  shows "inmueble_match_at (''/inmueble/'' @ d @ r) = Some d"
proof -
  have "drop 10 (''/inmueble/'' @ d @ r) = d @ r" by simp
  moreover have "prefix ''/inmueble/'' (''/inmueble/'' @ d @ r)" by (rule prefixI) simp
  ultimately show ?thesis
    unfolding inmueble_match_at_def using takeWhile_digits_stop[OF assms(2,3)] assms(1)
    by (simp only: if_True simp_thms)
qed

lemma re_search_here:
  assumes "d \<noteq> []" "\<forall>c\<in>set d. is_digit c" "r = [] \<or> \<not> is_digit (hd r)"
  shows "re_search_inmueble (''/inmueble/'' @ d @ r) = Some d"
proof -
  have "re_search_inmueble (CHR ''/'' # (''inmueble/'' @ d @ r)) =
      (case inmueble_match_at (CHR ''/'' # (''inmueble/'' @ d @ r)) of Some i \<Rightarrow> Some i
        | None \<Rightarrow> re_search_inmueble (''inmueble/'' @ d @ r))"
    by (simp only: re_search_inmueble.simps)
  moreover have "CHR ''/'' # (''inmueble/'' @ d @ r) = ''/inmueble/'' @ d @ r" by simp
  ultimately show ?thesis
    using match_at_here[OF assms] by (simp only: option.case)
qed


lemma re_search_host:
  "re_search_inmueble (''https://www.idealista.com'' @ s) = re_search_inmueble s"
  by (simp add: match_at_not_slash match_at_second)

lemma re_search_canonical:
  assumes "d \<noteq> []" "\<forall>c\<in>set d. is_digit c"
  shows "re_search_inmueble (CANONICAL_LISTING_URL @ d @ ''/'') = Some d"
proof -
  have "\<not> is_digit (hd ''/'')" by (simp add: is_digit_def)
  then have "re_search_inmueble (''/inmueble/'' @ d @ ''/'') = Some d"
    using re_search_here[OF assms, of "''/''"] by blast
  moreover have "CANONICAL_LISTING_URL @ d @ ''/'' = ''https://www.idealista.com'' @ (''/inmueble/'' @ d @ ''/'')"
    by (simp add: CANONICAL_LISTING_URL_def)
  ultimately show ?thesis by (simp only: re_search_host)
qed

lemma first_sep:
  "x \<notin> set u \<Longrightarrow> x \<notin> set loc \<Longrightarrow> prefix (u @ x # v) (loc @ x # t) \<Longrightarrow> u = loc \<and> prefix v t"
proof (induction u arbitrary: loc)
  case Nil
  then show ?case by (cases loc) auto
next
  case (Cons a u)
  then show ?case by (cases loc) auto
qed

lemma match_at_locale:
  assumes "CHR ''/'' \<notin> set loc"
  shows "inmueble_match_at (CHR ''/'' # loc @ ''/inmueble/'' @ t) = None"
proof (rule ccontr)
  assume "inmueble_match_at (CHR ''/'' # loc @ ''/inmueble/'' @ t) \<noteq> None"
  then obtain c where c: "is_digit c"
      "prefix (''/inmueble/'' @ [c]) (CHR ''/'' # loc @ ''/inmueble/'' @ t)"
    unfolding inmueble_match_at_iff by blast
  from c(2) have p: "prefix (''inmueble'' @ CHR ''/'' # [c]) (loc @ CHR ''/'' # (''inmueble/'' @ t))"
    by simp
  have n: "CHR ''/'' \<notin> set ''inmueble''" by simp
  have "prefix [c] (''inmueble/'' @ t)"
    using first_sep[OF n assms p] by (rule conjunct2)
  then have "c = CHR ''i''" by simp
  then show False using c(1) by (simp add: is_digit_def)
qed

lemma re_search_locale:
  assumes "CHR ''/'' \<notin> set loc" "d \<noteq> []" "\<forall>c\<in>set d. is_digit c"
  shows "re_search_inmueble (''https://www.idealista.com/'' @ loc @ ''/inmueble/'' @ d @ ''/'') = Some d"
proof -
  have "\<not> is_digit (hd ''/'')" by (simp add: is_digit_def)
  then have here: "re_search_inmueble (''/inmueble/'' @ d @ ''/'') = Some d"
    using re_search_here[OF assms(2,3), of "''/''"] by blast
  have "''https://www.idealista.com/'' @ loc @ ''/inmueble/'' @ d @ ''/''
      = ''https://www.idealista.com'' @ (CHR ''/'' # loc @ ''/inmueble/'' @ (d @ ''/''))"
    by simp
  then have "re_search_inmueble (''https://www.idealista.com/'' @ loc @ ''/inmueble/'' @ d @ ''/'')
      = re_search_inmueble (CHR ''/'' # loc @ ''/inmueble/'' @ (d @ ''/''))"
    by (simp only: re_search_host)
  also have "\<dots> = re_search_inmueble (loc @ ''/inmueble/'' @ (d @ ''/''))"
    by (simp only: re_search_inmueble.simps match_at_locale[OF assms(1)] option.case)
  also have "\<dots> = re_search_inmueble (''/inmueble/'' @ d @ ''/'')"
    by (simp only: re_search_skip[OF assms(1)])
  finally show ?thesis using here by (simp only:)
qed

section \<open>Canonicalization is idempotent\<close>

lemma str_in_appendI1: "str_in s a \<Longrightarrow> str_in s (a @ b)"
  unfolding str_in_def by (metis sublist_order.order_trans sublist_append_rightI)

lemma str_in_appendI2: "str_in s b \<Longrightarrow> str_in s (a @ b)"
  unfolding str_in_def by (metis sublist_order.order_trans sublist_append_leftI)

lemma py_lower_append: "py_lower (a @ b) = py_lower a @ py_lower b"
  by (simp add: py_lower_def)

lemma host_has_idealista: "str_in ''idealista'' (py_lower (''https://www.idealista.com'' @ s))"
proof -
  have "str_in ''idealista'' (py_lower ''https://www.idealista.com'')"
    by (simp add: str_in_def py_lower_def py_lower_char_def sublist_Cons_right)
  then show ?thesis
    unfolding py_lower_append by (rule str_in_appendI1)
qed

lemma str_in_self_append: "str_in p (a @ p @ b)"
  unfolding str_in_def by (rule sublist_appendI)

lemma normalize_found:
  assumes "str_in ''idealista'' (py_lower url)" "str_in ''/inmueble/'' url"
    "re_search_inmueble url = Some d"
  shows "normalize_listing_link url = CANONICAL_LISTING_URL @ d @ ''/''"
proof -
  have "url \<noteq> []" using assms(3) by (cases url) simp_all
  then show ?thesis
    unfolding normalize_listing_link_def using assms by (simp only: simp_thms if_False option.case)
qed

lemma normalize_canonical:
  assumes "d \<noteq> []" "\<forall>c\<in>set d. is_digit c"
  shows "normalize_listing_link (CANONICAL_LISTING_URL @ d @ ''/'') = CANONICAL_LISTING_URL @ d @ ''/''"
proof (rule normalize_found)
  have e: "CANONICAL_LISTING_URL @ d @ ''/'' = ''https://www.idealista.com'' @ (''/inmueble/'' @ d @ ''/'')"
    by (simp add: CANONICAL_LISTING_URL_def)
  show "str_in ''idealista'' (py_lower (CANONICAL_LISTING_URL @ d @ ''/''))"
    unfolding e by (rule host_has_idealista)
  have "str_in ''/inmueble/'' (''https://www.idealista.com'' @ ''/inmueble/'' @ (d @ ''/''))"
    by (rule str_in_self_append)
  then show "str_in ''/inmueble/'' (CANONICAL_LISTING_URL @ d @ ''/'')"
    unfolding e by simp
  show "re_search_inmueble (CANONICAL_LISTING_URL @ d @ ''/'') = Some d"
    using assms by (rule re_search_canonical)
qed

lemma normalize_locale:
  assumes "CHR ''/'' \<notin> set loc" "d \<noteq> []" "\<forall>c\<in>set d. is_digit c"
  shows "normalize_listing_link (''https://www.idealista.com/'' @ loc @ ''/inmueble/'' @ d @ ''/'')
     = CANONICAL_LISTING_URL @ d @ ''/''"
proof (rule normalize_found)
  have e: "''https://www.idealista.com/'' @ loc @ ''/inmueble/'' @ d @ ''/''
     = ''https://www.idealista.com'' @ (CHR ''/'' # loc @ ''/inmueble/'' @ d @ ''/'')"
    by simp
  show "str_in ''idealista'' (py_lower (''https://www.idealista.com/'' @ loc @ ''/inmueble/'' @ d @ ''/''))"
    unfolding e by (rule host_has_idealista)
  have "str_in ''/inmueble/'' ((''https://www.idealista.com/'' @ loc) @ ''/inmueble/'' @ (d @ ''/''))"
    by (rule str_in_self_append)
  then show "str_in ''/inmueble/'' (''https://www.idealista.com/'' @ loc @ ''/inmueble/'' @ d @ ''/'')"
    by simp
  show "re_search_inmueble (''https://www.idealista.com/'' @ loc @ ''/inmueble/'' @ d @ ''/'') = Some d"
    using assms by (rule re_search_locale)
qed

lemma normalize_stripped:
  assumes "normalize_listing_link x = py_strip x"
    "x = [] \<or> \<not> str_in ''idealista'' (py_lower x) \<or> \<not> str_in ''/inmueble/'' x
      \<or> re_search_inmueble x = None"
  shows "normalize_listing_link (py_strip x) = py_strip x"
proof -
  let ?y = "py_strip x"
  have sub: "sublist ?y x" by (rule py_strip_sublist)
  have g: "?y = [] \<or> \<not> str_in ''idealista'' (py_lower ?y) \<or> \<not> str_in ''/inmueble/'' ?y
      \<or> re_search_inmueble ?y = None"
  proof -
    consider "x = []" | "\<not> str_in ''idealista'' (py_lower x)" | "\<not> str_in ''/inmueble/'' x"
      | "re_search_inmueble x = None" using assms(2) by argo
    then show ?thesis
    proof cases
      case 1
      then show ?thesis by (simp add: py_strip_def)
    next
      case 2
      have "sublist (py_lower ?y) (py_lower x)" using sub by (rule py_lower_sublist)
      then have "\<not> str_in ''idealista'' (py_lower ?y)"
        using 2 unfolding str_in_def using sublist_order.order_trans by metis
      then show ?thesis by argo
    next
      case 3
      then have "\<not> str_in ''/inmueble/'' ?y" using str_in_strip by metis
      then show ?thesis by argo
    next
      case 4
      then have "re_search_inmueble ?y = None" using sub re_search_sublist_None by metis
      then show ?thesis by argo
    qed
  qed
  have "normalize_listing_link ?y = py_strip ?y"
  proof (cases "?y = [] \<or> \<not> str_in ''idealista'' (py_lower ?y) \<or> \<not> str_in ''/inmueble/'' ?y")
    case True
    then show ?thesis unfolding normalize_listing_link_def by (simp only: if_True)
  next
    case False
    then have "re_search_inmueble ?y = None" using g by metis
    then show ?thesis unfolding normalize_listing_link_def using False
      by (simp only: if_False option.case)
  qed
  then show ?thesis by (simp only: py_strip_idem)
qed

lemma normalize_idempotent:
  "normalize_listing_link (normalize_listing_link x) = normalize_listing_link x"
proof (cases "x = [] \<or> \<not> str_in ''idealista'' (py_lower x) \<or> \<not> str_in ''/inmueble/'' x")
  case True
  then have "normalize_listing_link x = py_strip x"
    unfolding normalize_listing_link_def by (simp only: if_True)
  then show ?thesis using normalize_stripped[of x] True by metis
next
  case False
  show ?thesis
  proof (cases "re_search_inmueble x")
    case None
    then have "normalize_listing_link x = py_strip x"
      unfolding normalize_listing_link_def using False by (simp only: if_False option.case)
    then show ?thesis using normalize_stripped[of x] None by metis
  next
    case (Some d)
    then have "normalize_listing_link x = CANONICAL_LISTING_URL @ d @ ''/''"
      unfolding normalize_listing_link_def using False by (simp only: if_False option.case)
    moreover have "d \<noteq> [] \<and> (\<forall>c\<in>set d. is_digit c)"
      using Some by (rule re_search_digits)
    ultimately show ?thesis using normalize_canonical by metis
  qed
qed

text \<open>
  Claim C2, as amended. Canonicalization is idempotent on every string. It is invariant
  under a locale segment for links on the site's own domain: an absolute link with or
  without a path segment \<open>loc\<close> before \<^verbatim>\<open>/inmueble/\<close> normalizes to the canonical URL of
  its listing id. A link that does not mention the site (a relative path) is only stripped.
\<close>

theorem normalize_listing_link_idempotent_on_domain:
  "normalize_listing_link (normalize_listing_link x) = normalize_listing_link x \<and>
   (ident \<noteq> [] \<and> (\<forall>c\<in>set ident. is_digit c) \<and> CHR ''/'' \<notin> set loc \<longrightarrow>
      normalize_listing_link (''https://www.idealista.com/inmueble/'' @ ident @ ''/'')
        = ''https://www.idealista.com/inmueble/'' @ ident @ ''/'' \<and>
      normalize_listing_link (''https://www.idealista.com/'' @ loc @ ''/inmueble/'' @ ident @ ''/'')
        = ''https://www.idealista.com/inmueble/'' @ ident @ ''/'')"
proof (intro conjI impI)
  show "normalize_listing_link (normalize_listing_link x) = normalize_listing_link x"
    by (rule normalize_idempotent)
next
  assume a: "ident \<noteq> [] \<and> (\<forall>c\<in>set ident. is_digit c) \<and> CHR ''/'' \<notin> set loc"
  then show "normalize_listing_link (''https://www.idealista.com/inmueble/'' @ ident @ ''/'')
        = ''https://www.idealista.com/inmueble/'' @ ident @ ''/''"
    using normalize_canonical[of ident] unfolding CANONICAL_LISTING_URL_def by metis
next
  assume a: "ident \<noteq> [] \<and> (\<forall>c\<in>set ident. is_digit c) \<and> CHR ''/'' \<notin> set loc"
  then show "normalize_listing_link (''https://www.idealista.com/'' @ loc @ ''/inmueble/'' @ ident @ ''/'')
        = ''https://www.idealista.com/inmueble/'' @ ident @ ''/''"
    using normalize_locale[of loc ident] unfolding CANONICAL_LISTING_URL_def by metis
qed

theorem normalize_listing_link_idempotent_witness:
  "normalize_listing_link (normalize_listing_link '' /ca/inmueble/123/ '')
     = normalize_listing_link '' /ca/inmueble/123/ '' \<and>
   normalize_listing_link ''https://www.idealista.com/inmueble/123/''
     = ''https://www.idealista.com/inmueble/123/'' \<and>
   normalize_listing_link ''https://www.idealista.com/en/inmueble/123/''
     = ''https://www.idealista.com/inmueble/123/''"
proof -
  have h: "''123'' \<noteq> [] \<and> (\<forall>c\<in>set ''123''. is_digit c) \<and> CHR ''/'' \<notin> set ''en''"
    by (simp add: is_digit_def)
  show ?thesis
    using normalize_listing_link_idempotent_on_domain[of "'' /ca/inmueble/123/ ''" "''123''" "''en''"] h
    by simp
qed

theorem normalize_listing_link_relative_counterexample:
  "normalize_listing_link ''/inmueble/123/'' = ''/inmueble/123/'' \<and>
   normalize_listing_link ''/en/inmueble/123/'' = ''/en/inmueble/123/'' \<and>
   normalize_listing_link ''/inmueble/123/'' \<noteq> normalize_listing_link ''/en/inmueble/123/''"
  by (simp add: normalize_listing_link_def str_in_def py_lower_def py_lower_char_def
      sublist_Cons_right py_strip_def py_isspace_def)

section \<open>Total page count\<close>




section \<open>Block classification\<close>

lemma sublist_replicate_skip:
  assumes "s \<noteq> []" "hd s \<noteq> c"
  shows "sublist s (replicate n c @ t) = sublist s t"
proof (induction n)
  case 0
  show ?case by simp
next
  case (Suc n)
  have "\<not> prefix s (c # replicate n c @ t)"
    using assms by (cases s) auto
  then show ?case using Suc by (simp add: sublist_Cons_right)
qed

lemma py_lower_replicate: "py_lower (replicate n c @ t) = replicate n (py_lower_char c) @ py_lower t"
  by (simp add: py_lower_def)

lemma is_blocked_page_iff:
  "is_blocked_page html =
     (length html < 500 \<or> (\<exists>ind\<in>set block_indicators. str_in (py_lower ind) (py_lower html)))"
  unfolding is_blocked_page_def list_ex_iff by auto

lemma looks_like_total:
  "0 < fst (parse html base) \<Longrightarrow> looks_like_listing_page parse html base"
  unfolding looks_like_listing_page_def by (cases "parse html base") simp

lemma looks_like_cards:
  "snd (parse html base) \<noteq> [] \<Longrightarrow> looks_like_listing_page parse html base"
  unfolding looks_like_listing_page_def by (cases "parse html base") simp

lemma challenge_page_long: "length listing_page_with_challenge = 1108"
  by (simp add: listing_page_with_challenge_def)

lemma challenge_page_has_word: "str_in ''challenge'' listing_page_with_challenge"
proof -
  have "str_in ''challenge'' (''<p>A '' @ ''challenge'' @ '' for every buyer</p>'')"
    by (rule str_in_self_append)
  then have "str_in ''challenge'' ''<p>A challenge for every buyer</p>''" by simp
  then show ?thesis
    unfolding listing_page_with_challenge_def
    by (intro str_in_appendI2)
qed

lemma challenge_page_no_indicator:
  "\<not> list_ex (\<lambda>ind. str_in (py_lower ind) (py_lower listing_page_with_challenge)) block_indicators"
proof -
  have low: "py_lower listing_page_with_challenge = replicate 1000 CHR ''x'' @
     py_lower (''<h1 id=h1-container>Venta de viviendas: 500</h1><section class=items-list>'' @
     ''<p>A challenge for every buyer</p>'')"
    unfolding listing_page_with_challenge_def py_lower_replicate
    by (simp add: py_lower_char_def)
  show ?thesis
    unfolding low block_indicators_def
    by (simp add: sublist_replicate_skip str_in_def py_lower_def py_lower_char_def sublist_Cons_right)
qed

lemma challenge_page_not_blocked: "\<not> is_blocked_page listing_page_with_challenge"
  unfolding is_blocked_page_def using challenge_page_no_indicator challenge_page_long
  by auto

text \<open>
  Claim C7. Markup shorter than 500 characters is blocked, and so is markup whose lower-cased
  text contains one of the block phrases; nothing else is. Where the parser finds a total
  count above zero, the listing-page heuristic overrides the detector. A long listing page
  that has the word challenge in its prose is not blocked by the detector itself.
\<close>

theorem is_blocked_page_classification:
  "(length html < 500 \<longrightarrow> is_blocked_page html) \<and>
   (ind \<in> set block_indicators \<and> str_in (py_lower ind) (py_lower html) \<longrightarrow> is_blocked_page html) \<and>
   (is_blocked_page html \<longrightarrow>
      length html < 500 \<or> (\<exists>i\<in>set block_indicators. str_in (py_lower i) (py_lower html))) \<and>
   ''enable JavaScript'' \<in> set block_indicators \<and> ''captcha'' \<in> set block_indicators \<and>
   ''datadome'' \<in> set block_indicators \<and>
   (0 < fst (parse html IDEALISTA_DOMAIN) \<longrightarrow> \<not> detector_with_override parse html) \<and>
   str_in ''challenge'' listing_page_with_challenge \<and>
   \<not> is_blocked_page listing_page_with_challenge"
proof (intro conjI impI)
  show "''enable JavaScript'' \<in> set block_indicators" by (simp add: block_indicators_def)
  show "''captcha'' \<in> set block_indicators" by (simp add: block_indicators_def)
  show "''datadome'' \<in> set block_indicators" by (simp add: block_indicators_def)
  show "str_in ''challenge'' listing_page_with_challenge" by (rule challenge_page_has_word)
  show "\<not> is_blocked_page listing_page_with_challenge" by (rule challenge_page_not_blocked)
next
  assume "length html < 500"
  then show "is_blocked_page html" unfolding is_blocked_page_iff by (rule disjI1)
next
  assume "ind \<in> set block_indicators \<and> str_in (py_lower ind) (py_lower html)"
  then show "is_blocked_page html" unfolding is_blocked_page_iff by (intro disjI2 bexI[of _ ind]) auto
next
  assume "is_blocked_page html"
  then show "length html < 500 \<or> (\<exists>i\<in>set block_indicators. str_in (py_lower i) (py_lower html))"
    unfolding is_blocked_page_iff .
next
  assume "0 < fst (parse html IDEALISTA_DOMAIN)"
  then have "looks_like_listing_page parse html IDEALISTA_DOMAIN" by (rule looks_like_total)
  then show "\<not> detector_with_override parse html"
    unfolding detector_with_override_def by (rule_tac notI) (erule conjE, erule notE)
qed

theorem is_blocked_page_classification_witness:
  "is_blocked_page ''<html>short</html>'' \<and>
   is_blocked_page (replicate 600 CHR ''x'' @ ''Please enable JavaScript to continue'') \<and>
   \<not> detector_with_override (\<lambda>h b. (500, [])) ''<html>short</html>''"
proof -
  have h1: "length ''<html>short</html>'' < 500" by simp
  have "str_in (py_lower ''enable JavaScript'') (py_lower (''Please '' @ ''enable JavaScript'' @ '' to continue''))"
    unfolding py_lower_append by (rule str_in_self_append)
  then have "str_in (py_lower ''enable JavaScript'') (py_lower ''Please enable JavaScript to continue'')"
    by simp
  then have "str_in (py_lower ''enable JavaScript'')
      (py_lower (replicate 600 CHR ''x'' @ ''Please enable JavaScript to continue''))"
    unfolding py_lower_append by (rule str_in_appendI2)
  moreover have "''enable JavaScript'' \<in> set block_indicators" by (simp add: block_indicators_def)
  ultimately have h2: "''enable JavaScript'' \<in> set block_indicators \<and>
     str_in (py_lower ''enable JavaScript'')
      (py_lower (replicate 600 CHR ''x'' @ ''Please enable JavaScript to continue''))"
    by (rule_tac conjI)
  have h3: "0 < fst ((\<lambda>h b. (500::int, []::ListingCard list)) ''<html>short</html>'' IDEALISTA_DOMAIN)"
    by simp
  from is_blocked_page_classification[of "''<html>short</html>''" ind "\<lambda>h b. (500, [])"] h1 h3
  have a: "is_blocked_page ''<html>short</html>''"
    and c: "\<not> detector_with_override (\<lambda>h b. (500, [])) ''<html>short</html>''"
    by (metis)+
  from is_blocked_page_classification[of
      "replicate 600 CHR ''x'' @ ''Please enable JavaScript to continue''" "''enable JavaScript''" parse] h2
  have b: "is_blocked_page (replicate 600 CHR ''x'' @ ''Please enable JavaScript to continue'')"
    by metis
  from a b c show ?thesis by (intro conjI)
qed

section \<open>The retry policy\<close>

lemma backoff_wait_nonempty: "bo \<noteq> [] \<Longrightarrow> backoff_wait bo a = Inr (clamped bo a)"
  by (simp add: backoff_wait_def clamped_def)

lemma retry_attempts_first_ok:
  assumes "env (calls w) url = FetchReturned html 200"
  shows "retry_attempts env url m bo (Suc r) a lst w
    = Inr ((html, 200), w\<lparr>calls := Suc (calls w), trace := trace w @ [EvFetch url]\<rparr>)"
  using assms by (simp add: fetch_html_def)

lemma retry_attempts_fail_sleep:
  assumes "\<not> outcome_ok (env (calls w) url)" "int a < m - 1" "bo \<noteq> []"
  shows "retry_attempts env url m bo (Suc r) a lst w
    = retry_attempts env url m bo r (Suc a) (outcome_pair (env (calls w) url))
        (w\<lparr>calls := Suc (calls w), trace := trace w @ [EvFetch url, EvSleep (clamped bo a)]\<rparr>)"
  using assms
  by (cases "env (calls w) url")
     (simp_all add: fetch_html_def outcome_ok_def outcome_pair_def backoff_wait_nonempty log_event_def)

lemma retry_attempts_fail_last:
  assumes "\<not> outcome_ok (env (calls w) url)" "\<not> int a < m - 1"
  shows "retry_attempts env url m bo (Suc r) a lst w
    = retry_attempts env url m bo r (Suc a) (outcome_pair (env (calls w) url))
        (w\<lparr>calls := Suc (calls w), trace := trace w @ [EvFetch url]\<rparr>)"
  using assms
  by (cases "env (calls w) url")
     (simp_all add: fetch_html_def outcome_ok_def outcome_pair_def)

lemma retry_attempts_returns_at_first_ok:
  assumes "bo \<noteq> []" "Suc k \<le> r" "a + r = nat m"
    "\<forall>j<k. \<not> outcome_ok (env (calls w + j) url)"
    "env (calls w + k) url = FetchReturned html 200"
  shows "retry_attempts env url m bo r a lst w
    = Inr ((html, 200), w\<lparr>calls := calls w + Suc k, trace := trace w @ attempts_trace url bo a k\<rparr>)"
  using assms
proof (induction k arbitrary: r a lst w)
  case 0
  then obtain r' where r: "r = Suc r'" by (cases r) auto
  show ?case unfolding r using retry_attempts_first_ok[where env=env and w=w and url=url and html=html] 0(5) by simp
next
  case (Suc k)
  then obtain r' where r: "r = Suc r'" by (cases r) auto
  have fail: "\<not> outcome_ok (env (calls w) url)" using Suc.prems(4) by force
  have lt: "int a < m - 1" using Suc.prems(2,3) by linarith
  let ?w = "w\<lparr>calls := Suc (calls w), trace := trace w @ [EvFetch url, EvSleep (clamped bo a)]\<rparr>"
  have "retry_attempts env url m bo r' (Suc a) (outcome_pair (env (calls w) url)) ?w
    = Inr ((html, 200), ?w\<lparr>calls := calls ?w + Suc k, trace := trace ?w @ attempts_trace url bo (Suc a) k\<rparr>)"
  proof (rule Suc.IH)
    show "bo \<noteq> []" by fact
    show "Suc k \<le> r'" using Suc.prems(2) r by simp
    show "Suc a + r' = nat m" using Suc.prems(3) r by simp
    show "\<forall>j<k. \<not> outcome_ok (env (calls ?w + j) url)" using Suc.prems(4) by auto
    show "env (calls ?w + k) url = FetchReturned html 200" using Suc.prems(5) by simp
  qed
  then show ?case
    unfolding r retry_attempts_fail_sleep[where env=env and w=w and url=url, OF fail lt Suc.prems(1)] by simp
qed

lemma retry_attempts_exhausted:
  assumes "bo \<noteq> []" "a + Suc r = nat m"
    "\<forall>j<Suc r. \<not> outcome_ok (env (calls w + j) url)"
  shows "retry_attempts env url m bo (Suc r) a lst w
    = Inr (outcome_pair (env (calls w + r) url),
           w\<lparr>calls := calls w + Suc r, trace := trace w @ attempts_trace url bo a r\<rparr>)"
  using assms
proof (induction r arbitrary: a lst w)
  case 0
  have fail: "\<not> outcome_ok (env (calls w) url)" using 0(3) by force
  have nlt: "\<not> int a < m - 1" using 0(2) by linarith
  show ?case
    unfolding retry_attempts_fail_last[where env=env and w=w and url=url, OF fail nlt] by simp
next
  case (Suc r)
  have fail: "\<not> outcome_ok (env (calls w) url)" using Suc.prems(3) by force
  have lt: "int a < m - 1" using Suc.prems(2) by linarith
  let ?w = "w\<lparr>calls := Suc (calls w), trace := trace w @ [EvFetch url, EvSleep (clamped bo a)]\<rparr>"
  have "retry_attempts env url m bo (Suc r) (Suc a) (outcome_pair (env (calls w) url)) ?w
    = Inr (outcome_pair (env (calls ?w + r) url),
           ?w\<lparr>calls := calls ?w + Suc r, trace := trace ?w @ attempts_trace url bo (Suc a) r\<rparr>)"
  proof (rule Suc.IH)
    show "bo \<noteq> []" by fact
    show "Suc a + Suc r = nat m" using Suc.prems(2) by simp
    show "\<forall>j<Suc r. \<not> outcome_ok (env (calls ?w + j) url)" using Suc.prems(3) by auto
  qed
  then show ?case
    unfolding retry_attempts_fail_sleep[where env=env and w=w and url=url, OF fail lt Suc.prems(1)] by simp
qed

lemma retry_attempts_total:
  assumes "bo \<noteq> []"
  shows "\<exists>res w'. retry_attempts env url m bo r a lst w = Inr (res, w')"
proof (induction r arbitrary: a lst w)
  case 0
  show ?case by simp
next
  case (Suc r)
  show ?case
  proof (cases "outcome_ok (env (calls w) url)")
    case True
    then obtain html where "env (calls w) url = FetchReturned html 200"
      by (cases "env (calls w) url") (auto simp: outcome_ok_def)
    then show ?thesis using retry_attempts_first_ok[where env=env and w=w and url=url] by blast
  next
    case False
    show ?thesis
    proof (cases "int a < m - 1")
      case True
      show ?thesis unfolding retry_attempts_fail_sleep[where env=env and w=w and url=url, OF False True assms] by (rule Suc.IH)
    next
      case nlt: False
      show ?thesis unfolding retry_attempts_fail_last[where env=env and w=w and url=url, OF False nlt] by (rule Suc.IH)
    qed
  qed
qed

lemma sleeps_of_attempts_trace:
  "sleeps_of (attempts_trace url bo a n) = map (clamped bo) [a..<a + n]"
proof (induction n arbitrary: a)
  case 0
  show ?case by (simp add: sleeps_of_def)
next
  case (Suc n)
  have "sleeps_of (attempts_trace url bo a (Suc n)) = clamped bo a # sleeps_of (attempts_trace url bo (Suc a) n)"
    by (simp add: sleeps_of_def)
  moreover have "[a..<a + Suc n] = a # [Suc a..<Suc a + n]"
    by (subst upt_rec) simp
  ultimately show ?case using Suc.IH[of "Suc a"] by (simp only: list.map)
qed


lemma retry_zero_attempts:
  "m \<le> 0 \<Longrightarrow> fetch_html_with_retry env url m bo w = Inr (('''', 0), w)"
  by (simp add: fetch_html_with_retry_def)

lemma always_raises_not_ok: "\<not> outcome_ok (always_raises n url)"
  by (simp add: always_raises_def outcome_ok_def)

lemma fetch_html_with_retry_empty_schedule:
  "fetch_html_with_retry always_raises ''https://example.test/'' 2 [] world0
     = Inl (IndexError, \<lparr>calls = 1, trace = [EvFetch ''https://example.test/'']\<rparr>)"
  by (simp add: fetch_html_with_retry_def always_raises_def world0_def eval_nat_numeral
      fetch_html_def backoff_wait_def)

text \<open>
  Claim C3, as the code has it. With a non-empty backoff schedule \<^verbatim>\<open>fetch_html_with_retry\<close>
  always returns a pair and never raises. It returns at the first attempt whose status is
  200, after the failed attempts before it, each followed by its sleep. When none of the
  \<open>max_retries \<ge> 1\<close> attempts has status 200, it returns what the \<^emph>\<open>final\<close> attempt left:
  that attempt's pair, or the empty markup with status 0 when the final attempt raised (an
  attempt that raises overwrites the pair of an earlier attempt). A fetch function that
  always raises gives the empty markup with status 0 after exactly \<open>max_retries\<close> attempts.
  The sleep after attempt number \<open>a\<close> lasts \<open>backoff_sec[a]\<close>, or the last element of the
  schedule when \<open>a\<close> is past its end, so that \<open>n + 1\<close> attempts sleep \<open>n\<close> times.
\<close>

theorem fetch_html_with_retry_policy:
  assumes "backoff_sec \<noteq> []"
  shows "(\<exists>res w'. fetch_html_with_retry env url max_retries backoff_sec w = Inr (res, w')) \<and>
    (k < nat max_retries \<and> (\<forall>j<k. \<not> outcome_ok (env (calls w + j) url)) \<and>
       env (calls w + k) url = FetchReturned html 200 \<longrightarrow>
       fetch_html_with_retry env url max_retries backoff_sec w
         = Inr ((html, 200), w\<lparr>calls := calls w + Suc k,
                                 trace := trace w @ attempts_trace url backoff_sec 0 k\<rparr>)) \<and>
    (1 \<le> max_retries \<and> (\<forall>j<nat max_retries. \<not> outcome_ok (env (calls w + j) url)) \<longrightarrow>
       fetch_html_with_retry env url max_retries backoff_sec w
         = Inr (outcome_pair (env (calls w + (nat max_retries - 1)) url),
                w\<lparr>calls := calls w + nat max_retries,
                  trace := trace w @ attempts_trace url backoff_sec 0 (nat max_retries - 1)\<rparr>)) \<and>
    (1 \<le> max_retries \<longrightarrow>
       fetch_html_with_retry always_raises url max_retries backoff_sec w
         = Inr (('''', 0),
                w\<lparr>calls := calls w + nat max_retries,
                  trace := trace w @ attempts_trace url backoff_sec 0 (nat max_retries - 1)\<rparr>)) \<and>
    sleeps_of (attempts_trace url backoff_sec 0 n) = map (clamped backoff_sec) [0..<n]"
proof (intro conjI impI)
  show "\<exists>res w'. fetch_html_with_retry env url max_retries backoff_sec w = Inr (res, w')"
    unfolding fetch_html_with_retry_def using assms by (rule retry_attempts_total)
next
  assume h: "k < nat max_retries \<and> (\<forall>j<k. \<not> outcome_ok (env (calls w + j) url)) \<and>
       env (calls w + k) url = FetchReturned html 200"
  show "fetch_html_with_retry env url max_retries backoff_sec w
         = Inr ((html, 200), w\<lparr>calls := calls w + Suc k,
                                 trace := trace w @ attempts_trace url backoff_sec 0 k\<rparr>)"
    unfolding fetch_html_with_retry_def
  proof (rule retry_attempts_returns_at_first_ok)
    show "backoff_sec \<noteq> []" by fact
    show "Suc k \<le> nat max_retries" using h by simp
    show "0 + nat max_retries = nat max_retries" by simp
    show "\<forall>j<k. \<not> outcome_ok (env (calls w + j) url)" using h by simp
    show "env (calls w + k) url = FetchReturned html 200" using h by simp
  qed
next
  assume h: "1 \<le> max_retries \<and> (\<forall>j<nat max_retries. \<not> outcome_ok (env (calls w + j) url))"
  then obtain r where r: "nat max_retries = Suc r" by (cases "nat max_retries") auto
  have "retry_attempts env url max_retries backoff_sec (Suc r) 0 ('''', 0) w
    = Inr (outcome_pair (env (calls w + r) url),
           w\<lparr>calls := calls w + Suc r, trace := trace w @ attempts_trace url backoff_sec 0 r\<rparr>)"
  proof (rule retry_attempts_exhausted)
    show "backoff_sec \<noteq> []" by fact
    show "0 + Suc r = nat max_retries" using r by simp
    show "\<forall>j<Suc r. \<not> outcome_ok (env (calls w + j) url)" using h r by simp
  qed
  then show "fetch_html_with_retry env url max_retries backoff_sec w
         = Inr (outcome_pair (env (calls w + (nat max_retries - 1)) url),
                w\<lparr>calls := calls w + nat max_retries,
                  trace := trace w @ attempts_trace url backoff_sec 0 (nat max_retries - 1)\<rparr>)"
    unfolding fetch_html_with_retry_def r by simp
next
  assume h: "1 \<le> max_retries"
  then obtain r where r: "nat max_retries = Suc r" by (cases "nat max_retries") auto
  have "retry_attempts always_raises url max_retries backoff_sec (Suc r) 0 ('''', 0) w
    = Inr (outcome_pair (always_raises (calls w + r) url),
           w\<lparr>calls := calls w + Suc r, trace := trace w @ attempts_trace url backoff_sec 0 r\<rparr>)"
  proof (rule retry_attempts_exhausted)
    show "backoff_sec \<noteq> []" by fact
    show "0 + Suc r = nat max_retries" using r by simp
    show "\<forall>j<Suc r. \<not> outcome_ok (always_raises (calls w + j) url)"
      by (simp add: always_raises_not_ok)
  qed
  moreover have "outcome_pair (always_raises (calls w + r) url) = ('''', 0)"
    by (simp add: always_raises_def outcome_pair_def)
  ultimately show "fetch_html_with_retry always_raises url max_retries backoff_sec w
         = Inr (('''', 0),
                w\<lparr>calls := calls w + nat max_retries,
                  trace := trace w @ attempts_trace url backoff_sec 0 (nat max_retries - 1)\<rparr>)"
    unfolding fetch_html_with_retry_def r by simp
next
  show "sleeps_of (attempts_trace url backoff_sec 0 n) = map (clamped backoff_sec) [0..<n]"
    using sleeps_of_attempts_trace[of url backoff_sec 0 n] by simp
qed

theorem fetch_html_with_retry_policy_witness:
  "default_backoff \<noteq> [] \<and>
   fetch_html_with_retry always_raises ''https://example.test/'' 5 default_backoff world0
     = Inr (('''', 0),
            \<lparr>calls = 5,
             trace = [EvFetch ''https://example.test/'', EvSleep 10,
                      EvFetch ''https://example.test/'', EvSleep 30,
                      EvFetch ''https://example.test/'', EvSleep 60,
                      EvFetch ''https://example.test/'', EvSleep 60,
                      EvFetch ''https://example.test/'']\<rparr>) \<and>
   sleeps_of (attempts_trace ''https://example.test/'' default_backoff 0 4) = [10, 30, 60, 60] \<and>
   fetch_html_with_retry raises_then_ok ''https://example.test/'' 3 default_backoff world0
     = Inr ((''<html>listing</html>'', 200),
            \<lparr>calls = 2,
             trace = [EvFetch ''https://example.test/'', EvSleep 10,
                      EvFetch ''https://example.test/'']\<rparr>)"
proof -
  have ne: "default_backoff \<noteq> []" by (simp add: default_backoff_def)
  have five: "(1::int) \<le> 5" by simp
  have tr: "attempts_trace ''https://example.test/'' default_backoff 0 (nat 5 - 1)
    = [EvFetch ''https://example.test/'', EvSleep 10,
                      EvFetch ''https://example.test/'', EvSleep 30,
                      EvFetch ''https://example.test/'', EvSleep 60,
                      EvFetch ''https://example.test/'', EvSleep 60,
                      EvFetch ''https://example.test/'']"
    by (simp add: eval_nat_numeral clamped_def default_backoff_def)
  have up: "map (clamped default_backoff) [0..<4] = [10, 30, 60, 60]"
    by (simp add: upt_rec clamped_def default_backoff_def)
  note t = fetch_html_with_retry_policy[OF ne, where env = always_raises
      and url = "''https://example.test/''" and max_retries = 5 and w = world0 and k = 0
      and html = "''''" and n = 4]
  from t five have "fetch_html_with_retry always_raises ''https://example.test/'' 5 default_backoff world0
         = Inr (('''', 0),
                world0\<lparr>calls := calls world0 + nat 5,
                  trace := trace world0 @ attempts_trace ''https://example.test/'' default_backoff 0 (nat 5 - 1)\<rparr>)"
    by metis
  then have a: "fetch_html_with_retry always_raises ''https://example.test/'' 5 default_backoff world0
     = Inr (('''', 0),
            \<lparr>calls = 5,
             trace = [EvFetch ''https://example.test/'', EvSleep 10,
                      EvFetch ''https://example.test/'', EvSleep 30,
                      EvFetch ''https://example.test/'', EvSleep 60,
                      EvFetch ''https://example.test/'', EvSleep 60,
                      EvFetch ''https://example.test/'']\<rparr>)"
    unfolding tr by (simp add: world0_def)
  from t have "sleeps_of (attempts_trace ''https://example.test/'' default_backoff 0 4)
      = map (clamped default_backoff) [0..<4]" by metis
  then have b: "sleeps_of (attempts_trace ''https://example.test/'' default_backoff 0 4) = [10, 30, 60, 60]"
    unfolding up .
  note u = fetch_html_with_retry_policy[OF ne, where env = raises_then_ok
      and url = "''https://example.test/''" and max_retries = 3 and w = world0 and k = 1
      and html = "''<html>listing</html>''" and n = 0]
  have hyp: "1 < nat 3 \<and>
      (\<forall>j<1. \<not> outcome_ok (raises_then_ok (calls world0 + j) ''https://example.test/'')) \<and>
      raises_then_ok (calls world0 + 1) ''https://example.test/''
        = FetchReturned ''<html>listing</html>'' 200"
    by (simp add: raises_then_ok_def outcome_ok_def world0_def)
  have tr1: "attempts_trace ''https://example.test/'' default_backoff 0 1
    = [EvFetch ''https://example.test/'', EvSleep 10, EvFetch ''https://example.test/'']"
    by (simp add: clamped_def default_backoff_def)
  from u hyp have "fetch_html_with_retry raises_then_ok ''https://example.test/'' 3 default_backoff world0
         = Inr ((''<html>listing</html>'', 200), world0\<lparr>calls := calls world0 + Suc 1,
             trace := trace world0 @ attempts_trace ''https://example.test/'' default_backoff 0 1\<rparr>)"
    by metis
  then have c: "fetch_html_with_retry raises_then_ok ''https://example.test/'' 3 default_backoff world0
     = Inr ((''<html>listing</html>'', 200),
            \<lparr>calls = 2,
             trace = [EvFetch ''https://example.test/'', EvSleep 10,
                      EvFetch ''https://example.test/'']\<rparr>)"
    unfolding tr1 by (simp add: world0_def)
  from ne a b c show ?thesis by (intro conjI)
qed

text \<open>
  The claim as the specification words it fails: here the first attempt is answered with
  status 403 and the two later attempts raise, so the last pair that was observed is the
  403 answer and not every attempt raised, yet the policy returns the empty markup with
  status 0.
\<close>

theorem fetch_html_with_retry_last_pair_counterexample:
  "denied_then_raises 0 ''https://example.test/'' = FetchReturned ''denied'' 403 \<and>
   fetch_html_with_retry denied_then_raises ''https://example.test/'' 3 default_backoff world0
     = Inr (('''', 0),
            \<lparr>calls = 3,
             trace = [EvFetch ''https://example.test/'', EvSleep 10,
                      EvFetch ''https://example.test/'', EvSleep 30,
                      EvFetch ''https://example.test/'']\<rparr>)"
  by (simp add: fetch_html_with_retry_def denied_then_raises_def world0_def eval_nat_numeral
      fetch_html_def backoff_wait_def default_backoff_def log_event_def)

section \<open>The status of the Selenium backend\<close>


lemma selenium_status_200:
  "fetch_html_selenium_sync b driver_given url scroll = Inr (html, status) \<Longrightarrow> status = 200"
  unfolding fetch_html_selenium_sync_def by (auto split: if_splits)

lemma selenium_env_outcome:
  assumes "uses_selenium kw"
  shows "backend_env kw b n url = FetchRaised \<or> (\<exists>html. backend_env kw b n url = FetchReturned html 200)"
proof (cases "kw_driver kw")
  case True
  show ?thesis
  proof (cases "fetch_html_selenium_sync (selenium_runs b n url) True url (kw_scroll kw)")
    case (Inl e)
    then show ?thesis using True by (simp add: backend_env_def)
  next
    case (Inr p)
    obtain html status where p: "p = (html, status)" by (cases p)
    then have "status = 200" using Inr selenium_status_200 by blast
    then show ?thesis using True Inr p by (simp add: backend_env_def)
  qed
next
  case False
  then have sel: "is_selenium_like (kw_approach kw) \<and> \<not> kw_page kw"
    using assms by (simp add: uses_selenium_def)
  show ?thesis
  proof (cases "fetch_html_selenium_sync (selenium_runs b n url) False url (kw_scroll kw)")
    case (Inl e)
    then show ?thesis using False sel by (simp add: backend_env_def)
  next
    case (Inr p)
    obtain html status where p: "p = (html, status)" by (cases p)
    then have "status = 200" using Inr selenium_status_200 by blast
    then show ?thesis using False sel Inr p by (simp add: backend_env_def)
  qed
qed

lemma retry_attempts_ok_or_raised:
  assumes "ok_or_raised env url" "lst = ('''', 0) \<or> snd lst = 200"
    "retry_attempts env url m bo r a lst w = Inr ((html, status), w')"
  shows "status = 200 \<or> (status = 0 \<and> html = '''')"
  using assms(2,3)
proof (induction r arbitrary: a lst w)
  case 0
  then show ?case by auto
next
  case (Suc r)
  from assms(1) consider "env (calls w) url = FetchRaised"
    | h where "env (calls w) url = FetchReturned h 200"
    unfolding ok_or_raised_def by blast
  then show ?case
  proof cases
    case 1
    show ?thesis
    proof (cases "int a < m - 1")
      case True
      show ?thesis
      proof (cases "backoff_wait bo a")
        case (Inl e)
        then show ?thesis using Suc.prems(2) 1 True by (simp add: fetch_html_def)
      next
        case (Inr wait)
        then have "retry_attempts env url m bo r (Suc a) ('''', 0)
            (log_event (EvSleep wait) (w\<lparr>calls := Suc (calls w), trace := trace w @ [EvFetch url]\<rparr>))
            = Inr ((html, status), w')"
          using Suc.prems(2) 1 True by (simp add: fetch_html_def)
        then show ?thesis using Suc.IH by blast
      qed
    next
      case False
      then have "retry_attempts env url m bo r (Suc a) ('''', 0)
            (w\<lparr>calls := Suc (calls w), trace := trace w @ [EvFetch url]\<rparr>)
            = Inr ((html, status), w')"
        using Suc.prems(2) 1 by (simp add: fetch_html_def)
      then show ?thesis using Suc.IH by blast
    qed
  next
    case 2
    then show ?thesis using Suc.prems(2) by (simp add: fetch_html_def)
  qed
qed

text \<open>
  Claim C10. When \<^verbatim>\<open>_fetch_html_selenium_sync\<close> returns, the status it returns is 200,
  whatever the server answered. So when \<^verbatim>\<open>fetch_html\<close> dispatches to the Selenium client
  (a driver is passed, or the approach is Selenium-like and no page is passed), the retry
  policy returns status 200, or status 0 with the empty markup: an HTTP error status never
  reaches the caller.
\<close>

theorem selenium_status_is_200_or_0:
  "(fetch_html_selenium_sync b driver_given url scroll = Inr (html, status) \<longrightarrow> status = 200) \<and>
   (uses_selenium kw \<and>
    fetch_html_with_retry (backend_env kw be) url max_retries backoff_sec w = Inr ((html', status'), w')
      \<longrightarrow> status' = 200 \<or> (status' = 0 \<and> html' = ''''))"
proof (intro conjI impI)
  assume "fetch_html_selenium_sync b driver_given url scroll = Inr (html, status)"
  then show "status = 200" by (rule selenium_status_200)
next
  assume h: "uses_selenium kw \<and>
    fetch_html_with_retry (backend_env kw be) url max_retries backoff_sec w = Inr ((html', status'), w')"
  then have "ok_or_raised (backend_env kw be) url"
    unfolding ok_or_raised_def using selenium_env_outcome by blast
  moreover have "(('''', 0)::string \<times> int) = ('''', 0) \<or> snd (('''', 0)::string \<times> int) = 200" by simp
  ultimately show "status' = 200 \<or> (status' = 0 \<and> html' = '''')"
    using h retry_attempts_ok_or_raised unfolding fetch_html_with_retry_def by blast
qed


theorem selenium_status_is_200_or_0_witness:
  "(\<exists>html status.
      fetch_html_selenium_sync forbidden_page_run True ''https://www.idealista.com/venta/'' True
        = Inr (html, status) \<and> html = ''<html>403 Forbidden</html>'' \<and> status = 200) \<and>
   uses_selenium driver_kwargs \<and>
   (\<exists>html status w'.
      fetch_html_with_retry (backend_env driver_kwargs crashing_backend)
          ''https://www.idealista.com/venta/'' 2 default_backoff world0
        = Inr ((html, status), w') \<and> status = 0 \<and> html = '''')"
proof -
  have run: "fetch_html_selenium_sync forbidden_page_run True ''https://www.idealista.com/venta/'' True
      = Inr (''<html>403 Forbidden</html>'', 200)"
    by (simp add: fetch_html_selenium_sync_def forbidden_page_run_def)
  have sel: "uses_selenium driver_kwargs"
    by (simp add: uses_selenium_def driver_kwargs_def)
  have crash: "fetch_html_with_retry (backend_env driver_kwargs crashing_backend)
          ''https://www.idealista.com/venta/'' 2 default_backoff world0
        = Inr (('''', 0), \<lparr>calls = 2,
            trace = [EvFetch ''https://www.idealista.com/venta/'', EvSleep 10,
                     EvFetch ''https://www.idealista.com/venta/'']\<rparr>)"
    by (simp add: fetch_html_with_retry_def backend_env_def driver_kwargs_def crashing_backend_def
        crashing_run_def fetch_html_selenium_sync_def world0_def eval_nat_numeral fetch_html_def
        backoff_wait_def default_backoff_def log_event_def)
  note t = selenium_status_is_200_or_0[where b = forbidden_page_run and driver_given = True
      and url = "''https://www.idealista.com/venta/''" and scroll = True
      and html = "''<html>403 Forbidden</html>''" and status = 200
      and kw = driver_kwargs and be = crashing_backend and max_retries = 2
      and backoff_sec = default_backoff and w = world0 and html' = "''''" and status' = 0]
  from t sel crash have "(0::int) = 200 \<or> ((0::int) = 0 \<and> '''' = (''''::string))" by blast
  with run sel crash show ?thesis by simp
qed
section \<open>What the orchestrator leaves in the trace\<close>

lemma trace_log_event [simp]: "trace (log_event e w) = trace w @ [e]"
  by (simp add: log_event_def)

lemma calls_log_event [simp]: "calls (log_event e w) = calls w"
  by (simp add: log_event_def)

lemma records_of_append [simp]: "records_of (a @ b) = records_of a @ records_of b"
  by (simp add: records_of_def)

lemma records_of_Nil [simp]: "records_of [] = []"
  by (simp add: records_of_def)

lemma records_of_Cons [simp]:
  "records_of (EvFetch u # evs) = records_of evs" "records_of (EvSleep d # evs) = records_of evs"
  "records_of (EvRequest t # evs) = records_of evs" "records_of (EvRestart # evs) = records_of evs"
  "records_of (EvRecord r # evs) = r # records_of evs"
  by (simp_all add: records_of_def)

lemma requests_of_append [simp]: "requests_of (a @ b) = requests_of a @ requests_of b"
  by (simp add: requests_of_def)

lemma requests_of_Nil [simp]: "requests_of [] = []"
  by (simp add: requests_of_def)

lemma requests_of_Cons [simp]:
  "requests_of (EvFetch u # evs) = requests_of evs" "requests_of (EvSleep d # evs) = requests_of evs"
  "requests_of (EvRequest t # evs) = t # requests_of evs" "requests_of (EvRestart # evs) = requests_of evs"
  "requests_of (EvRecord r # evs) = requests_of evs"
  by (simp_all add: requests_of_def)

lemma pages_requested_append [simp]: "pages_requested (a @ b) = pages_requested a @ pages_requested b"
  by (simp add: pages_requested_def)

lemma pages_requested_Nil [simp]: "pages_requested [] = []"
  by (simp add: pages_requested_def)

lemma pages_requested_Cons [simp]:
  "pages_requested (EvFetch u # evs) = pages_requested evs"
  "pages_requested (EvSleep d # evs) = pages_requested evs"
  "pages_requested (EvRequest FirstPage # evs) = pages_requested evs"
  "pages_requested (EvRequest (SearchPage p) # evs) = p # pages_requested evs"
  "pages_requested (EvRequest (DetailPage l) # evs) = pages_requested evs"
  "pages_requested (EvRestart # evs) = pages_requested evs"
  "pages_requested (EvRecord r # evs) = pages_requested evs"
  by (simp_all add: pages_requested_def)

text \<open>The retry policy only fetches and sleeps.\<close>

lemma retry_attempts_trace:
  "retry_attempts env url m bo r a lst w = Inr (res, w') \<Longrightarrow>
     records_of (trace w') = records_of (trace w) \<and> requests_of (trace w') = requests_of (trace w)
     \<and> prefix (trace w) (trace w')"
proof (induction r arbitrary: a lst w)
  case 0
  then show ?case by simp
next
  case (Suc r)
  let ?w1 = "w\<lparr>calls := Suc (calls w), trace := trace w @ [EvFetch url]\<rparr>"
  have w1: "records_of (trace ?w1) = records_of (trace w)" "requests_of (trace ?w1) = requests_of (trace w)"
    by simp_all
  show ?case
  proof (cases "outcome_ok (env (calls w) url)")
    case True
    then obtain html where "env (calls w) url = FetchReturned html 200"
      by (cases "env (calls w) url") (auto simp: outcome_ok_def)
    then have "w' = ?w1"
      using Suc.prems retry_attempts_first_ok[where env=env and w=w and url=url] by simp
    then show ?thesis using w1 by simp
  next
    case False
    show ?thesis
    proof (cases "int a < m - 1")
      case True
      show ?thesis
      proof (cases "backoff_wait bo a")
        case (Inl e)
        then have "retry_attempts env url m bo (Suc r) a lst w = Inl (e, ?w1)"
          using False True
          by (cases "env (calls w) url") (simp_all add: fetch_html_def outcome_ok_def)
        then show ?thesis using Suc.prems by simp
      next
        case (Inr wait)
        then have "retry_attempts env url m bo (Suc r) a lst w
          = retry_attempts env url m bo r (Suc a) (outcome_pair (env (calls w) url))
              (log_event (EvSleep wait) ?w1)"
          using False True
          by (cases "env (calls w) url") (simp_all add: fetch_html_def outcome_ok_def outcome_pair_def)
        then have "records_of (trace w') = records_of (trace (log_event (EvSleep wait) ?w1)) \<and>
            requests_of (trace w') = requests_of (trace (log_event (EvSleep wait) ?w1)) \<and>
            prefix (trace (log_event (EvSleep wait) ?w1)) (trace w')"
          using Suc.prems Suc.IH by metis
        then show ?thesis by (auto dest: append_prefixD)
      qed
    next
      case nlt: False
      have "retry_attempts env url m bo (Suc r) a lst w
          = retry_attempts env url m bo r (Suc a) (outcome_pair (env (calls w) url)) ?w1"
        by (rule retry_attempts_fail_last[where env=env and w=w and url=url, OF False nlt])
      then have "records_of (trace w') = records_of (trace ?w1) \<and>
            requests_of (trace w') = requests_of (trace ?w1) \<and> prefix (trace ?w1) (trace w')"
        using Suc.prems Suc.IH by metis
      then show ?thesis by (auto dest: append_prefixD)
    qed
  qed
qed

lemma fetch_html_with_retry_trace:
  assumes "fetch_html_with_retry env url m bo w = Inr (res, w')"
  shows "records_of (trace w') = records_of (trace w)"
    and "requests_of (trace w') = requests_of (trace w)"
    and "pages_requested (trace w') = pages_requested (trace w)"
    and "prefix (trace w) (trace w')"
  using assms retry_attempts_trace unfolding fetch_html_with_retry_def pages_requested_def
  by metis+

lemma default_backoff_nonempty: "default_backoff \<noteq> []"
  by (simp add: default_backoff_def)

lemma fetch_default_total:
  "\<exists>html status w'. fetch_html_with_retry env url 3 default_backoff w = Inr ((html, status), w')"
  using retry_attempts_total[OF default_backoff_nonempty]
  unfolding fetch_html_with_retry_def by (metis surj_pair)

section \<open>Processing cards\<close>

lemma emit_fields [simp]:
  "results (emit cb r st) = results st @ [r]"
  "processed_links (emit cb r st) = processed_links st"
  "all_cards (emit cb r st) = all_cards st"
  "consecutive_blocked (emit cb r st) = consecutive_blocked st"
  "trace (world (emit cb r st)) = trace (world st) @ (if cb then [EvRecord r] else [])"
  by (simp_all add: emit_def)

lemma link_card_record [simp]: "link (rec_card (card_record c l)) = l"
  by (simp add: card_record_def)

lemma link_merge_detail [simp]: "link (rec_card (merge_detail c l d)) = l"
  by (simp add: merge_detail_def)

text \<open>One step of the loop over the cards.\<close>

lemma process_cards_skip:
  "normalize_listing_link (link c) \<in> processed_links st \<Longrightarrow>
     process_cards cfg (c # cs) st = process_cards cfg cs st"
  by simp

lemma process_cards_step:
  assumes "normalize_listing_link (link c) \<notin> processed_links st"
  shows "\<exists>r w1. process_cards cfg (c # cs) st
            = process_cards cfg cs
                (emit (on_record cfg) r
                   (st\<lparr>world := w1,
                       processed_links := insert (normalize_listing_link (link c)) (processed_links st)\<rparr>))
          \<and> link (rec_card r) = normalize_listing_link (link c)
          \<and> records_of (trace w1) = records_of (trace (world st))
          \<and> pages_requested (trace w1) = pages_requested (trace (world st))
          \<and> prefix (trace (world st)) (trace w1)"
proof -
  let ?cl = "normalize_listing_link (link c)"
  let ?url = "if ?cl \<noteq> [] then ?cl else link c"
  let ?w0 = "log_event (EvRequest (DetailPage ?url)) (world st)"
  obtain html status w1 where
    f: "fetch_html_with_retry (environment cfg) ?url 3 default_backoff ?w0 = Inr ((html, status), w1)"
    using fetch_default_total by blast
  have t: "records_of (trace w1) = records_of (trace (world st))"
      "pages_requested (trace w1) = pages_requested (trace (world st))"
      "prefix (trace (world st)) (trace w1)"
    using fetch_html_with_retry_trace[OF f] by (auto dest: append_prefixD)
  show ?thesis
  proof (cases "status = 200")
    case True
    have "process_cards cfg (c # cs) st
            = process_cards cfg cs
                (emit (on_record cfg) (merge_detail c ?cl (parse_detail_page cfg html ?url))
                   (st\<lparr>world := w1, processed_links := insert ?cl (processed_links st)\<rparr>))"
      using assms f True by (simp add: Let_def)
    then show ?thesis using t link_merge_detail by blast
  next
    case False
    have "process_cards cfg (c # cs) st
            = process_cards cfg cs
                (emit (on_record cfg) (card_record c ?cl)
                   (st\<lparr>world := w1, processed_links := insert ?cl (processed_links st)\<rparr>))"
      using assms f False by (simp add: Let_def)
    then show ?thesis using t link_card_record by blast
  qed
qed

lemma process_cards_total: "\<exists>st'. process_cards cfg cs st = Inr st'"
proof (induction cs arbitrary: st)
  case Nil
  show ?case by simp
next
  case (Cons c cs)
  show ?case
  proof (cases "normalize_listing_link (link c) \<in> processed_links st")
    case True
    then show ?thesis using Cons.IH by (simp only: process_cards_skip)
  next
    case False
    then show ?thesis using process_cards_step[OF False, of cfg cs] Cons.IH by metis
  qed
qed

lemma process_cards_frame:
  "process_cards cfg cs st = Inr st' \<Longrightarrow>
     pages_requested (trace (world st')) = pages_requested (trace (world st)) \<and>
     all_cards st' = all_cards st \<and> consecutive_blocked st' = consecutive_blocked st \<and>
     prefix (trace (world st)) (trace (world st'))"
proof (induction cs arbitrary: st)
  case Nil
  then show ?case by simp
next
  case (Cons c cs)
  show ?case
  proof (cases "normalize_listing_link (link c) \<in> processed_links st")
    case True
    then show ?thesis using Cons by (simp only: process_cards_skip)
  next
    case False
    let ?cl = "normalize_listing_link (link c)"
    obtain r w1 where s: "process_cards cfg (c # cs) st
            = process_cards cfg cs (emit (on_record cfg) r
                   (st\<lparr>world := w1, processed_links := insert ?cl (processed_links st)\<rparr>))"
        and p: "pages_requested (trace w1) = pages_requested (trace (world st))"
               "prefix (trace (world st)) (trace w1)"
      using process_cards_step[OF False, of cfg cs] by blast
    let ?st1 = "emit (on_record cfg) r (st\<lparr>world := w1, processed_links := insert ?cl (processed_links st)\<rparr>)"
    have "process_cards cfg cs ?st1 = Inr st'" using Cons.prems s by simp
    then have "pages_requested (trace (world st')) = pages_requested (trace (world ?st1)) \<and>
     all_cards st' = all_cards ?st1 \<and> consecutive_blocked st' = consecutive_blocked ?st1 \<and>
     prefix (trace (world ?st1)) (trace (world st'))"
      by (rule Cons.IH)
    then show ?thesis using p by (auto dest: append_prefixD intro: prefix_order.trans)
  qed
qed

lemma process_cards_records:
  "process_cards cfg cs st = Inr st' \<Longrightarrow>
     \<exists>new. results st' = results st @ new \<and>
       records_of (trace (world st')) = records_of (trace (world st)) @ (if on_record cfg then new else []) \<and>
       (\<forall>r\<in>set new. \<exists>c\<in>set cs. link (rec_card r) = normalize_listing_link (link c))"
proof (induction cs arbitrary: st)
  case Nil
  then show ?case by simp
next
  case (Cons c cs)
  show ?case
  proof (cases "normalize_listing_link (link c) \<in> processed_links st")
    case True
    then have "process_cards cfg cs st = Inr st'" using Cons.prems by (simp only: process_cards_skip)
    then obtain new where "results st' = results st @ new"
       "records_of (trace (world st')) = records_of (trace (world st)) @ (if on_record cfg then new else [])"
       "\<forall>r\<in>set new. \<exists>c\<in>set cs. link (rec_card r) = normalize_listing_link (link c)"
      using Cons.IH by blast
    then show ?thesis by auto
  next
    case False
    let ?cl = "normalize_listing_link (link c)"
    obtain r w1 where s: "process_cards cfg (c # cs) st
            = process_cards cfg cs (emit (on_record cfg) r
                   (st\<lparr>world := w1, processed_links := insert ?cl (processed_links st)\<rparr>))"
        and l: "link (rec_card r) = ?cl"
        and p: "records_of (trace w1) = records_of (trace (world st))"
      using process_cards_step[OF False, of cfg cs] by blast
    let ?st1 = "emit (on_record cfg) r (st\<lparr>world := w1, processed_links := insert ?cl (processed_links st)\<rparr>)"
    have "process_cards cfg cs ?st1 = Inr st'" using Cons.prems s by simp
    then obtain new where n: "results st' = results ?st1 @ new"
       "records_of (trace (world st')) = records_of (trace (world ?st1)) @ (if on_record cfg then new else [])"
       "\<forall>r\<in>set new. \<exists>c\<in>set cs. link (rec_card r) = normalize_listing_link (link c)"
      using Cons.IH by blast
    have "results st' = results st @ (r # new)" using n(1) by simp
    moreover have "records_of (trace (world st'))
        = records_of (trace (world st)) @ (if on_record cfg then r # new else [])"
      using n(2) p by simp
    moreover have "\<forall>x\<in>set (r # new). \<exists>c'\<in>set (c # cs). link (rec_card x) = normalize_listing_link (link c')"
      using n(3) l by auto
    ultimately show ?thesis by blast
  qed
qed

lemma dedupe_loop_sound:
  "c \<in> set (dedupe_loop seen sl cards) \<Longrightarrow>
     c \<in> set cards \<and> normalize_listing_link (link c) \<notin> seen \<and> normalize_listing_link (link c) \<noteq> []"
proof (induction cards arbitrary: sl)
  case Nil
  then show ?case by simp
next
  case (Cons a cards)
  then show ?case by (auto simp: Let_def split: if_splits)
qed

lemma dedupe_unique_sound:
  "c \<in> set (dedupe_unique seen cards) \<Longrightarrow>
     c \<in> set cards \<and> normalize_listing_link (link c) \<notin> seen"
  unfolding dedupe_unique_def using dedupe_loop_sound by blast

lemma process_new_total: "\<exists>st'. process_new cfg st = Inr st'"
  unfolding process_new_def Let_def by (rule process_cards_total)

lemma process_new_frame:
  "process_new cfg st = Inr st' \<Longrightarrow>
     pages_requested (trace (world st')) = pages_requested (trace (world st)) \<and>
     all_cards st' = all_cards st \<and> consecutive_blocked st' = consecutive_blocked st \<and>
     prefix (trace (world st)) (trace (world st'))"
  unfolding process_new_def Let_def by (rule process_cards_frame)

lemma process_new_records:
  assumes "process_new cfg st = Inr st'"
  shows "\<exists>new. results st' = results st @ new \<and>
       records_of (trace (world st')) = records_of (trace (world st)) @ (if on_record cfg then new else []) \<and>
       (\<forall>r\<in>set new. normalize_listing_link (link (rec_card r)) \<notin> already_seen cfg)"
proof -
  let ?cs = "filter (\<lambda>c. normalize_listing_link (link c) \<notin> processed_links st)
      (dedupe_unique (already_seen cfg) (all_cards st))"
  have "process_cards cfg ?cs st = Inr st'" using assms by (simp add: process_new_def Let_def)
  then obtain new where n: "results st' = results st @ new"
       "records_of (trace (world st')) = records_of (trace (world st)) @ (if on_record cfg then new else [])"
       "\<forall>r\<in>set new. \<exists>c\<in>set ?cs. link (rec_card r) = normalize_listing_link (link c)"
    using process_cards_records by blast
  have "\<forall>r\<in>set new. normalize_listing_link (link (rec_card r)) \<notin> already_seen cfg"
  proof
    fix r assume "r \<in> set new"
    then obtain c where c: "c \<in> set ?cs" "link (rec_card r) = normalize_listing_link (link c)"
      using n(3) by blast
    then have "normalize_listing_link (link c) \<notin> already_seen cfg"
      using dedupe_unique_sound by auto
    then show "normalize_listing_link (link (rec_card r)) \<notin> already_seen cfg"
      using c(2) normalize_idempotent by simp
  qed
  then show ?thesis using n by blast
qed

lemma emit_cards_records:
  "results (emit_cards cb cs st) = results st @ map (\<lambda>c. card_record c (normalize_listing_link (link c))) cs \<and>
   records_of (trace (world (emit_cards cb cs st)))
     = records_of (trace (world st)) @
       (if cb then map (\<lambda>c. card_record c (normalize_listing_link (link c))) cs else []) \<and>
   requests_of (trace (world (emit_cards cb cs st))) = requests_of (trace (world st))"
  by (induction cs arbitrary: st) auto

lemma finish_page_total: "\<exists>out ctl st'. finish_page cfg fl cards st = Inr (out, ctl, st')"
proof -
  obtain st2 where "process_new cfg (st\<lparr>consecutive_blocked := 0, all_cards := all_cards st @ cards\<rparr>) = Inr st2"
    using process_new_total by blast
  then show ?thesis by (simp add: finish_page_def)
qed

lemma finish_page_control:
  assumes "finish_page cfg fl cards st = Inr (out, ctl, st')"
  shows "(out = NoCards \<and> ctl = Continue \<and> consecutive_blocked st' = consecutive_blocked st \<and> cards = [])
       \<or> (out = DuplicateOfPage1 \<and> ctl = Break \<and> consecutive_blocked st' = 0 \<and> cards \<noteq> [])
       \<or> (out = Processed \<and> ctl = Continue \<and> consecutive_blocked st' = 0 \<and> cards \<noteq> [])"
proof -
  obtain st2 where p: "process_new cfg (st\<lparr>consecutive_blocked := 0, all_cards := all_cards st @ cards\<rparr>) = Inr st2"
    using process_new_total by blast
  then have "consecutive_blocked st2 = 0" using process_new_frame by fastforce
  then show ?thesis using assms p
    by (auto simp: finish_page_def split: if_splits)
qed

lemma finish_page_effects:
  assumes "finish_page cfg fl cards st = Inr (out, ctl, st')"
  shows "pages_requested (trace (world st')) = pages_requested (trace (world st))"
    and "\<exists>new. results st' = results st @ new \<and>
       records_of (trace (world st')) = records_of (trace (world st)) @ (if on_record cfg then new else []) \<and>
       (\<forall>r\<in>set new. normalize_listing_link (link (rec_card r)) \<notin> already_seen cfg)"
proof -
  let ?st1 = "st\<lparr>consecutive_blocked := 0, all_cards := all_cards st @ cards\<rparr>"
  obtain st2 where p: "process_new cfg ?st1 = Inr st2"
    using process_new_total by blast
  have f: "pages_requested (trace (world st2)) = pages_requested (trace (world ?st1))"
    using process_new_frame[OF p] by simp
  obtain new where n: "results st2 = results ?st1 @ new"
      "records_of (trace (world st2)) = records_of (trace (world ?st1)) @ (if on_record cfg then new else [])"
      "\<forall>r\<in>set new. normalize_listing_link (link (rec_card r)) \<notin> already_seen cfg"
    using process_new_records[OF p] by blast
  consider "st' = st" | "st' = st\<lparr>consecutive_blocked := 0\<rparr>" | "st' = st2"
    using assms p by (auto simp: finish_page_def split: if_splits)
  then show "pages_requested (trace (world st')) = pages_requested (trace (world st))"
    using f by cases simp_all
  consider "st' = st" | "st' = st\<lparr>consecutive_blocked := 0\<rparr>" | "st' = st2"
    using assms p by (auto simp: finish_page_def split: if_splits)
  then show "\<exists>new. results st' = results st @ new \<and>
       records_of (trace (world st')) = records_of (trace (world st)) @ (if on_record cfg then new else []) \<and>
       (\<forall>r\<in>set new. normalize_listing_link (link (rec_card r)) \<notin> already_seen cfg)"
  proof cases
    case 1
    then show ?thesis by (intro exI[of _ "[]"]) simp
  next
    case 2
    then show ?thesis by (intro exI[of _ "[]"]) simp
  next
    case 3
    then show ?thesis using n by (intro exI[of _ new]) simp
  qed
qed

section \<open>One search page\<close>

lemma page_fetch_total:
  "\<exists>html status w'. page_fetch cfg p w = Inr ((html, status), w')"
  unfolding page_fetch_def by (rule fetch_default_total)

lemma page_fetch_trace:
  assumes "page_fetch cfg p w = Inr (res, w')"
  shows "records_of (trace w') = records_of (trace w)"
    and "pages_requested (trace w') = pages_requested (trace w) @ [p]"
  using fetch_html_with_retry_trace[OF assms[unfolded page_fetch_def]] by simp_all

lemma page_delay_trace [simp]:
  "records_of (trace (page_delay cfg w)) = records_of (trace w)"
  "pages_requested (trace (page_delay cfg w)) = pages_requested (trace w)"
  by (simp_all add: page_delay_def)

lemma before_retry_trace [simp]:
  "records_of (trace (before_retry cfg w)) = records_of (trace w)"
  "pages_requested (trace (before_retry cfg w)) = pages_requested (trace w)"
  by (simp_all add: before_retry_def)

text \<open>The branches of one iteration, by the answers to its one or two fetches.\<close>

lemma page_body_failed_first:
  assumes "page_fetch cfg p (page_delay cfg (world st)) = Inr ((h1, s1), w1)" "s1 \<noteq> 200"
  shows "page_body cfg fl p st = Inr (Failed, Continue, st\<lparr>world := w1, consecutive_blocked := 0\<rparr>)"
  using assms by (simp add: page_body_def)

lemma page_body_not_blocked:
  assumes "page_fetch cfg p (page_delay cfg (world st)) = Inr ((h1, 200), w1)"
    "\<not> looks_blocked cfg h1"
  shows "page_body cfg fl p st
    = finish_page cfg fl (snd (parse_search_page cfg h1 IDEALISTA_DOMAIN)) (st\<lparr>world := w1\<rparr>)"
  using assms by (simp add: page_body_def)

lemma page_body_failed_retry:
  assumes "page_fetch cfg p (page_delay cfg (world st)) = Inr ((h1, 200), w1)"
    "looks_blocked cfg h1"
    "page_fetch cfg p (before_retry cfg w1) = Inr ((h2, s2), w2)" "s2 \<noteq> 200"
  shows "page_body cfg fl p st = Inr (Failed, Continue, st\<lparr>world := w2, consecutive_blocked := 0\<rparr>)"
  using assms by (simp add: page_body_def)

lemma page_body_still_blocked:
  assumes "page_fetch cfg p (page_delay cfg (world st)) = Inr ((h1, 200), w1)"
    "looks_blocked cfg h1"
    "page_fetch cfg p (before_retry cfg w1) = Inr ((h2, 200), w2)" "looks_blocked cfg h2"
  shows "page_body cfg fl p st
    = Inr (StillBlocked, if consecutive_blocked st \<ge> 1 then Break else Continue,
           st\<lparr>world := w2, consecutive_blocked := Suc (consecutive_blocked st)\<rparr>)"
  using assms by (simp add: page_body_def)

lemma page_body_recovered:
  assumes "page_fetch cfg p (page_delay cfg (world st)) = Inr ((h1, 200), w1)"
    "looks_blocked cfg h1"
    "page_fetch cfg p (before_retry cfg w1) = Inr ((h2, 200), w2)" "\<not> looks_blocked cfg h2"
  shows "page_body cfg fl p st
    = finish_page cfg fl (snd (parse_search_page cfg h2 IDEALISTA_DOMAIN)) (st\<lparr>world := w2\<rparr>)"
  using assms by (simp add: page_body_def)

text \<open>Every iteration takes exactly one of these branches.\<close>

lemma page_body_cases:
  obtains (failed_first) h1 s1 w1 where
      "page_fetch cfg p (page_delay cfg (world st)) = Inr ((h1, s1), w1)" "s1 \<noteq> 200"
  | (not_blocked) h1 w1 where
      "page_fetch cfg p (page_delay cfg (world st)) = Inr ((h1, 200), w1)" "\<not> looks_blocked cfg h1"
  | (failed_retry) h1 w1 h2 s2 w2 where
      "page_fetch cfg p (page_delay cfg (world st)) = Inr ((h1, 200), w1)" "looks_blocked cfg h1"
      "page_fetch cfg p (before_retry cfg w1) = Inr ((h2, s2), w2)" "s2 \<noteq> 200"
  | (still_blocked) h1 w1 h2 w2 where
      "page_fetch cfg p (page_delay cfg (world st)) = Inr ((h1, 200), w1)" "looks_blocked cfg h1"
      "page_fetch cfg p (before_retry cfg w1) = Inr ((h2, 200), w2)" "looks_blocked cfg h2"
  | (recovered) h1 w1 h2 w2 where
      "page_fetch cfg p (page_delay cfg (world st)) = Inr ((h1, 200), w1)" "looks_blocked cfg h1"
      "page_fetch cfg p (before_retry cfg w1) = Inr ((h2, 200), w2)" "\<not> looks_blocked cfg h2"
proof -
  obtain h1 s1 w1 where f1: "page_fetch cfg p (page_delay cfg (world st)) = Inr ((h1, s1), w1)"
    using page_fetch_total by blast
  obtain h2 s2 w2 where f2: "page_fetch cfg p (before_retry cfg w1) = Inr ((h2, s2), w2)"
    using page_fetch_total by blast
  show thesis
  proof (cases "s1 = 200")
    case False
    then show ?thesis using f1 failed_first by blast
  next
    case True
    show ?thesis
    proof (cases "looks_blocked cfg h1")
      case False
      then show ?thesis using f1 True not_blocked by blast
    next
      case b1: True
      show ?thesis
      proof (cases "s2 = 200")
        case False
        then show ?thesis using f1 True b1 f2 failed_retry by blast
      next
        case s2: True
        show ?thesis
        proof (cases "looks_blocked cfg h2")
          case False
          then show ?thesis using f1 True b1 f2 s2 recovered by blast
        next
          case b2: True
          then show ?thesis using f1 True b1 f2 s2 still_blocked by blast
        qed
      qed
    qed
  qed
qed

lemma page_body_total: "\<exists>out ctl st'. page_body cfg fl p st = Inr (out, ctl, st')"
proof (cases rule: page_body_cases[of cfg p st])
  case (failed_first h1 s1 w1)
  then show ?thesis using page_body_failed_first by blast
next
  case (not_blocked h1 w1)
  then show ?thesis using page_body_not_blocked[OF not_blocked] finish_page_total by metis
next
  case (failed_retry h1 w1 h2 s2 w2)
  then show ?thesis using page_body_failed_retry by blast
next
  case (still_blocked h1 w1 h2 w2)
  then show ?thesis using page_body_still_blocked by blast
next
  case (recovered h1 w1 h2 w2)
  then show ?thesis using page_body_recovered[OF recovered] finish_page_total by metis
qed

lemma page_body_control:
  assumes "page_body cfg fl p st = Inr (out, ctl, st')"
  shows "(out = Failed \<and> ctl = Continue \<and> consecutive_blocked st' = 0)
       \<or> (out = StillBlocked \<and> consecutive_blocked st' = Suc (consecutive_blocked st)
            \<and> ctl = (if consecutive_blocked st \<ge> 1 then Break else Continue))
       \<or> (out = NoCards \<and> ctl = Continue \<and> consecutive_blocked st' = consecutive_blocked st)
       \<or> (out = DuplicateOfPage1 \<and> ctl = Break \<and> consecutive_blocked st' = 0)
       \<or> (out = Processed \<and> ctl = Continue \<and> consecutive_blocked st' = 0)"
proof (cases rule: page_body_cases[of cfg p st])
  case (failed_first h1 s1 w1)
  then show ?thesis using assms page_body_failed_first[OF failed_first, of fl] by auto
next
  case (not_blocked h1 w1)
  have "finish_page cfg fl (snd (parse_search_page cfg h1 IDEALISTA_DOMAIN)) (st\<lparr>world := w1\<rparr>)
      = Inr (out, ctl, st')"
    using assms page_body_not_blocked[OF not_blocked, of fl] by simp
  from finish_page_control[OF this] show ?thesis by auto
next
  case (failed_retry h1 w1 h2 s2 w2)
  then show ?thesis using assms page_body_failed_retry[OF failed_retry, of fl] by auto
next
  case (still_blocked h1 w1 h2 w2)
  then show ?thesis using assms page_body_still_blocked[OF still_blocked, of fl] by auto
next
  case (recovered h1 w1 h2 w2)
  have "finish_page cfg fl (snd (parse_search_page cfg h2 IDEALISTA_DOMAIN)) (st\<lparr>world := w2\<rparr>)
      = Inr (out, ctl, st')"
    using assms page_body_recovered[OF recovered, of fl] by simp
  from finish_page_control[OF this] show ?thesis by auto
qed

lemma page_body_pages:
  assumes "page_body cfg fl p st = Inr (out, ctl, st')"
  shows "pages_requested (trace (world st')) = pages_requested (trace (world st)) @ [p]
       \<or> pages_requested (trace (world st')) = pages_requested (trace (world st)) @ [p, p]"
proof (cases rule: page_body_cases[of cfg p st])
  case (failed_first h1 s1 w1)
  then show ?thesis using assms page_body_failed_first[OF failed_first, of fl]
      page_fetch_trace(2)[OF failed_first(1)] by auto
next
  case (not_blocked h1 w1)
  have "finish_page cfg fl (snd (parse_search_page cfg h1 IDEALISTA_DOMAIN)) (st\<lparr>world := w1\<rparr>)
      = Inr (out, ctl, st')"
    using assms page_body_not_blocked[OF not_blocked, of fl] by simp
  from finish_page_effects(1)[OF this]
  have "pages_requested (trace (world st')) = pages_requested (trace w1)" by simp
  then show ?thesis using page_fetch_trace(2)[OF not_blocked(1)] by simp
next
  case (failed_retry h1 w1 h2 s2 w2)
  then show ?thesis using assms page_body_failed_retry[OF failed_retry, of fl]
      page_fetch_trace(2)[OF failed_retry(1)] page_fetch_trace(2)[OF failed_retry(3)] by auto
next
  case (still_blocked h1 w1 h2 w2)
  then show ?thesis using assms page_body_still_blocked[OF still_blocked, of fl]
      page_fetch_trace(2)[OF still_blocked(1)] page_fetch_trace(2)[OF still_blocked(3)] by auto
next
  case (recovered h1 w1 h2 w2)
  have "finish_page cfg fl (snd (parse_search_page cfg h2 IDEALISTA_DOMAIN)) (st\<lparr>world := w2\<rparr>)
      = Inr (out, ctl, st')"
    using assms page_body_recovered[OF recovered, of fl] by simp
  from finish_page_effects(1)[OF this]
  have "pages_requested (trace (world st')) = pages_requested (trace w2)" by simp
  then show ?thesis using page_fetch_trace(2)[OF recovered(1)] page_fetch_trace(2)[OF recovered(3)]
    by simp
qed

lemma page_body_records:
  assumes "page_body cfg fl p st = Inr (out, ctl, st')"
  shows "\<exists>new. results st' = results st @ new \<and>
       records_of (trace (world st')) = records_of (trace (world st)) @ (if on_record cfg then new else []) \<and>
       (\<forall>r\<in>set new. normalize_listing_link (link (rec_card r)) \<notin> already_seen cfg)"
proof (cases rule: page_body_cases[of cfg p st])
  case (failed_first h1 s1 w1)
  then have "st' = st\<lparr>world := w1, consecutive_blocked := 0\<rparr>"
    using assms page_body_failed_first[OF failed_first, of fl] by simp
  then show ?thesis using page_fetch_trace(1)[OF failed_first(1)]
    by (intro exI[of _ "[]"]) simp
next
  case (not_blocked h1 w1)
  have "finish_page cfg fl (snd (parse_search_page cfg h1 IDEALISTA_DOMAIN)) (st\<lparr>world := w1\<rparr>)
      = Inr (out, ctl, st')"
    using assms page_body_not_blocked[OF not_blocked, of fl] by simp
  from finish_page_effects(2)[OF this]
  obtain new where "results st' = results (st\<lparr>world := w1\<rparr>) @ new"
      "records_of (trace (world st')) = records_of (trace (world (st\<lparr>world := w1\<rparr>))) @ (if on_record cfg then new else [])"
      "\<forall>r\<in>set new. normalize_listing_link (link (rec_card r)) \<notin> already_seen cfg"
    by blast
  then show ?thesis using page_fetch_trace(1)[OF not_blocked(1)]
    by (intro exI[of _ new]) simp
next
  case (failed_retry h1 w1 h2 s2 w2)
  then have "st' = st\<lparr>world := w2, consecutive_blocked := 0\<rparr>"
    using assms page_body_failed_retry[OF failed_retry, of fl] by simp
  then show ?thesis using page_fetch_trace(1)[OF failed_retry(1)] page_fetch_trace(1)[OF failed_retry(3)]
    by (intro exI[of _ "[]"]) simp
next
  case (still_blocked h1 w1 h2 w2)
  then have "st' = st\<lparr>world := w2, consecutive_blocked := Suc (consecutive_blocked st)\<rparr>"
    using assms page_body_still_blocked[OF still_blocked, of fl] by simp
  then show ?thesis using page_fetch_trace(1)[OF still_blocked(1)] page_fetch_trace(1)[OF still_blocked(3)]
    by (intro exI[of _ "[]"]) simp
next
  case (recovered h1 w1 h2 w2)
  have "finish_page cfg fl (snd (parse_search_page cfg h2 IDEALISTA_DOMAIN)) (st\<lparr>world := w2\<rparr>)
      = Inr (out, ctl, st')"
    using assms page_body_recovered[OF recovered, of fl] by simp
  from finish_page_effects(2)[OF this]
  obtain new where "results st' = results (st\<lparr>world := w2\<rparr>) @ new"
      "records_of (trace (world st')) = records_of (trace (world (st\<lparr>world := w2\<rparr>))) @ (if on_record cfg then new else [])"
      "\<forall>r\<in>set new. normalize_listing_link (link (rec_card r)) \<notin> already_seen cfg"
    by blast
  then show ?thesis using page_fetch_trace(1)[OF recovered(1)] page_fetch_trace(1)[OF recovered(3)]
    by (intro exI[of _ new]) simp
qed

text \<open>When the outcome is a block that survived the retry, and when it is a failure.\<close>

lemma page_body_still_blocked_iff:
  "(\<exists>ctl st'. page_body cfg fl p st = Inr (StillBlocked, ctl, st')) =
   (\<exists>h1 w1 h2 w2. page_fetch cfg p (page_delay cfg (world st)) = Inr ((h1, 200), w1) \<and>
      looks_blocked cfg h1 \<and>
      page_fetch cfg p (before_retry cfg w1) = Inr ((h2, 200), w2) \<and> looks_blocked cfg h2)"
proof
  assume "\<exists>ctl st'. page_body cfg fl p st = Inr (StillBlocked, ctl, st')"
  then obtain ctl st' where b: "page_body cfg fl p st = Inr (StillBlocked, ctl, st')" by blast
  show "\<exists>h1 w1 h2 w2. page_fetch cfg p (page_delay cfg (world st)) = Inr ((h1, 200), w1) \<and>
      looks_blocked cfg h1 \<and>
      page_fetch cfg p (before_retry cfg w1) = Inr ((h2, 200), w2) \<and> looks_blocked cfg h2"
  proof (cases rule: page_body_cases[of cfg p st])
    case (failed_first h1 s1 w1)
    then show ?thesis using b page_body_failed_first[OF failed_first, of fl] by simp
  next
    case (not_blocked h1 w1)
    have "finish_page cfg fl (snd (parse_search_page cfg h1 IDEALISTA_DOMAIN)) (st\<lparr>world := w1\<rparr>)
        = Inr (StillBlocked, ctl, st')"
      using b page_body_not_blocked[OF not_blocked, of fl] by simp
    from finish_page_control[OF this] show ?thesis by simp
  next
    case (failed_retry h1 w1 h2 s2 w2)
    then show ?thesis using b page_body_failed_retry[OF failed_retry, of fl] by simp
  next
    case (still_blocked h1 w1 h2 w2)
    then show ?thesis by blast
  next
    case (recovered h1 w1 h2 w2)
    have "finish_page cfg fl (snd (parse_search_page cfg h2 IDEALISTA_DOMAIN)) (st\<lparr>world := w2\<rparr>)
        = Inr (StillBlocked, ctl, st')"
      using b page_body_recovered[OF recovered, of fl] by simp
    from finish_page_control[OF this] show ?thesis by simp
  qed
next
  assume "\<exists>h1 w1 h2 w2. page_fetch cfg p (page_delay cfg (world st)) = Inr ((h1, 200), w1) \<and>
      looks_blocked cfg h1 \<and>
      page_fetch cfg p (before_retry cfg w1) = Inr ((h2, 200), w2) \<and> looks_blocked cfg h2"
  then show "\<exists>ctl st'. page_body cfg fl p st = Inr (StillBlocked, ctl, st')"
    using page_body_still_blocked by blast
qed

lemma page_body_failed_iff:
  "(\<exists>ctl st'. page_body cfg fl p st = Inr (Failed, ctl, st')) =
   (\<exists>h1 s1 w1. page_fetch cfg p (page_delay cfg (world st)) = Inr ((h1, s1), w1) \<and>
      (s1 \<noteq> 200 \<or> (looks_blocked cfg h1 \<and>
         (\<exists>h2 s2 w2. page_fetch cfg p (before_retry cfg w1) = Inr ((h2, s2), w2) \<and> s2 \<noteq> 200))))"
proof
  assume "\<exists>ctl st'. page_body cfg fl p st = Inr (Failed, ctl, st')"
  then obtain ctl st' where b: "page_body cfg fl p st = Inr (Failed, ctl, st')" by blast
  show "\<exists>h1 s1 w1. page_fetch cfg p (page_delay cfg (world st)) = Inr ((h1, s1), w1) \<and>
      (s1 \<noteq> 200 \<or> (looks_blocked cfg h1 \<and>
         (\<exists>h2 s2 w2. page_fetch cfg p (before_retry cfg w1) = Inr ((h2, s2), w2) \<and> s2 \<noteq> 200)))"
  proof (cases rule: page_body_cases[of cfg p st])
    case (failed_first h1 s1 w1)
    then show ?thesis by blast
  next
    case (not_blocked h1 w1)
    have "finish_page cfg fl (snd (parse_search_page cfg h1 IDEALISTA_DOMAIN)) (st\<lparr>world := w1\<rparr>)
        = Inr (Failed, ctl, st')"
      using b page_body_not_blocked[OF not_blocked, of fl] by simp
    from finish_page_control[OF this] show ?thesis by simp
  next
    case (failed_retry h1 w1 h2 s2 w2)
    then show ?thesis by blast
  next
    case (still_blocked h1 w1 h2 w2)
    then show ?thesis using b page_body_still_blocked[OF still_blocked, of fl] by simp
  next
    case (recovered h1 w1 h2 w2)
    have "finish_page cfg fl (snd (parse_search_page cfg h2 IDEALISTA_DOMAIN)) (st\<lparr>world := w2\<rparr>)
        = Inr (Failed, ctl, st')"
      using b page_body_recovered[OF recovered, of fl] by simp
    from finish_page_control[OF this] show ?thesis by simp
  qed
next
  assume "\<exists>h1 s1 w1. page_fetch cfg p (page_delay cfg (world st)) = Inr ((h1, s1), w1) \<and>
      (s1 \<noteq> 200 \<or> (looks_blocked cfg h1 \<and>
         (\<exists>h2 s2 w2. page_fetch cfg p (before_retry cfg w1) = Inr ((h2, s2), w2) \<and> s2 \<noteq> 200)))"
  then obtain h1 s1 w1 where f: "page_fetch cfg p (page_delay cfg (world st)) = Inr ((h1, s1), w1)"
     and d: "s1 \<noteq> 200 \<or> (looks_blocked cfg h1 \<and>
         (\<exists>h2 s2 w2. page_fetch cfg p (before_retry cfg w1) = Inr ((h2, s2), w2) \<and> s2 \<noteq> 200))"
    by blast
  show "\<exists>ctl st'. page_body cfg fl p st = Inr (Failed, ctl, st')"
  proof (cases "s1 = 200")
    case False
    then show ?thesis using page_body_failed_first[OF f] by blast
  next
    case True
    then show ?thesis using d f page_body_failed_retry by blast
  qed
qed

section \<open>The loop over the pages\<close>

lemma page_loop_skip:
  "p < sp \<Longrightarrow> page_loop cfg fl sp (p # rest) st = page_loop cfg fl sp rest st"
  by simp

lemma page_loop_break:
  "\<not> p < sp \<Longrightarrow> page_body cfg fl p st = Inr (out, Break, st') \<Longrightarrow>
     page_loop cfg fl sp (p # rest) st = Inr st'"
  by simp

lemma page_loop_continue:
  "\<not> p < sp \<Longrightarrow> page_body cfg fl p st = Inr (out, Continue, st') \<Longrightarrow>
     page_loop cfg fl sp (p # rest) st = page_loop cfg fl sp rest st'"
  by simp

lemma page_loop_total: "\<exists>st'. page_loop cfg fl sp ps st = Inr st'"
proof (induction ps arbitrary: st)
  case Nil
  show ?case by simp
next
  case (Cons p ps)
  show ?case
  proof (cases "p < sp")
    case True
    then show ?thesis using Cons.IH by (simp only: page_loop_skip)
  next
    case False
    obtain out ctl st1 where b: "page_body cfg fl p st = Inr (out, ctl, st1)"
      using page_body_total by blast
    show ?thesis
    proof (cases ctl)
      case Continue
      then show ?thesis using Cons.IH page_loop_continue[OF False] b by metis
    next
      case Break
      then show ?thesis using page_loop_break[OF False] b by metis
    qed
  qed
qed

lemma page_loop_pages:
  "page_loop cfg fl sp ps st = Inr st' \<Longrightarrow>
     set (pages_requested (trace (world st')))
       \<subseteq> set (pages_requested (trace (world st))) \<union> {p \<in> set ps. sp \<le> p}"
proof (induction ps arbitrary: st)
  case Nil
  then show ?case by simp
next
  case (Cons p ps)
  show ?case
  proof (cases "p < sp")
    case True
    then have "page_loop cfg fl sp ps st = Inr st'" using Cons.prems by (simp only: page_loop_skip)
    then have "set (pages_requested (trace (world st')))
       \<subseteq> set (pages_requested (trace (world st))) \<union> {p \<in> set ps. sp \<le> p}"
      by (rule Cons.IH)
    then show ?thesis by auto
  next
    case False
    obtain out ctl st1 where b: "page_body cfg fl p st = Inr (out, ctl, st1)"
      using page_body_total by blast
    have s1: "set (pages_requested (trace (world st1))) = insert p (set (pages_requested (trace (world st))))"
      using page_body_pages[OF b] by auto
    show ?thesis
    proof (cases ctl)
      case Continue
      then have "page_loop cfg fl sp ps st1 = Inr st'"
        using Cons.prems page_loop_continue[OF False] b by metis
      then have "set (pages_requested (trace (world st')))
         \<subseteq> set (pages_requested (trace (world st1))) \<union> {p \<in> set ps. sp \<le> p}"
        by (rule Cons.IH)
      then show ?thesis using s1 False by auto
    next
      case Break
      then have "st' = st1" using Cons.prems page_loop_break[OF False] b by (metis Inr_inject)
      then show ?thesis using s1 False by auto
    qed
  qed
qed

lemma page_loop_records:
  "page_loop cfg fl sp ps st = Inr st' \<Longrightarrow>
     \<exists>new. results st' = results st @ new \<and>
       records_of (trace (world st')) = records_of (trace (world st)) @ (if on_record cfg then new else []) \<and>
       (\<forall>r\<in>set new. normalize_listing_link (link (rec_card r)) \<notin> already_seen cfg)"
proof (induction ps arbitrary: st)
  case Nil
  then show ?case by simp
next
  case (Cons p ps)
  show ?case
  proof (cases "p < sp")
    case True
    then have "page_loop cfg fl sp ps st = Inr st'" using Cons.prems by (simp only: page_loop_skip)
    then show ?thesis by (rule Cons.IH)
  next
    case False
    obtain out ctl st1 where b: "page_body cfg fl p st = Inr (out, ctl, st1)"
      using page_body_total by blast
    obtain new1 where n1: "results st1 = results st @ new1"
       "records_of (trace (world st1)) = records_of (trace (world st)) @ (if on_record cfg then new1 else [])"
       "\<forall>r\<in>set new1. normalize_listing_link (link (rec_card r)) \<notin> already_seen cfg"
      using page_body_records[OF b] by blast
    show ?thesis
    proof (cases ctl)
      case Continue
      then have "page_loop cfg fl sp ps st1 = Inr st'"
        using Cons.prems page_loop_continue[OF False] b by metis
      then obtain new2 where n2: "results st' = results st1 @ new2"
       "records_of (trace (world st')) = records_of (trace (world st1)) @ (if on_record cfg then new2 else [])"
       "\<forall>r\<in>set new2. normalize_listing_link (link (rec_card r)) \<notin> already_seen cfg"
        using Cons.IH by blast
      have "results st' = results st @ (new1 @ new2)" using n1(1) n2(1) by simp
      moreover have "records_of (trace (world st'))
          = records_of (trace (world st)) @ (if on_record cfg then new1 @ new2 else [])"
        using n1(2) n2(2) by simp
      moreover have "\<forall>r\<in>set (new1 @ new2). normalize_listing_link (link (rec_card r)) \<notin> already_seen cfg"
        using n1(3) n2(3) by auto
      ultimately show ?thesis by blast
    next
      case Break
      then have "st' = st1" using Cons.prems page_loop_break[OF False] b by (metis Inr_inject)
      then show ?thesis using n1 by blast
    qed
  qed
qed

section \<open>The run as a whole\<close>

lemma first_page_fetch_total:
  "\<exists>html status w1. first_page_fetch cfg w = Inr ((html, status), w1)"
  unfolding first_page_fetch_def by (rule fetch_default_total)

lemma first_page_fetch_trace:
  assumes "first_page_fetch cfg w = Inr (res, w1)"
  shows "records_of (trace w1) = records_of (trace w)"
    and "requests_of (trace w1) = requests_of (trace w) @ [FirstPage]"
    and "pages_requested (trace w1) = pages_requested (trace w)"
  using fetch_html_with_retry_trace[OF assms[unfolded first_page_fetch_def]] by simp_all


lemma run_blocked:
  assumes "first_page_fetch cfg w = Inr ((html, status), w1)"
    "first_page_blocked (parse_search_page cfg) html status"
  shows "run_with_fetcher cfg w = Inl (RuntimeError status, w1)"
  using assms by (simp add: run_with_fetcher_def)

lemma run_cards_only:
  assumes "first_page_fetch cfg w = Inr ((html, status), w1)"
    "\<not> first_page_blocked (parse_search_page cfg) html status" "\<not> fetch_details cfg"
  shows "run_with_fetcher cfg w
    = Inr (emit_cards (on_record cfg)
             (dedupe_unique (already_seen cfg) (snd (parse_search_page cfg html IDEALISTA_DOMAIN)))
             (initial_state w1 (snd (parse_search_page cfg html IDEALISTA_DOMAIN))))"
  using assms by (simp add: run_with_fetcher_def initial_state_def Let_def split: prod.splits)

lemma run_details:
  assumes "first_page_fetch cfg w = Inr ((html, status), w1)"
    "\<not> first_page_blocked (parse_search_page cfg) html status" "fetch_details cfg"
  shows "run_with_fetcher cfg w
    = (case (if resume_start_page (already_seen cfg)
                 (compute_total_pages (fst (parse_search_page cfg html IDEALISTA_DOMAIN)) (max_pages cfg)) \<le> 1
             then process_new cfg (initial_state w1 (snd (parse_search_page cfg html IDEALISTA_DOMAIN)))
             else Inr (initial_state w1 (snd (parse_search_page cfg html IDEALISTA_DOMAIN)))) of
         Inl e \<Rightarrow> Inl e
       | Inr st1 \<Rightarrow>
           page_loop cfg
             (case snd (parse_search_page cfg html IDEALISTA_DOMAIN) of [] \<Rightarrow> None | c # cs \<Rightarrow> Some (link c))
             (resume_start_page (already_seen cfg)
                (compute_total_pages (fst (parse_search_page cfg html IDEALISTA_DOMAIN)) (max_pages cfg)))
             [2..compute_total_pages (fst (parse_search_page cfg html IDEALISTA_DOMAIN)) (max_pages cfg)]
             st1)"
proof -
  obtain tc pc where p: "parse_search_page cfg html IDEALISTA_DOMAIN = (tc, pc)"
    by (cases "parse_search_page cfg html IDEALISTA_DOMAIN")
  show ?thesis using assms
    by (simp add: run_with_fetcher_def initial_state_def Let_def p cong: sum.case_cong)
qed

lemma run_details_steps:
  assumes "first_page_fetch cfg w = Inr ((html, status), w1)"
    "\<not> first_page_blocked (parse_search_page cfg) html status" "fetch_details cfg"
  obtains st1 where
    "(if resume_start_page (already_seen cfg)
           (compute_total_pages (fst (parse_search_page cfg html IDEALISTA_DOMAIN)) (max_pages cfg)) \<le> 1
      then process_new cfg (initial_state w1 (snd (parse_search_page cfg html IDEALISTA_DOMAIN)))
      else Inr (initial_state w1 (snd (parse_search_page cfg html IDEALISTA_DOMAIN)))) = Inr st1"
    "run_with_fetcher cfg w
      = page_loop cfg (case snd (parse_search_page cfg html IDEALISTA_DOMAIN) of [] \<Rightarrow> None | c # cs \<Rightarrow> Some (link c))
          (resume_start_page (already_seen cfg)
             (compute_total_pages (fst (parse_search_page cfg html IDEALISTA_DOMAIN)) (max_pages cfg)))
          [2..compute_total_pages (fst (parse_search_page cfg html IDEALISTA_DOMAIN)) (max_pages cfg)] st1"
proof -
  let ?tp = "compute_total_pages (fst (parse_search_page cfg html IDEALISTA_DOMAIN)) (max_pages cfg)"
  let ?pc = "snd (parse_search_page cfg html IDEALISTA_DOMAIN)"
  let ?sp = "resume_start_page (already_seen cfg) ?tp"
  obtain st1 where s: "(if ?sp \<le> 1 then process_new cfg (initial_state w1 ?pc)
      else Inr (initial_state w1 ?pc)) = Inr st1"
    using process_new_total by (metis)
  have "run_with_fetcher cfg w
      = page_loop cfg (case ?pc of [] \<Rightarrow> None | c # cs \<Rightarrow> Some (link c)) ?sp [2..?tp] st1"
    using run_details[OF assms] s by simp
  then show thesis using s that by blast
qed

lemma initial_state_fields [simp]:
  "world (initial_state w1 pc) = w1" "results (initial_state w1 pc) = []"
  "all_cards (initial_state w1 pc) = pc" "consecutive_blocked (initial_state w1 pc) = 0"
  "processed_links (initial_state w1 pc) = {}"
  by (simp_all add: initial_state_def)

lemma run_total_iff:
  assumes "first_page_fetch cfg w = Inr ((html, status), w1)"
  shows "(\<exists>st. run_with_fetcher cfg w = Inr st) = (\<not> first_page_blocked (parse_search_page cfg) html status)"
proof (cases "first_page_blocked (parse_search_page cfg) html status")
  case True
  then show ?thesis using run_blocked[OF assms] by simp
next
  case False
  show ?thesis
  proof (cases "fetch_details cfg")
    case True
    obtain st1 where "run_with_fetcher cfg w
      = page_loop cfg (case snd (parse_search_page cfg html IDEALISTA_DOMAIN) of [] \<Rightarrow> None | c # cs \<Rightarrow> Some (link c))
          (resume_start_page (already_seen cfg)
             (compute_total_pages (fst (parse_search_page cfg html IDEALISTA_DOMAIN)) (max_pages cfg)))
          [2..compute_total_pages (fst (parse_search_page cfg html IDEALISTA_DOMAIN)) (max_pages cfg)] st1"
      using run_details_steps[OF assms False True] by blast
    then show ?thesis using False page_loop_total by metis
  next
    case nd: False
    show ?thesis using run_cards_only[OF assms False nd] False by simp
  qed
qed

lemma run_records:
  assumes "run_with_fetcher cfg w = Inr st"
  shows "records_of (trace (world st)) = records_of (trace w) @ (if on_record cfg then results st else [])"
    and "\<forall>r\<in>set (results st). normalize_listing_link (link (rec_card r)) \<notin> already_seen cfg"
proof -
  obtain html status w1 where f: "first_page_fetch cfg w = Inr ((html, status), w1)"
    using first_page_fetch_total by blast
  have nb: "\<not> first_page_blocked (parse_search_page cfg) html status"
    using run_total_iff[OF f] assms by blast
  have w1: "records_of (trace w1) = records_of (trace w)"
    using first_page_fetch_trace(1)[OF f] .
  let ?pc = "snd (parse_search_page cfg html IDEALISTA_DOMAIN)"
  have both: "records_of (trace (world st)) = records_of (trace w) @ (if on_record cfg then results st else [])
     \<and> (\<forall>r\<in>set (results st). normalize_listing_link (link (rec_card r)) \<notin> already_seen cfg)"
  proof (cases "fetch_details cfg")
    case False
    let ?cs = "dedupe_unique (already_seen cfg) ?pc"
    have st: "st = emit_cards (on_record cfg) ?cs (initial_state w1 ?pc)"
      using run_cards_only[OF f nb False] assms by simp
    have r: "results st = map (\<lambda>c. card_record c (normalize_listing_link (link c))) ?cs"
      unfolding st using emit_cards_records[of "on_record cfg" ?cs "initial_state w1 ?pc"] by simp
    have t: "records_of (trace (world st)) = records_of (trace w1) @
        (if on_record cfg then map (\<lambda>c. card_record c (normalize_listing_link (link c))) ?cs else [])"
      unfolding st using emit_cards_records[of "on_record cfg" ?cs "initial_state w1 ?pc"] by simp
    have "\<forall>r\<in>set (results st). normalize_listing_link (link (rec_card r)) \<notin> already_seen cfg"
    proof
      fix x assume "x \<in> set (results st)"
      then obtain c where c: "c \<in> set ?cs" "x = card_record c (normalize_listing_link (link c))"
        unfolding r by auto
      then have "normalize_listing_link (link c) \<notin> already_seen cfg"
        using dedupe_unique_sound by blast
      then show "normalize_listing_link (link (rec_card x)) \<notin> already_seen cfg"
        unfolding c(2) by (simp add: normalize_idempotent)
    qed
    then show ?thesis using t r w1 by simp
  next
    case True
    let ?tp = "compute_total_pages (fst (parse_search_page cfg html IDEALISTA_DOMAIN)) (max_pages cfg)"
    let ?sp = "resume_start_page (already_seen cfg) ?tp"
    let ?fl = "case ?pc of [] \<Rightarrow> None | c # cs \<Rightarrow> Some (link c)"
    obtain st1 where s1: "(if ?sp \<le> 1 then process_new cfg (initial_state w1 ?pc)
         else Inr (initial_state w1 ?pc)) = Inr st1"
      and run: "run_with_fetcher cfg w = page_loop cfg ?fl ?sp [2..?tp] st1"
      using run_details_steps[OF f nb True] by blast
    obtain new1 where n1: "results st1 = results (initial_state w1 ?pc) @ new1"
       "records_of (trace (world st1)) = records_of (trace (world (initial_state w1 ?pc))) @ (if on_record cfg then new1 else [])"
       "\<forall>r\<in>set new1. normalize_listing_link (link (rec_card r)) \<notin> already_seen cfg"
    proof (cases "?sp \<le> 1")
      case True
      then have "process_new cfg (initial_state w1 ?pc) = Inr st1" using s1 by simp
      then show ?thesis using process_new_records that by blast
    next
      case False
      then have "st1 = initial_state w1 ?pc" using s1 by simp
      then show ?thesis using that[of "[]"] by simp
    qed
    have "page_loop cfg ?fl ?sp [2..?tp] st1 = Inr st" using run assms by simp
    then obtain new2 where n2: "results st = results st1 @ new2"
       "records_of (trace (world st)) = records_of (trace (world st1)) @ (if on_record cfg then new2 else [])"
       "\<forall>r\<in>set new2. normalize_listing_link (link (rec_card r)) \<notin> already_seen cfg"
      using page_loop_records by blast
    have "results st = new1 @ new2" using n1(1) n2(1) by simp
    moreover have "records_of (trace (world st)) = records_of (trace w) @ (if on_record cfg then new1 @ new2 else [])"
      using n1(2) n2(2) w1 by simp
    ultimately show ?thesis using n1(3) n2(3) by auto
  qed
  from both show "records_of (trace (world st)) = records_of (trace w) @ (if on_record cfg then results st else [])"
    by (rule conjunct1)
  from both show "\<forall>r\<in>set (results st). normalize_listing_link (link (rec_card r)) \<notin> already_seen cfg"
    by (rule conjunct2)
qed

lemma run_error_records:
  assumes "run_with_fetcher cfg w = Inl (e, w')"
  shows "records_of (trace w') = records_of (trace w)"
proof -
  obtain html status w1 where f: "first_page_fetch cfg w = Inr ((html, status), w1)"
    using first_page_fetch_total by blast
  have "first_page_blocked (parse_search_page cfg) html status"
    using run_total_iff[OF f] assms by (metis Inl_Inr_False)
  then have "w' = w1" using run_blocked[OF f] assms by simp
  then show ?thesis using first_page_fetch_trace(1)[OF f] by simp
qed

lemma run_pages:
  assumes "first_page_fetch cfg w = Inr ((html, status), w1)" "run_with_fetcher cfg w = Inr st"
  shows "set (pages_requested (trace (world st))) \<subseteq> set (pages_requested (trace w)) \<union>
     {p. 2 \<le> p \<and> p \<le> compute_total_pages (fst (parse_search_page cfg html IDEALISTA_DOMAIN)) (max_pages cfg) \<and>
         resume_start_page (already_seen cfg)
           (compute_total_pages (fst (parse_search_page cfg html IDEALISTA_DOMAIN)) (max_pages cfg)) \<le> p}"
    and "\<not> fetch_details cfg \<Longrightarrow> pages_requested (trace (world st)) = pages_requested (trace w)"
proof -
  have nb: "\<not> first_page_blocked (parse_search_page cfg) html status"
    using run_total_iff[OF assms(1)] assms(2) by blast
  have w1: "pages_requested (trace w1) = pages_requested (trace w)"
    using first_page_fetch_trace(3)[OF assms(1)] .
  let ?pc = "snd (parse_search_page cfg html IDEALISTA_DOMAIN)"
  let ?tp = "compute_total_pages (fst (parse_search_page cfg html IDEALISTA_DOMAIN)) (max_pages cfg)"
  let ?sp = "resume_start_page (already_seen cfg) ?tp"
  let ?fl = "case ?pc of [] \<Rightarrow> None | c # cs \<Rightarrow> Some (link c)"
  show nd: "\<not> fetch_details cfg \<Longrightarrow> pages_requested (trace (world st)) = pages_requested (trace w)"
  proof -
    assume d: "\<not> fetch_details cfg"
    let ?cs = "dedupe_unique (already_seen cfg) ?pc"
    have st: "st = emit_cards (on_record cfg) ?cs (initial_state w1 ?pc)"
      using run_cards_only[OF assms(1) nb d] assms(2) by simp
    have "requests_of (trace (world st)) = requests_of (trace w1)"
      unfolding st using emit_cards_records[of "on_record cfg" ?cs "initial_state w1 ?pc"] by simp
    then show ?thesis using w1 by (simp add: pages_requested_def)
  qed
  show "set (pages_requested (trace (world st))) \<subseteq> set (pages_requested (trace w)) \<union>
     {p. 2 \<le> p \<and> p \<le> ?tp \<and> ?sp \<le> p}"
  proof (cases "fetch_details cfg")
    case False
    then show ?thesis using nd by simp
  next
    case True
    obtain st1 where s1: "(if ?sp \<le> 1 then process_new cfg (initial_state w1 ?pc)
         else Inr (initial_state w1 ?pc)) = Inr st1"
      and run: "run_with_fetcher cfg w = page_loop cfg ?fl ?sp [2..?tp] st1"
      using run_details_steps[OF assms(1) nb True] by blast
    have p1: "pages_requested (trace (world st1)) = pages_requested (trace w1)"
    proof (cases "?sp \<le> 1")
      case True
      then have "process_new cfg (initial_state w1 ?pc) = Inr st1" using s1 by simp
      then show ?thesis using process_new_frame by fastforce
    next
      case False
      then have "st1 = initial_state w1 ?pc" using s1 by simp
      then show ?thesis by simp
    qed
    have "page_loop cfg ?fl ?sp [2..?tp] st1 = Inr st" using run assms(2) by simp
    then have "set (pages_requested (trace (world st)))
       \<subseteq> set (pages_requested (trace (world st1))) \<union> {p \<in> set [2..?tp]. ?sp \<le> p}"
      by (rule page_loop_pages)
    then show ?thesis using p1 w1 by auto
  qed
qed

text \<open>The trace only grows.\<close>

lemma emit_cards_prefix: "prefix (trace (world st)) (trace (world (emit_cards cb cs st)))"
proof (induction cs arbitrary: st)
  case Nil
  show ?case by simp
next
  case (Cons c cs)
  have "prefix (trace (world st)) (trace (world (emit cb (card_record c (normalize_listing_link (link c))) st)))"
    by simp
  then show ?case using Cons prefix_order.trans by fastforce
qed

lemma finish_page_prefix:
  assumes "finish_page cfg fl cards st = Inr (out, ctl, st')"
  shows "prefix (trace (world st)) (trace (world st'))"
proof -
  let ?st1 = "st\<lparr>consecutive_blocked := 0, all_cards := all_cards st @ cards\<rparr>"
  obtain st2 where p: "process_new cfg ?st1 = Inr st2"
    using process_new_total by blast
  have f: "prefix (trace (world ?st1)) (trace (world st2))"
    using process_new_frame[OF p] by simp
  consider "st' = st" | "st' = st\<lparr>consecutive_blocked := 0\<rparr>" | "st' = st2"
    using assms p by (auto simp: finish_page_def split: if_splits)
  then show ?thesis using f by cases simp_all
qed

lemma page_fetch_prefix:
  assumes "page_fetch cfg p w = Inr (res, w')"
  shows "prefix (trace w) (trace w')"
  using fetch_html_with_retry_trace(4)[OF assms[unfolded page_fetch_def]]
  by (auto dest: append_prefixD)

lemma page_delay_prefix: "prefix (trace w) (trace (page_delay cfg w))"
  by (simp add: page_delay_def)

lemma before_retry_prefix: "prefix (trace w) (trace (before_retry cfg w))"
  by (simp add: before_retry_def)

lemma page_body_prefix:
  assumes "page_body cfg fl p st = Inr (out, ctl, st')"
  shows "prefix (trace (world st)) (trace (world st'))"
proof -
  have first: "\<And>r w1. page_fetch cfg p (page_delay cfg (world st)) = Inr (r, w1) \<Longrightarrow>
      prefix (trace (world st)) (trace w1)"
    using page_fetch_prefix page_delay_prefix prefix_order.trans by blast
  have second: "prefix (trace (world st)) (trace w2)"
    if "page_fetch cfg p (page_delay cfg (world st)) = Inr (r, w1)"
      "page_fetch cfg p (before_retry cfg w1) = Inr (r2, w2)" for r w1 r2 w2
  proof -
    have "prefix (trace (world st)) (trace w1)" using first that(1) .
    also have "prefix (trace w1) (trace (before_retry cfg w1))" by (rule before_retry_prefix)
    also have "prefix (trace (before_retry cfg w1)) (trace w2)" using that(2) by (rule page_fetch_prefix)
    finally show ?thesis .
  qed
  show ?thesis
  proof (cases rule: page_body_cases[of cfg p st])
    case (failed_first h1 s1 w1)
    then show ?thesis using assms page_body_failed_first[OF failed_first, of fl] first by auto
  next
    case (not_blocked h1 w1)
    have "finish_page cfg fl (snd (parse_search_page cfg h1 IDEALISTA_DOMAIN)) (st\<lparr>world := w1\<rparr>)
        = Inr (out, ctl, st')"
      using assms page_body_not_blocked[OF not_blocked, of fl] by simp
    from finish_page_prefix[OF this] have "prefix (trace w1) (trace (world st'))" by simp
    then show ?thesis using first[OF not_blocked(1)] prefix_order.trans by blast
  next
    case (failed_retry h1 w1 h2 s2 w2)
    then show ?thesis using assms page_body_failed_retry[OF failed_retry, of fl] second by auto
  next
    case (still_blocked h1 w1 h2 w2)
    then show ?thesis using assms page_body_still_blocked[OF still_blocked, of fl] second by auto
  next
    case (recovered h1 w1 h2 w2)
    have "finish_page cfg fl (snd (parse_search_page cfg h2 IDEALISTA_DOMAIN)) (st\<lparr>world := w2\<rparr>)
        = Inr (out, ctl, st')"
      using assms page_body_recovered[OF recovered, of fl] by simp
    from finish_page_prefix[OF this] have "prefix (trace w2) (trace (world st'))" by simp
    then show ?thesis using second[OF recovered(1) recovered(3)] prefix_order.trans by blast
  qed
qed

lemma page_loop_prefix:
  "page_loop cfg fl sp ps st = Inr st' \<Longrightarrow> prefix (trace (world st)) (trace (world st'))"
proof (induction ps arbitrary: st)
  case Nil
  then show ?case by simp
next
  case (Cons p ps)
  show ?case
  proof (cases "p < sp")
    case True
    then have "page_loop cfg fl sp ps st = Inr st'" using Cons.prems by (simp only: page_loop_skip)
    then show ?thesis by (rule Cons.IH)
  next
    case False
    obtain out ctl st1 where b: "page_body cfg fl p st = Inr (out, ctl, st1)"
      using page_body_total by blast
    have p1: "prefix (trace (world st)) (trace (world st1))" using page_body_prefix[OF b] .
    show ?thesis
    proof (cases ctl)
      case Continue
      then have "page_loop cfg fl sp ps st1 = Inr st'"
        using Cons.prems page_loop_continue[OF False] b by metis
      then have "prefix (trace (world st1)) (trace (world st'))" by (rule Cons.IH)
      then show ?thesis using p1 prefix_order.trans by blast
    next
      case Break
      then have "st' = st1" using Cons.prems page_loop_break[OF False] b by (metis Inr_inject)
      then show ?thesis using p1 by simp
    qed
  qed
qed

lemma requests_of_prefix: "prefix a b \<Longrightarrow> prefix (requests_of a) (requests_of b)"
  by (auto simp: prefix_def)

lemma run_first_page_requested:
  assumes "run_with_fetcher cfg w = Inr st"
  shows "prefix (requests_of (trace w) @ [FirstPage]) (requests_of (trace (world st)))"
proof -
  obtain html status w1 where f: "first_page_fetch cfg w = Inr ((html, status), w1)"
    using first_page_fetch_total by blast
  have nb: "\<not> first_page_blocked (parse_search_page cfg) html status"
    using run_total_iff[OF f] assms by blast
  let ?pc = "snd (parse_search_page cfg html IDEALISTA_DOMAIN)"
  have "prefix (trace w1) (trace (world st))"
  proof (cases "fetch_details cfg")
    case False
    have "st = emit_cards (on_record cfg) (dedupe_unique (already_seen cfg) ?pc) (initial_state w1 ?pc)"
      using run_cards_only[OF f nb False] assms by simp
    then show ?thesis
      using emit_cards_prefix[of "initial_state w1 ?pc" "on_record cfg" "dedupe_unique (already_seen cfg) ?pc"]
      by simp
  next
    case True
    let ?tp = "compute_total_pages (fst (parse_search_page cfg html IDEALISTA_DOMAIN)) (max_pages cfg)"
    let ?sp = "resume_start_page (already_seen cfg) ?tp"
    let ?fl = "case ?pc of [] \<Rightarrow> None | c # cs \<Rightarrow> Some (link c)"
    obtain st1 where s1: "(if ?sp \<le> 1 then process_new cfg (initial_state w1 ?pc)
         else Inr (initial_state w1 ?pc)) = Inr st1"
      and run: "run_with_fetcher cfg w = page_loop cfg ?fl ?sp [2..?tp] st1"
      using run_details_steps[OF f nb True] by blast
    have p1: "prefix (trace w1) (trace (world st1))"
    proof (cases "?sp \<le> 1")
      case True
      then have "process_new cfg (initial_state w1 ?pc) = Inr st1" using s1 by simp
      from process_new_frame[OF this] show ?thesis by simp
    next
      case False
      then have "st1 = initial_state w1 ?pc" using s1 by simp
      then show ?thesis by simp
    qed
    have "page_loop cfg ?fl ?sp [2..?tp] st1 = Inr st" using run assms by simp
    then have "prefix (trace (world st1)) (trace (world st))" by (rule page_loop_prefix)
    then show ?thesis using p1 prefix_order.trans by blast
  qed
  then have "prefix (requests_of (trace w1)) (requests_of (trace (world st)))"
    by (rule requests_of_prefix)
  then show ?thesis using first_page_fetch_trace(2)[OF f] by simp
qed

section \<open>Concrete runs\<close>

text \<open>The runs of the small site, evaluated once.\<close>

lemma card_only_first_page:
  "first_page_fetch card_only_cfg world0
     = Inr ((''<html>page 1</html>'', 200),
            \<lparr>calls = 1, trace = [EvRequest FirstPage, EvFetch ''https://www.idealista.com/venta/'']\<rparr>)"
  by code_simp

lemma resume_first_page:
  "first_page_fetch resume_cfg world0
     = Inr ((''<html>page 1</html>'', 200),
            \<lparr>calls = 1, trace = [EvRequest FirstPage, EvFetch ''https://www.idealista.com/venta/'']\<rparr>)"
  by code_simp

lemma demo_total_pages:
  "compute_total_pages (fst (demo_parse ''<html>page 1</html>'' IDEALISTA_DOMAIN)) 2 = 2"
  by code_simp

lemma card_only_run:
  "run_with_fetcher card_only_cfg world0
     = Inr \<lparr>world = \<lparr>calls = 1, trace = [EvRequest FirstPage,
       EvFetch ''https://www.idealista.com/venta/'',
       EvRecord \<lparr>rec_card = \<lparr>listing_type = ''venta'', title = ''Piso A'',
       link = ''https://www.idealista.com/inmueble/101/'', price = None, currency = ''EUR'',
       rooms = None, sq_meters = None, location = [], description = [], tags = [],
       seller = None, seller_url = None\<rparr>, rec_detail = None\<rparr>,
       EvRecord \<lparr>rec_card = \<lparr>listing_type = ''venta'', title = ''Piso B'',
       link = ''https://www.idealista.com/inmueble/102/'', price = None, currency = ''EUR'',
       rooms = None, sq_meters = None, location = [], description = [], tags = [],
       seller = None, seller_url = None\<rparr>, rec_detail = None\<rparr>]\<rparr>,
       results = [\<lparr>rec_card = \<lparr>listing_type = ''venta'', title = ''Piso A'',
       link = ''https://www.idealista.com/inmueble/101/'', price = None, currency = ''EUR'',
       rooms = None, sq_meters = None, location = [], description = [], tags = [],
       seller = None, seller_url = None\<rparr>, rec_detail = None\<rparr>,
       \<lparr>rec_card = \<lparr>listing_type = ''venta'', title = ''Piso B'',
       link = ''https://www.idealista.com/inmueble/102/'', price = None, currency = ''EUR'',
       rooms = None, sq_meters = None, location = [], description = [], tags = [],
       seller = None, seller_url = None\<rparr>, rec_detail = None\<rparr>],
       processed_links = {}, all_cards = [\<lparr>listing_type = ''venta'', title = ''Piso A'',
       link = ''https://www.idealista.com/inmueble/101/'', price = None, currency = ''EUR'',
       rooms = None, sq_meters = None, location = [], description = [], tags = [],
       seller = None, seller_url = None\<rparr>, \<lparr>listing_type = ''venta'',
       title = ''Piso B'', link = ''https://www.idealista.com/en/inmueble/102/'', price = None,
       currency = ''EUR'', rooms = None, sq_meters = None, location = [], description = [],
       tags = [], seller = None, seller_url = None\<rparr>], consecutive_blocked = 0\<rparr>"
  by code_simp

lemma resume_run:
  "run_with_fetcher resume_cfg world0
     = Inr \<lparr>world = \<lparr>calls = 4, trace = [EvRequest FirstPage,
       EvFetch ''https://www.idealista.com/venta/'', EvRequest (SearchPage 2),
       EvFetch ''https://www.idealista.com/venta/pagina-2.htm'',
       EvRequest (DetailPage ''https://www.idealista.com/inmueble/102/''),
       EvFetch ''https://www.idealista.com/inmueble/102/'',
       EvRecord \<lparr>rec_card = \<lparr>listing_type = ''venta'', title = ''Piso B'',
       link = ''https://www.idealista.com/inmueble/102/'', price = None, currency = ''EUR'',
       rooms = Some 3, sq_meters = None, location = ''Sevilla'', description = [], tags = [],
       seller = None, seller_url = None\<rparr>,
       rec_detail = Some \<lparr>detail_url = ''https://www.idealista.com/inmueble/102/'',
       detail_title = [], detail_location = ''Sevilla'', detail_price = None,
       detail_currency = ''EUR'', detail_description = [], detail_updated = [],
       detail_features = [(''rooms'', [''3''])], detail_images = []\<rparr>\<rparr>,
       EvRequest (DetailPage ''https://www.idealista.com/inmueble/103/''),
       EvFetch ''https://www.idealista.com/inmueble/103/'',
       EvRecord \<lparr>rec_card = \<lparr>listing_type = ''venta'', title = ''Piso C'',
       link = ''https://www.idealista.com/inmueble/103/'', price = None, currency = ''EUR'',
       rooms = Some 3, sq_meters = None, location = ''Sevilla'', description = [], tags = [],
       seller = None, seller_url = None\<rparr>,
       rec_detail = Some \<lparr>detail_url = ''https://www.idealista.com/inmueble/103/'',
       detail_title = [], detail_location = ''Sevilla'', detail_price = None,
       detail_currency = ''EUR'', detail_description = [], detail_updated = [],
       detail_features = [(''rooms'', [''3''])], detail_images = []\<rparr>\<rparr>]\<rparr>,
       results = [\<lparr>rec_card = \<lparr>listing_type = ''venta'', title = ''Piso B'',
       link = ''https://www.idealista.com/inmueble/102/'', price = None, currency = ''EUR'',
       rooms = Some 3, sq_meters = None, location = ''Sevilla'', description = [], tags = [],
       seller = None, seller_url = None\<rparr>,
       rec_detail = Some \<lparr>detail_url = ''https://www.idealista.com/inmueble/102/'',
       detail_title = [], detail_location = ''Sevilla'', detail_price = None,
       detail_currency = ''EUR'', detail_description = [], detail_updated = [],
       detail_features = [(''rooms'', [''3''])], detail_images = []\<rparr>\<rparr>,
       \<lparr>rec_card = \<lparr>listing_type = ''venta'', title = ''Piso C'',
       link = ''https://www.idealista.com/inmueble/103/'', price = None, currency = ''EUR'',
       rooms = Some 3, sq_meters = None, location = ''Sevilla'', description = [], tags = [],
       seller = None, seller_url = None\<rparr>,
       rec_detail = Some \<lparr>detail_url = ''https://www.idealista.com/inmueble/103/'',
       detail_title = [], detail_location = ''Sevilla'', detail_price = None,
       detail_currency = ''EUR'', detail_description = [], detail_updated = [],
       detail_features = [(''rooms'', [''3''])], detail_images = []\<rparr>\<rparr>],
       processed_links = {''https://www.idealista.com/inmueble/103/'',
       ''https://www.idealista.com/inmueble/102/''},
       all_cards = [\<lparr>listing_type = ''venta'', title = ''Piso A'',
       link = ''https://www.idealista.com/inmueble/101/'', price = None, currency = ''EUR'',
       rooms = None, sq_meters = None, location = [], description = [], tags = [],
       seller = None, seller_url = None\<rparr>, \<lparr>listing_type = ''venta'',
       title = ''Piso B'', link = ''https://www.idealista.com/en/inmueble/102/'', price = None,
       currency = ''EUR'', rooms = None, sq_meters = None, location = [], description = [],
       tags = [], seller = None, seller_url = None\<rparr>, \<lparr>listing_type = ''venta'',
       title = ''Piso C'', link = ''https://www.idealista.com/inmueble/103/'', price = None,
       currency = ''EUR'', rooms = None, sq_meters = None, location = [], description = [],
       tags = [], seller = None, seller_url = None\<rparr>, \<lparr>listing_type = ''venta'',
       title = ''Piso A'', link = ''https://www.idealista.com/ca/inmueble/101/'', price = None,
       currency = ''EUR'', rooms = None, sq_meters = None, location = [], description = [],
       tags = [], seller = None, seller_url = None\<rparr>], consecutive_blocked = 0\<rparr>"
  by code_simp

lemma resume_start: "resume_seen \<noteq> {} \<and> resume_start_page resume_seen 2 = 2"
  by code_simp

lemma resume_seen_has_101: "''https://www.idealista.com/inmueble/101/'' \<in> resume_seen"
  by code_simp





lemma captcha_page2:
  "page_body captcha_cfg None 2 idle_state
     = Inr (StillBlocked, Continue, \<lparr>world = \<lparr>calls = 2,
       trace = [EvRequest (SearchPage 2),
       EvFetch ''https://www.idealista.com/venta/pagina-2.htm'', EvSleep 60,
       EvRequest (SearchPage 2),
       EvFetch ''https://www.idealista.com/venta/pagina-2.htm'']\<rparr>, results = [],
       processed_links = {}, all_cards = [], consecutive_blocked = 1\<rparr>)"
  by code_simp

lemma captcha_page3:
  "page_body captcha_cfg None 3
      (\<lparr>world = \<lparr>calls = 2, trace = [EvRequest (SearchPage 2),
        EvFetch ''https://www.idealista.com/venta/pagina-2.htm'', EvSleep 60,
        EvRequest (SearchPage 2),
        EvFetch ''https://www.idealista.com/venta/pagina-2.htm'']\<rparr>, results = [],
        processed_links = {}, all_cards = [], consecutive_blocked = 1\<rparr>)
     = Inr (StillBlocked, Break, \<lparr>world = \<lparr>calls = 4,
       trace = [EvRequest (SearchPage 2),
       EvFetch ''https://www.idealista.com/venta/pagina-2.htm'', EvSleep 60,
       EvRequest (SearchPage 2), EvFetch ''https://www.idealista.com/venta/pagina-2.htm'',
       EvRequest (SearchPage 3), EvFetch ''https://www.idealista.com/venta/pagina-3.htm'',
       EvSleep 60, EvRequest (SearchPage 3),
       EvFetch ''https://www.idealista.com/venta/pagina-3.htm'']\<rparr>, results = [],
       processed_links = {}, all_cards = [], consecutive_blocked = 2\<rparr>)"
  by code_simp

lemma blocking_page2:
  "page_body blocking_cfg None 2 idle_state
     = Inr (StillBlocked, Continue, \<lparr>world = \<lparr>calls = 2,
       trace = [EvRequest (SearchPage 2),
       EvFetch ''https://www.idealista.com/venta/pagina-2.htm'', EvSleep 60,
       EvRequest (SearchPage 2),
       EvFetch ''https://www.idealista.com/venta/pagina-2.htm'']\<rparr>, results = [],
       processed_links = {}, all_cards = [], consecutive_blocked = 1\<rparr>)"
  by code_simp

lemma blocking_page3:
  "page_body blocking_cfg None 3
      (\<lparr>world = \<lparr>calls = 2, trace = [EvRequest (SearchPage 2),
        EvFetch ''https://www.idealista.com/venta/pagina-2.htm'', EvSleep 60,
        EvRequest (SearchPage 2),
        EvFetch ''https://www.idealista.com/venta/pagina-2.htm'']\<rparr>, results = [],
        processed_links = {}, all_cards = [], consecutive_blocked = 1\<rparr>)
     = Inr (Failed, Continue, \<lparr>world = \<lparr>calls = 5,
       trace = [EvRequest (SearchPage 2),
       EvFetch ''https://www.idealista.com/venta/pagina-2.htm'', EvSleep 60,
       EvRequest (SearchPage 2), EvFetch ''https://www.idealista.com/venta/pagina-2.htm'',
       EvRequest (SearchPage 3), EvFetch ''https://www.idealista.com/venta/pagina-3.htm'',
       EvSleep 10, EvFetch ''https://www.idealista.com/venta/pagina-3.htm'', EvSleep 30,
       EvFetch ''https://www.idealista.com/venta/pagina-3.htm'']\<rparr>, results = [],
       processed_links = {}, all_cards = [], consecutive_blocked = 0\<rparr>)"
  by code_simp

lemma blocking_page4:
  "page_body blocking_cfg None 4
      (\<lparr>world = \<lparr>calls = 5, trace = [EvRequest (SearchPage 2),
        EvFetch ''https://www.idealista.com/venta/pagina-2.htm'', EvSleep 60,
        EvRequest (SearchPage 2), EvFetch ''https://www.idealista.com/venta/pagina-2.htm'',
        EvRequest (SearchPage 3), EvFetch ''https://www.idealista.com/venta/pagina-3.htm'',
        EvSleep 10, EvFetch ''https://www.idealista.com/venta/pagina-3.htm'', EvSleep 30,
        EvFetch ''https://www.idealista.com/venta/pagina-3.htm'']\<rparr>, results = [],
        processed_links = {}, all_cards = [], consecutive_blocked = 0\<rparr>)
     = Inr (StillBlocked, Continue, \<lparr>world = \<lparr>calls = 7,
       trace = [EvRequest (SearchPage 2),
       EvFetch ''https://www.idealista.com/venta/pagina-2.htm'', EvSleep 60,
       EvRequest (SearchPage 2), EvFetch ''https://www.idealista.com/venta/pagina-2.htm'',
       EvRequest (SearchPage 3), EvFetch ''https://www.idealista.com/venta/pagina-3.htm'',
       EvSleep 10, EvFetch ''https://www.idealista.com/venta/pagina-3.htm'', EvSleep 30,
       EvFetch ''https://www.idealista.com/venta/pagina-3.htm'', EvRequest (SearchPage 4),
       EvFetch ''https://www.idealista.com/venta/pagina-4.htm'', EvSleep 60,
       EvRequest (SearchPage 4),
       EvFetch ''https://www.idealista.com/venta/pagina-4.htm'']\<rparr>, results = [],
       processed_links = {}, all_cards = [], consecutive_blocked = 1\<rparr>)"
  by code_simp

lemma seen_238_card: "card seen_238 = 238"
proof -
  have "inj_on (\<lambda>n. ''https://www.idealista.com/inmueble/'' @ replicate (Suc n) CHR ''7'' @ ''/'') {..<238}"
  proof (rule inj_onI)
    fix x y :: nat
    assume "''https://www.idealista.com/inmueble/'' @ replicate (Suc x) CHR ''7'' @ ''/''
      = ''https://www.idealista.com/inmueble/'' @ replicate (Suc y) CHR ''7'' @ ''/''"
    then have "length (replicate (Suc x) CHR ''7'' @ ''/'') = length (replicate (Suc y) CHR ''7'' @ ''/'')"
      by (simp only: same_append_eq)
    then show "x = y" by simp
  qed
  then show ?thesis unfolding seen_238_def by (simp add: card_image)
qed

section \<open>Card-only runs\<close>

lemma card_only_state:
  assumes "\<not> fetch_details cfg" "first_page_fetch cfg w = Inr ((html, status), w1)"
    "run_with_fetcher cfg w = Inr st"
  shows "st = emit_cards (on_record cfg)
             (dedupe_unique (already_seen cfg) (snd (parse_search_page cfg html IDEALISTA_DOMAIN)))
             (initial_state w1 (snd (parse_search_page cfg html IDEALISTA_DOMAIN)))"
proof -
  have "\<exists>st. run_with_fetcher cfg w = Inr st" using assms(3) by (rule exI)
  then have nb: "\<not> first_page_blocked (parse_search_page cfg) html status"
    unfolding run_total_iff[OF assms(2)] .
  show ?thesis using run_cards_only[OF assms(2) nb assms(1)] assms(3) by simp
qed

text \<open>
  Claim C1 expects the search pages from \<open>max(2, startPage)\<close> to \<open>totalPages\<close> to be fetched
  whatever \<^verbatim>\<open>fetch_details\<close> is. The code returns before the loop over the pages when
  \<^verbatim>\<open>fetch_details\<close> is false: a run that returns has then requested page 1 and nothing
  else, no search page past page 1 in particular, and its records are the cards of page 1
  that are new.
\<close>

theorem card_only_run_stops_after_first_page:
  assumes "\<not> fetch_details cfg" "first_page_fetch cfg w = Inr ((html, status), w1)"
    "run_with_fetcher cfg w = Inr st"
  shows "requests_of (trace (world st)) = requests_of (trace w) @ [FirstPage] \<and>
         pages_requested (trace (world st)) = pages_requested (trace w) \<and>
         results st = map (\<lambda>c. card_record c (normalize_listing_link (link c)))
           (dedupe_unique (already_seen cfg) (snd (parse_search_page cfg html IDEALISTA_DOMAIN)))"
proof -
  note st = card_only_state[OF assms]
  note e = emit_cards_records[of "on_record cfg"
      "dedupe_unique (already_seen cfg) (snd (parse_search_page cfg html IDEALISTA_DOMAIN))"
      "initial_state w1 (snd (parse_search_page cfg html IDEALISTA_DOMAIN))"]
  have a: "requests_of (trace (world st)) = requests_of (trace w) @ [FirstPage]"
    using e first_page_fetch_trace(2)[OF assms(2)] unfolding st by simp
  have b: "pages_requested (trace (world st)) = pages_requested (trace w)"
    using run_pages(2)[OF assms(2) assms(3) assms(1)] .
  have c: "results st = map (\<lambda>c. card_record c (normalize_listing_link (link c)))
           (dedupe_unique (already_seen cfg) (snd (parse_search_page cfg html IDEALISTA_DOMAIN)))"
    using e unfolding st by simp
  from a b c show ?thesis by (intro conjI)
qed

theorem card_only_run_stops_after_first_page_witness:
  "\<not> fetch_details card_only_cfg \<and> max_pages card_only_cfg = 2 \<and> already_seen card_only_cfg = {} \<and>
   compute_total_pages (fst (demo_parse ''<html>page 1</html>'' IDEALISTA_DOMAIN)) 2 = 2 \<and>
   (\<exists>w1 st. first_page_fetch card_only_cfg world0 = Inr ((''<html>page 1</html>'', 200), w1) \<and>
      run_with_fetcher card_only_cfg world0 = Inr st \<and>
      requests_of (trace (world st)) = [FirstPage] \<and> pages_requested (trace (world st)) = [])"
proof -
  have nd: "\<not> fetch_details card_only_cfg" by (simp add: card_only_cfg_def)
  have mp: "max_pages card_only_cfg = 2 \<and> already_seen card_only_cfg = {}"
    by (simp add: card_only_cfg_def)
  note t = card_only_run_stops_after_first_page[OF nd card_only_first_page card_only_run]
  from t have "requests_of (trace (world (\<lparr>world = \<lparr>calls = 1, trace = [EvRequest FirstPage,
        EvFetch ''https://www.idealista.com/venta/'',
        EvRecord \<lparr>rec_card = \<lparr>listing_type = ''venta'', title = ''Piso A'',
        link = ''https://www.idealista.com/inmueble/101/'', price = None, currency = ''EUR'',
        rooms = None, sq_meters = None, location = [], description = [], tags = [],
        seller = None, seller_url = None\<rparr>, rec_detail = None\<rparr>,
        EvRecord \<lparr>rec_card = \<lparr>listing_type = ''venta'', title = ''Piso B'',
        link = ''https://www.idealista.com/inmueble/102/'', price = None, currency = ''EUR'',
        rooms = None, sq_meters = None, location = [], description = [], tags = [],
        seller = None, seller_url = None\<rparr>, rec_detail = None\<rparr>]\<rparr>,
        results = [\<lparr>rec_card = \<lparr>listing_type = ''venta'', title = ''Piso A'',
        link = ''https://www.idealista.com/inmueble/101/'', price = None, currency = ''EUR'',
        rooms = None, sq_meters = None, location = [], description = [], tags = [],
        seller = None, seller_url = None\<rparr>, rec_detail = None\<rparr>,
        \<lparr>rec_card = \<lparr>listing_type = ''venta'', title = ''Piso B'',
        link = ''https://www.idealista.com/inmueble/102/'', price = None, currency = ''EUR'',
        rooms = None, sq_meters = None, location = [], description = [], tags = [],
        seller = None, seller_url = None\<rparr>, rec_detail = None\<rparr>],
        processed_links = {}, all_cards = [\<lparr>listing_type = ''venta'', title = ''Piso A'',
        link = ''https://www.idealista.com/inmueble/101/'', price = None, currency = ''EUR'',
        rooms = None, sq_meters = None, location = [], description = [], tags = [],
        seller = None, seller_url = None\<rparr>, \<lparr>listing_type = ''venta'',
        title = ''Piso B'', link = ''https://www.idealista.com/en/inmueble/102/'', price = None,
        currency = ''EUR'', rooms = None, sq_meters = None, location = [], description = [],
        tags = [], seller = None, seller_url = None\<rparr>], consecutive_blocked = 0\<rparr>))) = [FirstPage] \<and>
      pages_requested (trace (world (\<lparr>world = \<lparr>calls = 1, trace = [EvRequest FirstPage,
        EvFetch ''https://www.idealista.com/venta/'',
        EvRecord \<lparr>rec_card = \<lparr>listing_type = ''venta'', title = ''Piso A'',
        link = ''https://www.idealista.com/inmueble/101/'', price = None, currency = ''EUR'',
        rooms = None, sq_meters = None, location = [], description = [], tags = [],
        seller = None, seller_url = None\<rparr>, rec_detail = None\<rparr>,
        EvRecord \<lparr>rec_card = \<lparr>listing_type = ''venta'', title = ''Piso B'',
        link = ''https://www.idealista.com/inmueble/102/'', price = None, currency = ''EUR'',
        rooms = None, sq_meters = None, location = [], description = [], tags = [],
        seller = None, seller_url = None\<rparr>, rec_detail = None\<rparr>]\<rparr>,
        results = [\<lparr>rec_card = \<lparr>listing_type = ''venta'', title = ''Piso A'',
        link = ''https://www.idealista.com/inmueble/101/'', price = None, currency = ''EUR'',
        rooms = None, sq_meters = None, location = [], description = [], tags = [],
        seller = None, seller_url = None\<rparr>, rec_detail = None\<rparr>,
        \<lparr>rec_card = \<lparr>listing_type = ''venta'', title = ''Piso B'',
        link = ''https://www.idealista.com/inmueble/102/'', price = None, currency = ''EUR'',
        rooms = None, sq_meters = None, location = [], description = [], tags = [],
        seller = None, seller_url = None\<rparr>, rec_detail = None\<rparr>],
        processed_links = {}, all_cards = [\<lparr>listing_type = ''venta'', title = ''Piso A'',
        link = ''https://www.idealista.com/inmueble/101/'', price = None, currency = ''EUR'',
        rooms = None, sq_meters = None, location = [], description = [], tags = [],
        seller = None, seller_url = None\<rparr>, \<lparr>listing_type = ''venta'',
        title = ''Piso B'', link = ''https://www.idealista.com/en/inmueble/102/'', price = None,
        currency = ''EUR'', rooms = None, sq_meters = None, location = [], description = [],
        tags = [], seller = None, seller_url = None\<rparr>], consecutive_blocked = 0\<rparr>))) = []"
    by (simp add: world0_def)
  with nd mp demo_total_pages card_only_first_page card_only_run show ?thesis by blast
qed

section \<open>Emitted records are new\<close>

text \<open>
  Claim C4. A run that returns has passed to \<^verbatim>\<open>on_record\<close>, when there is one, exactly the
  records it returns, in order, and the link of each of them canonicalizes to a string
  outside \<^verbatim>\<open>already_seen\<close>; a run that raises has passed no record to \<^verbatim>\<open>on_record\<close>.
  (\<^verbatim>\<open>run\<close> passes \<^verbatim>\<open>seen_urls or set()\<close> for \<^verbatim>\<open>already_seen\<close>.)
\<close>

theorem emitted_links_not_seen:
  "(run_with_fetcher cfg w = Inr st \<longrightarrow>
      records_of (trace (world st)) = records_of (trace w) @ (if on_record cfg then results st else []) \<and>
      (\<forall>r\<in>set (results st). normalize_listing_link (link (rec_card r)) \<notin> already_seen cfg)) \<and>
   (run_with_fetcher cfg w = Inl (e, w') \<longrightarrow> records_of (trace w') = records_of (trace w))"
  using run_records[of cfg w st] run_error_records[of cfg w e w'] by blast

theorem emitted_links_not_seen_witness:
  "already_seen resume_cfg = resume_seen \<and>
   ''https://www.idealista.com/inmueble/101/'' \<in> resume_seen \<and>
   run_links resume_cfg
     = [''https://www.idealista.com/inmueble/102/'', ''https://www.idealista.com/inmueble/103/''] \<and>
   normalize_listing_link ''https://www.idealista.com/inmueble/102/'' \<notin> resume_seen \<and>
   normalize_listing_link ''https://www.idealista.com/inmueble/103/'' \<notin> resume_seen \<and>
   (\<exists>st. run_with_fetcher resume_cfg world0 = Inr st \<and> records_of (trace (world st)) = results st)"
proof -
  have seen: "already_seen resume_cfg = resume_seen" by (simp add: resume_cfg_def)
  have cb: "on_record resume_cfg" by (simp add: resume_cfg_def details_cfg_def card_only_cfg_def)
  have links: "run_links resume_cfg
     = [''https://www.idealista.com/inmueble/102/'', ''https://www.idealista.com/inmueble/103/'']"
    unfolding run_links_def resume_run by simp
  note t = emitted_links_not_seen[where cfg = resume_cfg and w = world0,
      THEN conjunct1, rule_format, OF resume_run]
  from t have rec: "records_of (trace (world (\<lparr>world = \<lparr>calls = 4, trace = [EvRequest FirstPage,
        EvFetch ''https://www.idealista.com/venta/'', EvRequest (SearchPage 2),
        EvFetch ''https://www.idealista.com/venta/pagina-2.htm'',
        EvRequest (DetailPage ''https://www.idealista.com/inmueble/102/''),
        EvFetch ''https://www.idealista.com/inmueble/102/'',
        EvRecord \<lparr>rec_card = \<lparr>listing_type = ''venta'', title = ''Piso B'',
        link = ''https://www.idealista.com/inmueble/102/'', price = None, currency = ''EUR'',
        rooms = Some 3, sq_meters = None, location = ''Sevilla'', description = [], tags = [],
        seller = None, seller_url = None\<rparr>,
        rec_detail = Some \<lparr>detail_url = ''https://www.idealista.com/inmueble/102/'',
        detail_title = [], detail_location = ''Sevilla'', detail_price = None,
        detail_currency = ''EUR'', detail_description = [], detail_updated = [],
        detail_features = [(''rooms'', [''3''])], detail_images = []\<rparr>\<rparr>,
        EvRequest (DetailPage ''https://www.idealista.com/inmueble/103/''),
        EvFetch ''https://www.idealista.com/inmueble/103/'',
        EvRecord \<lparr>rec_card = \<lparr>listing_type = ''venta'', title = ''Piso C'',
        link = ''https://www.idealista.com/inmueble/103/'', price = None, currency = ''EUR'',
        rooms = Some 3, sq_meters = None, location = ''Sevilla'', description = [], tags = [],
        seller = None, seller_url = None\<rparr>,
        rec_detail = Some \<lparr>detail_url = ''https://www.idealista.com/inmueble/103/'',
        detail_title = [], detail_location = ''Sevilla'', detail_price = None,
        detail_currency = ''EUR'', detail_description = [], detail_updated = [],
        detail_features = [(''rooms'', [''3''])], detail_images = []\<rparr>\<rparr>]\<rparr>,
        results = [\<lparr>rec_card = \<lparr>listing_type = ''venta'', title = ''Piso B'',
        link = ''https://www.idealista.com/inmueble/102/'', price = None, currency = ''EUR'',
        rooms = Some 3, sq_meters = None, location = ''Sevilla'', description = [], tags = [],
        seller = None, seller_url = None\<rparr>,
        rec_detail = Some \<lparr>detail_url = ''https://www.idealista.com/inmueble/102/'',
        detail_title = [], detail_location = ''Sevilla'', detail_price = None,
        detail_currency = ''EUR'', detail_description = [], detail_updated = [],
        detail_features = [(''rooms'', [''3''])], detail_images = []\<rparr>\<rparr>,
        \<lparr>rec_card = \<lparr>listing_type = ''venta'', title = ''Piso C'',
        link = ''https://www.idealista.com/inmueble/103/'', price = None, currency = ''EUR'',
        rooms = Some 3, sq_meters = None, location = ''Sevilla'', description = [], tags = [],
        seller = None, seller_url = None\<rparr>,
        rec_detail = Some \<lparr>detail_url = ''https://www.idealista.com/inmueble/103/'',
        detail_title = [], detail_location = ''Sevilla'', detail_price = None,
        detail_currency = ''EUR'', detail_description = [], detail_updated = [],
        detail_features = [(''rooms'', [''3''])], detail_images = []\<rparr>\<rparr>],
        processed_links = {''https://www.idealista.com/inmueble/103/'',
        ''https://www.idealista.com/inmueble/102/''},
        all_cards = [\<lparr>listing_type = ''venta'', title = ''Piso A'',
        link = ''https://www.idealista.com/inmueble/101/'', price = None, currency = ''EUR'',
        rooms = None, sq_meters = None, location = [], description = [], tags = [],
        seller = None, seller_url = None\<rparr>, \<lparr>listing_type = ''venta'',
        title = ''Piso B'', link = ''https://www.idealista.com/en/inmueble/102/'', price = None,
        currency = ''EUR'', rooms = None, sq_meters = None, location = [], description = [],
        tags = [], seller = None, seller_url = None\<rparr>, \<lparr>listing_type = ''venta'',
        title = ''Piso C'', link = ''https://www.idealista.com/inmueble/103/'', price = None,
        currency = ''EUR'', rooms = None, sq_meters = None, location = [], description = [],
        tags = [], seller = None, seller_url = None\<rparr>, \<lparr>listing_type = ''venta'',
        title = ''Piso A'', link = ''https://www.idealista.com/ca/inmueble/101/'', price = None,
        currency = ''EUR'', rooms = None, sq_meters = None, location = [], description = [],
        tags = [], seller = None, seller_url = None\<rparr>], consecutive_blocked = 0\<rparr>))) = results (\<lparr>world = \<lparr>calls = 4, trace = [EvRequest FirstPage,
        EvFetch ''https://www.idealista.com/venta/'', EvRequest (SearchPage 2),
        EvFetch ''https://www.idealista.com/venta/pagina-2.htm'',
        EvRequest (DetailPage ''https://www.idealista.com/inmueble/102/''),
        EvFetch ''https://www.idealista.com/inmueble/102/'',
        EvRecord \<lparr>rec_card = \<lparr>listing_type = ''venta'', title = ''Piso B'',
        link = ''https://www.idealista.com/inmueble/102/'', price = None, currency = ''EUR'',
        rooms = Some 3, sq_meters = None, location = ''Sevilla'', description = [], tags = [],
        seller = None, seller_url = None\<rparr>,
        rec_detail = Some \<lparr>detail_url = ''https://www.idealista.com/inmueble/102/'',
        detail_title = [], detail_location = ''Sevilla'', detail_price = None,
        detail_currency = ''EUR'', detail_description = [], detail_updated = [],
        detail_features = [(''rooms'', [''3''])], detail_images = []\<rparr>\<rparr>,
        EvRequest (DetailPage ''https://www.idealista.com/inmueble/103/''),
        EvFetch ''https://www.idealista.com/inmueble/103/'',
        EvRecord \<lparr>rec_card = \<lparr>listing_type = ''venta'', title = ''Piso C'',
        link = ''https://www.idealista.com/inmueble/103/'', price = None, currency = ''EUR'',
        rooms = Some 3, sq_meters = None, location = ''Sevilla'', description = [], tags = [],
        seller = None, seller_url = None\<rparr>,
        rec_detail = Some \<lparr>detail_url = ''https://www.idealista.com/inmueble/103/'',
        detail_title = [], detail_location = ''Sevilla'', detail_price = None,
        detail_currency = ''EUR'', detail_description = [], detail_updated = [],
        detail_features = [(''rooms'', [''3''])], detail_images = []\<rparr>\<rparr>]\<rparr>,
        results = [\<lparr>rec_card = \<lparr>listing_type = ''venta'', title = ''Piso B'',
        link = ''https://www.idealista.com/inmueble/102/'', price = None, currency = ''EUR'',
        rooms = Some 3, sq_meters = None, location = ''Sevilla'', description = [], tags = [],
        seller = None, seller_url = None\<rparr>,
        rec_detail = Some \<lparr>detail_url = ''https://www.idealista.com/inmueble/102/'',
        detail_title = [], detail_location = ''Sevilla'', detail_price = None,
        detail_currency = ''EUR'', detail_description = [], detail_updated = [],
        detail_features = [(''rooms'', [''3''])], detail_images = []\<rparr>\<rparr>,
        \<lparr>rec_card = \<lparr>listing_type = ''venta'', title = ''Piso C'',
        link = ''https://www.idealista.com/inmueble/103/'', price = None, currency = ''EUR'',
        rooms = Some 3, sq_meters = None, location = ''Sevilla'', description = [], tags = [],
        seller = None, seller_url = None\<rparr>,
        rec_detail = Some \<lparr>detail_url = ''https://www.idealista.com/inmueble/103/'',
        detail_title = [], detail_location = ''Sevilla'', detail_price = None,
        detail_currency = ''EUR'', detail_description = [], detail_updated = [],
        detail_features = [(''rooms'', [''3''])], detail_images = []\<rparr>\<rparr>],
        processed_links = {''https://www.idealista.com/inmueble/103/'',
        ''https://www.idealista.com/inmueble/102/''},
        all_cards = [\<lparr>listing_type = ''venta'', title = ''Piso A'',
        link = ''https://www.idealista.com/inmueble/101/'', price = None, currency = ''EUR'',
        rooms = None, sq_meters = None, location = [], description = [], tags = [],
        seller = None, seller_url = None\<rparr>, \<lparr>listing_type = ''venta'',
        title = ''Piso B'', link = ''https://www.idealista.com/en/inmueble/102/'', price = None,
        currency = ''EUR'', rooms = None, sq_meters = None, location = [], description = [],
        tags = [], seller = None, seller_url = None\<rparr>, \<lparr>listing_type = ''venta'',
        title = ''Piso C'', link = ''https://www.idealista.com/inmueble/103/'', price = None,
        currency = ''EUR'', rooms = None, sq_meters = None, location = [], description = [],
        tags = [], seller = None, seller_url = None\<rparr>, \<lparr>listing_type = ''venta'',
        title = ''Piso A'', link = ''https://www.idealista.com/ca/inmueble/101/'', price = None,
        currency = ''EUR'', rooms = None, sq_meters = None, location = [], description = [],
        tags = [], seller = None, seller_url = None\<rparr>], consecutive_blocked = 0\<rparr>)"
    using cb by (simp add: world0_def)
  from t have "\<forall>l\<in>set (run_links resume_cfg). normalize_listing_link l \<notin> resume_seen"
    unfolding run_links_def resume_run seen by simp
  then have new: "normalize_listing_link ''https://www.idealista.com/inmueble/102/'' \<notin> resume_seen \<and>
     normalize_listing_link ''https://www.idealista.com/inmueble/103/'' \<notin> resume_seen"
    unfolding links by simp
  from seen resume_seen_has_101 links new rec resume_run show ?thesis by blast
qed

section \<open>Resumed runs\<close>

text \<open>
  Claim C6, as the code has it. With a non-empty \<^verbatim>\<open>already_seen\<close> and at least one page the
  start page is \<open>min(total_pages, |already_seen| div 30 + 1)\<close>; 238 links and at least 8 pages
  give start page 8. Page 1 is requested first in every run that returns, whatever the
  start page is. The search pages requested after it lie between 2 and \<open>total_pages\<close> and are
  not before the start page.
\<close>

theorem resume_start_page_skips_earlier_pages:
  "(seen \<noteq> {} \<and> 1 \<le> tp \<longrightarrow> resume_start_page seen tp = min tp (int (card seen) div 30 + 1)) \<and>
   (card seen = 238 \<and> 8 \<le> tp \<longrightarrow> resume_start_page seen tp = 8) \<and>
   (first_page_fetch cfg w = Inr ((html, status), w1) \<and> run_with_fetcher cfg w = Inr st \<longrightarrow>
      prefix (requests_of (trace w) @ [FirstPage]) (requests_of (trace (world st))) \<and>
      (\<forall>p\<in>set (pages_requested (trace (world st))) - set (pages_requested (trace w)).
         resume_start_page (already_seen cfg)
           (compute_total_pages (fst (parse_search_page cfg html IDEALISTA_DOMAIN)) (max_pages cfg)) \<le> p \<and>
         2 \<le> p \<and>
         p \<le> compute_total_pages (fst (parse_search_page cfg html IDEALISTA_DOMAIN)) (max_pages cfg)))"
proof (intro conjI impI)
  assume "seen \<noteq> {} \<and> 1 \<le> tp"
  then show "resume_start_page seen tp = min tp (int (card seen) div 30 + 1)"
    by (auto simp add: resume_start_page_def min_def)
next
  assume h: "card seen = 238 \<and> 8 \<le> tp"
  then have "seen \<noteq> {}" by auto
  then show "resume_start_page seen tp = 8" using h by (simp add: resume_start_page_def)
next
  assume h: "first_page_fetch cfg w = Inr ((html, status), w1) \<and> run_with_fetcher cfg w = Inr st"
  then show "prefix (requests_of (trace w) @ [FirstPage]) (requests_of (trace (world st)))"
    using run_first_page_requested by blast
next
  assume h: "first_page_fetch cfg w = Inr ((html, status), w1) \<and> run_with_fetcher cfg w = Inr st"
  from h have f: "first_page_fetch cfg w = Inr ((html, status), w1)" by (rule conjunct1)
  from h have r: "run_with_fetcher cfg w = Inr st" by (rule conjunct2)
  from run_pages(1)[OF f r]
  show "\<forall>p\<in>set (pages_requested (trace (world st))) - set (pages_requested (trace w)).
         resume_start_page (already_seen cfg)
           (compute_total_pages (fst (parse_search_page cfg html IDEALISTA_DOMAIN)) (max_pages cfg)) \<le> p \<and>
         2 \<le> p \<and>
         p \<le> compute_total_pages (fst (parse_search_page cfg html IDEALISTA_DOMAIN)) (max_pages cfg)"
    by blast
qed

theorem resume_start_page_skips_earlier_pages_witness:
  "resume_seen \<noteq> {} \<and> resume_start_page resume_seen 2 = min 2 (int (card resume_seen) div 30 + 1) \<and>
   card seen_238 = 238 \<and> resume_start_page seen_238 8 = 8 \<and> resume_start_page seen_238 42 = 8 \<and>
   (\<exists>w1 st. first_page_fetch resume_cfg world0 = Inr ((''<html>page 1</html>'', 200), w1) \<and>
      run_with_fetcher resume_cfg world0 = Inr st \<and>
      prefix [FirstPage] (requests_of (trace (world st))) \<and>
      pages_requested (trace (world st)) = [2])"
proof -
  have ne: "resume_seen \<noteq> {}" using resume_start by (rule conjunct1)
  note a = resume_start_page_skips_earlier_pages[where seen = resume_seen and tp = 2,
      THEN conjunct1, rule_format]
  have s2: "resume_start_page resume_seen 2 = min 2 (int (card resume_seen) div 30 + 1)"
    using a ne by simp
  note b = resume_start_page_skips_earlier_pages[where seen = seen_238,
      THEN conjunct2, THEN conjunct1, rule_format]
  have s8: "resume_start_page seen_238 8 = 8 \<and> resume_start_page seen_238 42 = 8"
    using b[of 8] b[of 42] seen_238_card by simp
  note c = resume_start_page_skips_earlier_pages[where cfg = resume_cfg and w = world0
      and html = "''<html>page 1</html>''" and status = 200,
      THEN conjunct2, THEN conjunct2, rule_format, OF conjI, OF resume_first_page resume_run]
  from c have p: "prefix [FirstPage] (requests_of (trace (world (\<lparr>world = \<lparr>calls = 4, trace = [EvRequest FirstPage,
        EvFetch ''https://www.idealista.com/venta/'', EvRequest (SearchPage 2),
        EvFetch ''https://www.idealista.com/venta/pagina-2.htm'',
        EvRequest (DetailPage ''https://www.idealista.com/inmueble/102/''),
        EvFetch ''https://www.idealista.com/inmueble/102/'',
        EvRecord \<lparr>rec_card = \<lparr>listing_type = ''venta'', title = ''Piso B'',
        link = ''https://www.idealista.com/inmueble/102/'', price = None, currency = ''EUR'',
        rooms = Some 3, sq_meters = None, location = ''Sevilla'', description = [], tags = [],
        seller = None, seller_url = None\<rparr>,
        rec_detail = Some \<lparr>detail_url = ''https://www.idealista.com/inmueble/102/'',
        detail_title = [], detail_location = ''Sevilla'', detail_price = None,
        detail_currency = ''EUR'', detail_description = [], detail_updated = [],
        detail_features = [(''rooms'', [''3''])], detail_images = []\<rparr>\<rparr>,
        EvRequest (DetailPage ''https://www.idealista.com/inmueble/103/''),
        EvFetch ''https://www.idealista.com/inmueble/103/'',
        EvRecord \<lparr>rec_card = \<lparr>listing_type = ''venta'', title = ''Piso C'',
        link = ''https://www.idealista.com/inmueble/103/'', price = None, currency = ''EUR'',
        rooms = Some 3, sq_meters = None, location = ''Sevilla'', description = [], tags = [],
        seller = None, seller_url = None\<rparr>,
        rec_detail = Some \<lparr>detail_url = ''https://www.idealista.com/inmueble/103/'',
        detail_title = [], detail_location = ''Sevilla'', detail_price = None,
        detail_currency = ''EUR'', detail_description = [], detail_updated = [],
        detail_features = [(''rooms'', [''3''])], detail_images = []\<rparr>\<rparr>]\<rparr>,
        results = [\<lparr>rec_card = \<lparr>listing_type = ''venta'', title = ''Piso B'',
        link = ''https://www.idealista.com/inmueble/102/'', price = None, currency = ''EUR'',
        rooms = Some 3, sq_meters = None, location = ''Sevilla'', description = [], tags = [],
        seller = None, seller_url = None\<rparr>,
        rec_detail = Some \<lparr>detail_url = ''https://www.idealista.com/inmueble/102/'',
        detail_title = [], detail_location = ''Sevilla'', detail_price = None,
        detail_currency = ''EUR'', detail_description = [], detail_updated = [],
        detail_features = [(''rooms'', [''3''])], detail_images = []\<rparr>\<rparr>,
        \<lparr>rec_card = \<lparr>listing_type = ''venta'', title = ''Piso C'',
        link = ''https://www.idealista.com/inmueble/103/'', price = None, currency = ''EUR'',
        rooms = Some 3, sq_meters = None, location = ''Sevilla'', description = [], tags = [],
        seller = None, seller_url = None\<rparr>,
        rec_detail = Some \<lparr>detail_url = ''https://www.idealista.com/inmueble/103/'',
        detail_title = [], detail_location = ''Sevilla'', detail_price = None,
        detail_currency = ''EUR'', detail_description = [], detail_updated = [],
        detail_features = [(''rooms'', [''3''])], detail_images = []\<rparr>\<rparr>],
        processed_links = {''https://www.idealista.com/inmueble/103/'',
        ''https://www.idealista.com/inmueble/102/''},
        all_cards = [\<lparr>listing_type = ''venta'', title = ''Piso A'',
        link = ''https://www.idealista.com/inmueble/101/'', price = None, currency = ''EUR'',
        rooms = None, sq_meters = None, location = [], description = [], tags = [],
        seller = None, seller_url = None\<rparr>, \<lparr>listing_type = ''venta'',
        title = ''Piso B'', link = ''https://www.idealista.com/en/inmueble/102/'', price = None,
        currency = ''EUR'', rooms = None, sq_meters = None, location = [], description = [],
        tags = [], seller = None, seller_url = None\<rparr>, \<lparr>listing_type = ''venta'',
        title = ''Piso C'', link = ''https://www.idealista.com/inmueble/103/'', price = None,
        currency = ''EUR'', rooms = None, sq_meters = None, location = [], description = [],
        tags = [], seller = None, seller_url = None\<rparr>, \<lparr>listing_type = ''venta'',
        title = ''Piso A'', link = ''https://www.idealista.com/ca/inmueble/101/'', price = None,
        currency = ''EUR'', rooms = None, sq_meters = None, location = [], description = [],
        tags = [], seller = None, seller_url = None\<rparr>], consecutive_blocked = 0\<rparr>))))"
    by (simp add: world0_def)
  have q: "pages_requested (trace (world (\<lparr>world = \<lparr>calls = 4, trace = [EvRequest FirstPage,
        EvFetch ''https://www.idealista.com/venta/'', EvRequest (SearchPage 2),
        EvFetch ''https://www.idealista.com/venta/pagina-2.htm'',
        EvRequest (DetailPage ''https://www.idealista.com/inmueble/102/''),
        EvFetch ''https://www.idealista.com/inmueble/102/'',
        EvRecord \<lparr>rec_card = \<lparr>listing_type = ''venta'', title = ''Piso B'',
        link = ''https://www.idealista.com/inmueble/102/'', price = None, currency = ''EUR'',
        rooms = Some 3, sq_meters = None, location = ''Sevilla'', description = [], tags = [],
        seller = None, seller_url = None\<rparr>,
        rec_detail = Some \<lparr>detail_url = ''https://www.idealista.com/inmueble/102/'',
        detail_title = [], detail_location = ''Sevilla'', detail_price = None,
        detail_currency = ''EUR'', detail_description = [], detail_updated = [],
        detail_features = [(''rooms'', [''3''])], detail_images = []\<rparr>\<rparr>,
        EvRequest (DetailPage ''https://www.idealista.com/inmueble/103/''),
        EvFetch ''https://www.idealista.com/inmueble/103/'',
        EvRecord \<lparr>rec_card = \<lparr>listing_type = ''venta'', title = ''Piso C'',
        link = ''https://www.idealista.com/inmueble/103/'', price = None, currency = ''EUR'',
        rooms = Some 3, sq_meters = None, location = ''Sevilla'', description = [], tags = [],
        seller = None, seller_url = None\<rparr>,
        rec_detail = Some \<lparr>detail_url = ''https://www.idealista.com/inmueble/103/'',
        detail_title = [], detail_location = ''Sevilla'', detail_price = None,
        detail_currency = ''EUR'', detail_description = [], detail_updated = [],
        detail_features = [(''rooms'', [''3''])], detail_images = []\<rparr>\<rparr>]\<rparr>,
        results = [\<lparr>rec_card = \<lparr>listing_type = ''venta'', title = ''Piso B'',
        link = ''https://www.idealista.com/inmueble/102/'', price = None, currency = ''EUR'',
        rooms = Some 3, sq_meters = None, location = ''Sevilla'', description = [], tags = [],
        seller = None, seller_url = None\<rparr>,
        rec_detail = Some \<lparr>detail_url = ''https://www.idealista.com/inmueble/102/'',
        detail_title = [], detail_location = ''Sevilla'', detail_price = None,
        detail_currency = ''EUR'', detail_description = [], detail_updated = [],
        detail_features = [(''rooms'', [''3''])], detail_images = []\<rparr>\<rparr>,
        \<lparr>rec_card = \<lparr>listing_type = ''venta'', title = ''Piso C'',
        link = ''https://www.idealista.com/inmueble/103/'', price = None, currency = ''EUR'',
        rooms = Some 3, sq_meters = None, location = ''Sevilla'', description = [], tags = [],
        seller = None, seller_url = None\<rparr>,
        rec_detail = Some \<lparr>detail_url = ''https://www.idealista.com/inmueble/103/'',
        detail_title = [], detail_location = ''Sevilla'', detail_price = None,
        detail_currency = ''EUR'', detail_description = [], detail_updated = [],
        detail_features = [(''rooms'', [''3''])], detail_images = []\<rparr>\<rparr>],
        processed_links = {''https://www.idealista.com/inmueble/103/'',
        ''https://www.idealista.com/inmueble/102/''},
        all_cards = [\<lparr>listing_type = ''venta'', title = ''Piso A'',
        link = ''https://www.idealista.com/inmueble/101/'', price = None, currency = ''EUR'',
        rooms = None, sq_meters = None, location = [], description = [], tags = [],
        seller = None, seller_url = None\<rparr>, \<lparr>listing_type = ''venta'',
        title = ''Piso B'', link = ''https://www.idealista.com/en/inmueble/102/'', price = None,
        currency = ''EUR'', rooms = None, sq_meters = None, location = [], description = [],
        tags = [], seller = None, seller_url = None\<rparr>, \<lparr>listing_type = ''venta'',
        title = ''Piso C'', link = ''https://www.idealista.com/inmueble/103/'', price = None,
        currency = ''EUR'', rooms = None, sq_meters = None, location = [], description = [],
        tags = [], seller = None, seller_url = None\<rparr>, \<lparr>listing_type = ''venta'',
        title = ''Piso A'', link = ''https://www.idealista.com/ca/inmueble/101/'', price = None,
        currency = ''EUR'', rooms = None, sq_meters = None, location = [], description = [],
        tags = [], seller = None, seller_url = None\<rparr>], consecutive_blocked = 0\<rparr>))) = [2]"
    by simp
  from ne s2 seen_238_card s8 resume_first_page resume_run p q show ?thesis by blast
qed

text \<open>
  The claim as the specification words it fails: this run is given thirty links, so with
  two pages its start page is 2, and it still fetches page 1, the page before the start
  page, before it goes on to page 2.
\<close>

theorem resume_fetches_first_page_counterexample:
  "already_seen resume_cfg \<noteq> {} \<and>
   resume_start_page (already_seen resume_cfg)
     (compute_total_pages (fst (demo_parse ''<html>page 1</html>'' IDEALISTA_DOMAIN)) (max_pages resume_cfg)) = 2 \<and>
   run_requests resume_cfg
     = [FirstPage, SearchPage 2, DetailPage ''https://www.idealista.com/inmueble/102/'',
        DetailPage ''https://www.idealista.com/inmueble/103/''] \<and>
   (\<exists>st. run_with_fetcher resume_cfg world0 = Inr st \<and>
      take 3 (trace (world st))
        = [EvRequest FirstPage, EvFetch ''https://www.idealista.com/venta/'', EvRequest (SearchPage 2)])"
proof -
  have seen: "already_seen resume_cfg = resume_seen" by (simp add: resume_cfg_def)
  have mp: "max_pages resume_cfg = 2" by (simp add: resume_cfg_def details_cfg_def card_only_cfg_def)
  have a: "already_seen resume_cfg \<noteq> {}" unfolding seen using resume_start by (rule conjunct1)
  have b: "resume_start_page (already_seen resume_cfg)
     (compute_total_pages (fst (demo_parse ''<html>page 1</html>'' IDEALISTA_DOMAIN)) (max_pages resume_cfg)) = 2"
    unfolding seen mp demo_total_pages using resume_start by (rule conjunct2)
  have c: "run_requests resume_cfg
     = [FirstPage, SearchPage 2, DetailPage ''https://www.idealista.com/inmueble/102/'',
        DetailPage ''https://www.idealista.com/inmueble/103/'']"
    unfolding run_requests_def resume_run by simp
  have d: "take 3 (trace (world (\<lparr>world = \<lparr>calls = 4, trace = [EvRequest FirstPage,
        EvFetch ''https://www.idealista.com/venta/'', EvRequest (SearchPage 2),
        EvFetch ''https://www.idealista.com/venta/pagina-2.htm'',
        EvRequest (DetailPage ''https://www.idealista.com/inmueble/102/''),
        EvFetch ''https://www.idealista.com/inmueble/102/'',
        EvRecord \<lparr>rec_card = \<lparr>listing_type = ''venta'', title = ''Piso B'',
        link = ''https://www.idealista.com/inmueble/102/'', price = None, currency = ''EUR'',
        rooms = Some 3, sq_meters = None, location = ''Sevilla'', description = [], tags = [],
        seller = None, seller_url = None\<rparr>,
        rec_detail = Some \<lparr>detail_url = ''https://www.idealista.com/inmueble/102/'',
        detail_title = [], detail_location = ''Sevilla'', detail_price = None,
        detail_currency = ''EUR'', detail_description = [], detail_updated = [],
        detail_features = [(''rooms'', [''3''])], detail_images = []\<rparr>\<rparr>,
        EvRequest (DetailPage ''https://www.idealista.com/inmueble/103/''),
        EvFetch ''https://www.idealista.com/inmueble/103/'',
        EvRecord \<lparr>rec_card = \<lparr>listing_type = ''venta'', title = ''Piso C'',
        link = ''https://www.idealista.com/inmueble/103/'', price = None, currency = ''EUR'',
        rooms = Some 3, sq_meters = None, location = ''Sevilla'', description = [], tags = [],
        seller = None, seller_url = None\<rparr>,
        rec_detail = Some \<lparr>detail_url = ''https://www.idealista.com/inmueble/103/'',
        detail_title = [], detail_location = ''Sevilla'', detail_price = None,
        detail_currency = ''EUR'', detail_description = [], detail_updated = [],
        detail_features = [(''rooms'', [''3''])], detail_images = []\<rparr>\<rparr>]\<rparr>,
        results = [\<lparr>rec_card = \<lparr>listing_type = ''venta'', title = ''Piso B'',
        link = ''https://www.idealista.com/inmueble/102/'', price = None, currency = ''EUR'',
        rooms = Some 3, sq_meters = None, location = ''Sevilla'', description = [], tags = [],
        seller = None, seller_url = None\<rparr>,
        rec_detail = Some \<lparr>detail_url = ''https://www.idealista.com/inmueble/102/'',
        detail_title = [], detail_location = ''Sevilla'', detail_price = None,
        detail_currency = ''EUR'', detail_description = [], detail_updated = [],
        detail_features = [(''rooms'', [''3''])], detail_images = []\<rparr>\<rparr>,
        \<lparr>rec_card = \<lparr>listing_type = ''venta'', title = ''Piso C'',
        link = ''https://www.idealista.com/inmueble/103/'', price = None, currency = ''EUR'',
        rooms = Some 3, sq_meters = None, location = ''Sevilla'', description = [], tags = [],
        seller = None, seller_url = None\<rparr>,
        rec_detail = Some \<lparr>detail_url = ''https://www.idealista.com/inmueble/103/'',
        detail_title = [], detail_location = ''Sevilla'', detail_price = None,
        detail_currency = ''EUR'', detail_description = [], detail_updated = [],
        detail_features = [(''rooms'', [''3''])], detail_images = []\<rparr>\<rparr>],
        processed_links = {''https://www.idealista.com/inmueble/103/'',
        ''https://www.idealista.com/inmueble/102/''},
        all_cards = [\<lparr>listing_type = ''venta'', title = ''Piso A'',
        link = ''https://www.idealista.com/inmueble/101/'', price = None, currency = ''EUR'',
        rooms = None, sq_meters = None, location = [], description = [], tags = [],
        seller = None, seller_url = None\<rparr>, \<lparr>listing_type = ''venta'',
        title = ''Piso B'', link = ''https://www.idealista.com/en/inmueble/102/'', price = None,
        currency = ''EUR'', rooms = None, sq_meters = None, location = [], description = [],
        tags = [], seller = None, seller_url = None\<rparr>, \<lparr>listing_type = ''venta'',
        title = ''Piso C'', link = ''https://www.idealista.com/inmueble/103/'', price = None,
        currency = ''EUR'', rooms = None, sq_meters = None, location = [], description = [],
        tags = [], seller = None, seller_url = None\<rparr>, \<lparr>listing_type = ''venta'',
        title = ''Piso A'', link = ''https://www.idealista.com/ca/inmueble/101/'', price = None,
        currency = ''EUR'', rooms = None, sq_meters = None, location = [], description = [],
        tags = [], seller = None, seller_url = None\<rparr>], consecutive_blocked = 0\<rparr>)))
        = [EvRequest FirstPage, EvFetch ''https://www.idealista.com/venta/'', EvRequest (SearchPage 2)]"
    by (simp add: eval_nat_numeral)
  from a b c d resume_run show ?thesis by blast
qed

section \<open>The consecutive-block stop\<close>

lemma still_blocked_control:
  assumes "page_body cfg fl p st = Inr (StillBlocked, ctl, st')"
  shows "consecutive_blocked st' = Suc (consecutive_blocked st) \<and>
         ctl = (if consecutive_blocked st \<ge> 1 then Break else Continue)"
  using page_body_control[OF assms] by simp

lemma failed_control:
  assumes "page_body cfg fl p st = Inr (Failed, ctl, st')"
  shows "ctl = Continue \<and> consecutive_blocked st' = 0"
  using page_body_control[OF assms] by simp

lemma page_body_pages_subset:
  assumes "page_body cfg fl p st = Inr (out, ctl, st')"
  shows "set (pages_requested (trace (world st'))) = set (pages_requested (trace (world st))) \<union> {p}"
  using page_body_pages[OF assms] by auto

text \<open>
  Claim C8. A page counts as blocked after its retry exactly when both of its fetches
  return status 200 with no cards parsed and markup that the detector calls blocked. When
  two pages in a row end so, the loop over the pages returns at the second of them at the
  latest, and the pages after them are not requested. A page whose fetch or retry returns
  another status than 200 sets the counter to zero and the loop goes on; so when such a page
  lies between two blocked pages, the loop goes on after the second of them, with the
  counter at one.
\<close>

theorem consecutive_block_stop:
  "((\<exists>ctl st'. page_body cfg fl p st = Inr (StillBlocked, ctl, st')) =
      (\<exists>h1 w1 h2 w2. page_fetch cfg p (page_delay cfg (world st)) = Inr ((h1, 200), w1) \<and>
         (snd (parse_search_page cfg h1 IDEALISTA_DOMAIN) = [] \<and> is_blocked_page h1) \<and>
         page_fetch cfg p (before_retry cfg w1) = Inr ((h2, 200), w2) \<and>
         (snd (parse_search_page cfg h2 IDEALISTA_DOMAIN) = [] \<and> is_blocked_page h2))) \<and>
   (start \<le> p \<and> start \<le> q \<and>
    page_body cfg fl p st = Inr (StillBlocked, c1, st1) \<and>
    page_body cfg fl q st1 = Inr (StillBlocked, c2, st2) \<longrightarrow>
      page_loop cfg fl start (p # q # rest) st
        = Inr (if consecutive_blocked st = 0 then st2 else st1) \<and>
      set (pages_requested (trace (world (if consecutive_blocked st = 0 then st2 else st1))))
        \<subseteq> set (pages_requested (trace (world st))) \<union> {p, q}) \<and>
   (page_body cfg fl p st = Inr (Failed, c1, st1) \<longrightarrow> c1 = Continue \<and> consecutive_blocked st1 = 0) \<and>
   (start \<le> p \<and> start \<le> q \<and> start \<le> r \<and>
    page_body cfg fl p st = Inr (StillBlocked, Continue, st1) \<and>
    page_body cfg fl q st1 = Inr (Failed, c2, st2) \<and>
    page_body cfg fl r st2 = Inr (StillBlocked, c3, st3) \<longrightarrow>
      c3 = Continue \<and> consecutive_blocked st3 = 1 \<and>
      page_loop cfg fl start (p # q # r # rest) st = page_loop cfg fl start rest st3)"
proof (intro conjI impI)
  show "(\<exists>ctl st'. page_body cfg fl p st = Inr (StillBlocked, ctl, st')) =
      (\<exists>h1 w1 h2 w2. page_fetch cfg p (page_delay cfg (world st)) = Inr ((h1, 200), w1) \<and>
         (snd (parse_search_page cfg h1 IDEALISTA_DOMAIN) = [] \<and> is_blocked_page h1) \<and>
         page_fetch cfg p (before_retry cfg w1) = Inr ((h2, 200), w2) \<and>
         (snd (parse_search_page cfg h2 IDEALISTA_DOMAIN) = [] \<and> is_blocked_page h2))"
    using page_body_still_blocked_iff[of cfg fl p st] unfolding looks_blocked_def .
next
  assume h: "start \<le> p \<and> start \<le> q \<and>
    page_body cfg fl p st = Inr (StillBlocked, c1, st1) \<and>
    page_body cfg fl q st1 = Inr (StillBlocked, c2, st2)"
  from h have p: "\<not> p < start" and q: "\<not> q < start" by simp_all
  from h have b1: "page_body cfg fl p st = Inr (StillBlocked, c1, st1)" by simp
  from h have b2: "page_body cfg fl q st1 = Inr (StillBlocked, c2, st2)" by simp
  note k1 = still_blocked_control[OF b1]
  note k2 = still_blocked_control[OF b2]
  show "page_loop cfg fl start (p # q # rest) st = Inr (if consecutive_blocked st = 0 then st2 else st1)"
  proof (cases "consecutive_blocked st = 0")
    case True
    then have c1: "c1 = Continue" using k1 by simp
    have c2: "c2 = Break" using k1 k2 by simp
    have "page_loop cfg fl start (p # q # rest) st = page_loop cfg fl start (q # rest) st1"
      using page_loop_continue[OF p] b1 unfolding c1 by blast
    also have "\<dots> = Inr st2" using page_loop_break[OF q] b2 unfolding c2 by blast
    finally show ?thesis using True by simp
  next
    case False
    then have c1: "c1 = Break" using k1 by simp
    have "page_loop cfg fl start (p # q # rest) st = Inr st1"
      using page_loop_break[OF p] b1 unfolding c1 by blast
    then show ?thesis using False by simp
  qed
  show "set (pages_requested (trace (world (if consecutive_blocked st = 0 then st2 else st1))))
        \<subseteq> set (pages_requested (trace (world st))) \<union> {p, q}"
    using page_body_pages_subset[OF b1] page_body_pages_subset[OF b2] by auto
next
  assume "page_body cfg fl p st = Inr (Failed, c1, st1)"
  then show "c1 = Continue" using failed_control by blast
next
  assume "page_body cfg fl p st = Inr (Failed, c1, st1)"
  then show "consecutive_blocked st1 = 0" using failed_control by blast
next
  assume h: "start \<le> p \<and> start \<le> q \<and> start \<le> r \<and>
    page_body cfg fl p st = Inr (StillBlocked, Continue, st1) \<and>
    page_body cfg fl q st1 = Inr (Failed, c2, st2) \<and>
    page_body cfg fl r st2 = Inr (StillBlocked, c3, st3)"
  from h have b2: "page_body cfg fl q st1 = Inr (Failed, c2, st2)" by simp
  from h have b3: "page_body cfg fl r st2 = Inr (StillBlocked, c3, st3)" by simp
  show "c3 = Continue" using failed_control[OF b2] still_blocked_control[OF b3] by simp
next
  assume h: "start \<le> p \<and> start \<le> q \<and> start \<le> r \<and>
    page_body cfg fl p st = Inr (StillBlocked, Continue, st1) \<and>
    page_body cfg fl q st1 = Inr (Failed, c2, st2) \<and>
    page_body cfg fl r st2 = Inr (StillBlocked, c3, st3)"
  from h have b2: "page_body cfg fl q st1 = Inr (Failed, c2, st2)" by simp
  from h have b3: "page_body cfg fl r st2 = Inr (StillBlocked, c3, st3)" by simp
  show "consecutive_blocked st3 = 1" using failed_control[OF b2] still_blocked_control[OF b3] by simp
next
  assume h: "start \<le> p \<and> start \<le> q \<and> start \<le> r \<and>
    page_body cfg fl p st = Inr (StillBlocked, Continue, st1) \<and>
    page_body cfg fl q st1 = Inr (Failed, c2, st2) \<and>
    page_body cfg fl r st2 = Inr (StillBlocked, c3, st3)"
  from h have p: "\<not> p < start" and q: "\<not> q < start" and r: "\<not> r < start" by simp_all
  from h have b1: "page_body cfg fl p st = Inr (StillBlocked, Continue, st1)" by simp
  from h have b2: "page_body cfg fl q st1 = Inr (Failed, c2, st2)" by simp
  from h have b3: "page_body cfg fl r st2 = Inr (StillBlocked, c3, st3)" by simp
  have c2: "c2 = Continue" using failed_control[OF b2] by simp
  have c3: "c3 = Continue" using failed_control[OF b2] still_blocked_control[OF b3] by simp
  have "page_loop cfg fl start (p # q # r # rest) st = page_loop cfg fl start (q # r # rest) st1"
    using page_loop_continue[OF p] b1 by blast
  also have "\<dots> = page_loop cfg fl start (r # rest) st2"
    using page_loop_continue[OF q] b2 unfolding c2 by blast
  also have "\<dots> = page_loop cfg fl start rest st3"
    using page_loop_continue[OF r] b3 unfolding c3 by blast
  finally show "page_loop cfg fl start (p # q # r # rest) st = page_loop cfg fl start rest st3" .
qed

theorem consecutive_block_stop_witness:
  "consecutive_blocked idle_state = 0 \<and>
   (\<exists>st1 st2. page_body captcha_cfg None 2 idle_state = Inr (StillBlocked, Continue, st1) \<and>
      page_body captcha_cfg None 3 st1 = Inr (StillBlocked, Break, st2) \<and>
      page_loop captcha_cfg None 2 [2, 3, 4, 5, 6] idle_state = Inr st2 \<and>
      pages_requested (trace (world st2)) = [2, 2, 3, 3]) \<and>
   (\<exists>st1 st2 st3. page_body blocking_cfg None 2 idle_state = Inr (StillBlocked, Continue, st1) \<and>
      page_body blocking_cfg None 3 st1 = Inr (Failed, Continue, st2) \<and>
      consecutive_blocked st2 = 0 \<and>
      page_body blocking_cfg None 4 st2 = Inr (StillBlocked, Continue, st3) \<and>
      page_loop blocking_cfg None 2 [2, 3, 4, 5, 6] idle_state
        = page_loop blocking_cfg None 2 [5, 6] st3)"
proof -
  have z: "consecutive_blocked idle_state = 0" by (simp add: idle_state_def)
  have le: "(2::int) \<le> 2 \<and> (2::int) \<le> 3" by simp
  note t = consecutive_block_stop[where cfg = captcha_cfg and fl = None and start = 2 and p = 2
      and q = 3 and st = idle_state and rest = "[4, 5, 6]",
      THEN conjunct2, THEN conjunct1, rule_format, OF conjI, OF _ conjI, OF _ _ conjI,
      OF _ _ captcha_page2 captcha_page3]
  from t z have l: "page_loop captcha_cfg None 2 [2, 3, 4, 5, 6] idle_state
      = Inr (\<lparr>world = \<lparr>calls = 4, trace = [EvRequest (SearchPage 2),
        EvFetch ''https://www.idealista.com/venta/pagina-2.htm'', EvSleep 60,
        EvRequest (SearchPage 2), EvFetch ''https://www.idealista.com/venta/pagina-2.htm'',
        EvRequest (SearchPage 3), EvFetch ''https://www.idealista.com/venta/pagina-3.htm'',
        EvSleep 60, EvRequest (SearchPage 3),
        EvFetch ''https://www.idealista.com/venta/pagina-3.htm'']\<rparr>, results = [],
        processed_links = {}, all_cards = [], consecutive_blocked = 2\<rparr>)"
    by simp
  have pg: "pages_requested (trace (world (\<lparr>world = \<lparr>calls = 4, trace = [EvRequest (SearchPage 2),
        EvFetch ''https://www.idealista.com/venta/pagina-2.htm'', EvSleep 60,
        EvRequest (SearchPage 2), EvFetch ''https://www.idealista.com/venta/pagina-2.htm'',
        EvRequest (SearchPage 3), EvFetch ''https://www.idealista.com/venta/pagina-3.htm'',
        EvSleep 60, EvRequest (SearchPage 3),
        EvFetch ''https://www.idealista.com/venta/pagina-3.htm'']\<rparr>, results = [],
        processed_links = {}, all_cards = [], consecutive_blocked = 2\<rparr>))) = [2, 2, 3, 3]"
    by simp
  have le3: "(2::int) \<le> 2 \<and> (2::int) \<le> 3 \<and> (2::int) \<le> 4" by simp
  note u = consecutive_block_stop[where cfg = blocking_cfg and fl = None and start = 2 and p = 2
      and q = 3 and r = 4 and st = idle_state and rest = "[5, 6]",
      THEN conjunct2, THEN conjunct2, THEN conjunct2, rule_format, OF conjI, OF _ conjI,
      OF _ _ conjI, OF _ _ _ conjI, OF _ _ _ _ conjI,
      OF _ _ _ blocking_page2 blocking_page3 blocking_page4]
  from u have m: "page_loop blocking_cfg None 2 [2, 3, 4, 5, 6] idle_state
        = page_loop blocking_cfg None 2 [5, 6] (\<lparr>world = \<lparr>calls = 7, trace = [EvRequest (SearchPage 2),
        EvFetch ''https://www.idealista.com/venta/pagina-2.htm'', EvSleep 60,
        EvRequest (SearchPage 2), EvFetch ''https://www.idealista.com/venta/pagina-2.htm'',
        EvRequest (SearchPage 3), EvFetch ''https://www.idealista.com/venta/pagina-3.htm'',
        EvSleep 10, EvFetch ''https://www.idealista.com/venta/pagina-3.htm'', EvSleep 30,
        EvFetch ''https://www.idealista.com/venta/pagina-3.htm'', EvRequest (SearchPage 4),
        EvFetch ''https://www.idealista.com/venta/pagina-4.htm'', EvSleep 60,
        EvRequest (SearchPage 4),
        EvFetch ''https://www.idealista.com/venta/pagina-4.htm'']\<rparr>, results = [],
        processed_links = {}, all_cards = [], consecutive_blocked = 1\<rparr>)"
    by simp
  have cb: "consecutive_blocked (\<lparr>world = \<lparr>calls = 5, trace = [EvRequest (SearchPage 2),
        EvFetch ''https://www.idealista.com/venta/pagina-2.htm'', EvSleep 60,
        EvRequest (SearchPage 2), EvFetch ''https://www.idealista.com/venta/pagina-2.htm'',
        EvRequest (SearchPage 3), EvFetch ''https://www.idealista.com/venta/pagina-3.htm'',
        EvSleep 10, EvFetch ''https://www.idealista.com/venta/pagina-3.htm'', EvSleep 30,
        EvFetch ''https://www.idealista.com/venta/pagina-3.htm'']\<rparr>, results = [],
        processed_links = {}, all_cards = [], consecutive_blocked = 0\<rparr>) = 0" by simp
  from z captcha_page2 captcha_page3 l pg blocking_page2 blocking_page3 cb blocking_page4 m
  show ?thesis by blast
qed

section \<open>The fatal first page\<close>



end
